(* ===== verification/Prelude.thy ===== *)
theory Prelude
  imports Main "HOL-Library.Monad_Syntax" "HOL-Library.Signed_Division"
begin

section \<open>Rust integers, panics and results\<close>

text \<open>
  The vocabulary every component of the development is written in.

  \<^item> A machine integer (i64, u64, i128, u128, u16) is an \<^typ>\<open>int\<close> that lies in
    the range of its type. The release profile of the program is built with
    overflow checks, so an unchecked operator whose result leaves the range aborts the
    transaction: \<open>a * b\<close> on i64 is written \<open>i64 (a * b)\<close>, of type
    \<^typ>\<open>int option\<close>, with \<^const>\<open>None\<close> for the abort.
  \<^item> Saturating operators are \<open>sat_i64\<close>, \<open>sat_u64\<close>, \<open>sat_i128\<close> and \<open>sat_u128\<close>
    applied to the exact result; an \<open>as\<close> cast is \<open>as_i64\<close> or \<open>as_u64\<close>, which wraps;
    signed division truncates towards zero (\<open>sdiv\<close>).
  \<^item> A function returning a Rust \<open>Result\<close> returns an \<open>outcome\<close>: \<^const>\<open>None\<close> for
    an abort, \<open>Some (Inl e)\<close> for \<open>Err(e)\<close>, \<open>Some (Inr x)\<close> for \<open>Ok(x)\<close>.
  \<^item> \<open>ok m P\<close> is total correctness for the option monad: \<open>m\<close> does not abort and its
    value satisfies \<open>P\<close>. Its rules are collected in \<open>wp\<close>.
\<close>

named_theorems wp "total-correctness rules for the option monad"
named_theorems ranges "definitions of the machine ranges"

subsection \<open>Ranges\<close>

abbreviation (input) I64_MAX :: int where "I64_MAX \<equiv> 9223372036854775807"
abbreviation (input) I64_MIN :: int where "I64_MIN \<equiv> -9223372036854775808"
abbreviation (input) U64_MAX :: int where "U64_MAX \<equiv> 18446744073709551615"
abbreviation (input) U128_MAX :: int where "U128_MAX \<equiv> 340282366920938463463374607431768211455"
abbreviation (input) I128_MAX :: int where "I128_MAX \<equiv> 170141183460469231731687303715884105727"
abbreviation (input) I128_MIN :: int where "I128_MIN \<equiv> -170141183460469231731687303715884105728"

definition is_i64 :: "int \<Rightarrow> bool" where
  [ranges]: "is_i64 x \<longleftrightarrow> I64_MIN \<le> x \<and> x \<le> I64_MAX"

definition is_u64 :: "int \<Rightarrow> bool" where
  [ranges]: "is_u64 x \<longleftrightarrow> 0 \<le> x \<and> x \<le> U64_MAX"

definition is_i128 :: "int \<Rightarrow> bool" where
  [ranges]: "is_i128 x \<longleftrightarrow> I128_MIN \<le> x \<and> x \<le> I128_MAX"

definition is_u128 :: "int \<Rightarrow> bool" where
  [ranges]: "is_u128 x \<longleftrightarrow> 0 \<le> x \<and> x \<le> U128_MAX"

definition is_u16 :: "int \<Rightarrow> bool" where
  [ranges]: "is_u16 x \<longleftrightarrow> 0 \<le> x \<and> x \<le> 65535"

subsection \<open>Checked operators, saturation, casts\<close>

definition i64 :: "int \<Rightarrow> int option" where
  "i64 x = (if is_i64 x then Some x else None)"

definition u64 :: "int \<Rightarrow> int option" where
  "u64 x = (if is_u64 x then Some x else None)"

definition i128 :: "int \<Rightarrow> int option" where
  "i128 x = (if is_i128 x then Some x else None)"

definition u128 :: "int \<Rightarrow> int option" where
  "u128 x = (if is_u128 x then Some x else None)"

text \<open>Division aborts on a zero divisor, and on the one quotient that overflows.\<close>

definition div_i64 :: "int \<Rightarrow> int \<Rightarrow> int option" where
  "div_i64 a b = (if b = 0 then None else i64 (a sdiv b))"

definition div_i128 :: "int \<Rightarrow> int \<Rightarrow> int option" where
  "div_i128 a b = (if b = 0 then None else i128 (a sdiv b))"

definition div_u :: "int \<Rightarrow> int \<Rightarrow> int option" where
  "div_u a b = (if b = 0 then None else Some (a div b))"

definition clamp :: "int \<Rightarrow> int \<Rightarrow> int \<Rightarrow> int" where
  "clamp lo hi x = max lo (min hi x)"

definition sat_i64 :: "int \<Rightarrow> int" where
  "sat_i64 x = clamp I64_MIN I64_MAX x"

definition sat_u64 :: "int \<Rightarrow> int" where
  "sat_u64 x = clamp 0 U64_MAX x"

definition sat_i128 :: "int \<Rightarrow> int" where
  "sat_i128 x = clamp I128_MIN I128_MAX x"

definition sat_u128 :: "int \<Rightarrow> int" where
  "sat_u128 x = clamp 0 U128_MAX x"

definition as_i64 :: "int \<Rightarrow> int" where
  "as_i64 x = (x + 9223372036854775808) mod 18446744073709551616 - 9223372036854775808"

definition as_u64 :: "int \<Rightarrow> int" where
  "as_u64 x = x mod 18446744073709551616"

definition as_u128 :: "int \<Rightarrow> int" where
  "as_u128 x = x mod 340282366920938463463374607431768211456"

definition as_u16 :: "int \<Rightarrow> int" where
  "as_u16 x = x mod 65536"

subsection \<open>Results\<close>

type_synonym ('e, 'a) outcome = "('e + 'a) option"

abbreviation Ok :: "'a \<Rightarrow> ('e, 'a) outcome" where "Ok x \<equiv> Some (Inr x)"
abbreviation Err :: "'e \<Rightarrow> ('e, 'a) outcome" where "Err e \<equiv> Some (Inl e)"

text \<open>The question mark operator: an abort or an error leaves the function.\<close>

fun attempt :: "('e, 'a) outcome \<Rightarrow> ('a \<Rightarrow> ('e, 'b) outcome) \<Rightarrow> ('e, 'b) outcome" where
  "attempt None k = None"
| "attempt (Some (Inl e)) k = Some (Inl e)"
| "attempt (Some (Inr x)) k = k x"

definition require :: "bool \<Rightarrow> 'e \<Rightarrow> ('e, 'a) outcome \<Rightarrow> ('e, 'a) outcome" where
  "require b e k = (if b then k else Err e)"

text \<open>An optional value turned into an error when it is missing (\<open>ok_or\<close>).\<close>

definition ok_or :: "'a option \<Rightarrow> 'e \<Rightarrow> ('e, 'a) outcome" where
  "ok_or v e = (case v of None \<Rightarrow> Err e | Some x \<Rightarrow> Ok x)"

subsection \<open>Correctness predicates\<close>

definition ok :: "'a option \<Rightarrow> ('a \<Rightarrow> bool) \<Rightarrow> bool" where
  "ok m P \<longleftrightarrow> (\<exists>x. m = Some x \<and> P x)"

text \<open>Of an outcome: if it commits, the committed value satisfies \<open>P\<close>.\<close>

definition commits :: "('e, 'a) outcome \<Rightarrow> ('a \<Rightarrow> bool) \<Rightarrow> bool" where
  "commits m P \<longleftrightarrow> (\<forall>x. m = Ok x \<longrightarrow> P x)"

lemma ok_Some [wp, simp]: "ok (Some x) P \<longleftrightarrow> P x"
  by (simp add: ok_def)

lemma ok_None [simp]: "\<not> ok None P"
  by (simp add: ok_def)

lemma ok_bind [wp]: "ok (Option.bind m k) P \<longleftrightarrow> ok m (\<lambda>x. ok (k x) P)"
  by (auto simp: ok_def bind_eq_Some_conv)

lemma ok_i64 [wp]: "ok (i64 x) P \<longleftrightarrow> is_i64 x \<and> P x"
  by (simp add: i64_def)

lemma ok_u64 [wp]: "ok (u64 x) P \<longleftrightarrow> is_u64 x \<and> P x"
  by (simp add: u64_def)

lemma ok_i128 [wp]: "ok (i128 x) P \<longleftrightarrow> is_i128 x \<and> P x"
  by (simp add: i128_def)

lemma ok_u128 [wp]: "ok (u128 x) P \<longleftrightarrow> is_u128 x \<and> P x"
  by (simp add: u128_def)

lemma ok_div_i64 [wp]: "ok (div_i64 a b) P \<longleftrightarrow> b \<noteq> 0 \<and> is_i64 (a sdiv b) \<and> P (a sdiv b)"
  by (simp add: div_i64_def ok_i64)

lemma ok_div_i128 [wp]: "ok (div_i128 a b) P \<longleftrightarrow> b \<noteq> 0 \<and> is_i128 (a sdiv b) \<and> P (a sdiv b)"
  by (simp add: div_i128_def ok_i128)

lemma ok_div_u [wp]: "ok (div_u a b) P \<longleftrightarrow> b \<noteq> 0 \<and> P (a div b)"
  by (simp add: div_u_def)

lemma ok_if [wp]: "ok (if b then m else n) P \<longleftrightarrow> (b \<longrightarrow> ok m P) \<and> (\<not> b \<longrightarrow> ok n P)"
  by simp

lemma ok_Let [wp]: "ok (let x = e in f x) P \<longleftrightarrow> ok (f e) P"
  by (simp add: Let_def)

lemma ok_mono: "ok m Q \<Longrightarrow> (\<And>x. Q x \<Longrightarrow> P x) \<Longrightarrow> ok m P"
  by (auto simp: ok_def)

lemma ok_conj: "ok m P \<Longrightarrow> ok m Q \<Longrightarrow> ok m (\<lambda>x. P x \<and> Q x)"
  by (auto simp: ok_def)

lemma okD: "ok m P \<Longrightarrow> \<exists>x. m = Some x \<and> P x"
  by (simp add: ok_def)

lemma commits_None [simp]: "commits None P"
  by (simp add: commits_def)

lemma commits_Err [simp]: "commits (Err e) P"
  by (simp add: commits_def)

lemma commits_Ok [simp]: "commits (Ok x) P \<longleftrightarrow> P x"
  by (simp add: commits_def)

lemma commits_bind [wp]:
  "commits (Option.bind m k) P \<longleftrightarrow> (\<forall>x. m = Some x \<longrightarrow> commits (k x) P)"
  by (cases m) (auto simp: commits_def)

lemma commits_require [wp]: "commits (require b e k) P \<longleftrightarrow> (b \<longrightarrow> commits k P)"
  by (simp add: require_def)

lemma commits_attempt [wp]: "commits (attempt m k) P \<longleftrightarrow> commits m (\<lambda>x. commits (k x) P)"
  by (cases "(m, k)" rule: attempt.cases) (auto simp: commits_def)

lemma commits_ok_or [wp]: "commits (ok_or v e) P \<longleftrightarrow> (\<forall>x. v = Some x \<longrightarrow> P x)"
  by (cases v) (auto simp: ok_or_def commits_def)

lemma commits_if [wp]:
  "commits (if b then m else n) P \<longleftrightarrow> (b \<longrightarrow> commits m P) \<and> (\<not> b \<longrightarrow> commits n P)"
  by simp

lemma commits_Let [wp]: "commits (let x = e in f x) P \<longleftrightarrow> commits (f e) P"
  by (simp add: Let_def)

lemma commits_case_prod [wp]: "commits (case z of (x, y) \<Rightarrow> f x y) P \<longleftrightarrow> commits (f (fst z) (snd z)) P"
  by (cases z) simp

lemma commits_mono: "commits m Q \<Longrightarrow> (\<And>x. Q x \<Longrightarrow> P x) \<Longrightarrow> commits m P"
  by (auto simp: commits_def)

lemma commitsD: "commits m P \<Longrightarrow> m = Ok x \<Longrightarrow> P x"
  by (simp add: commits_def)

lemma bind_SomeE:
  assumes "Option.bind m k = Some y"
  obtains x where "m = Some x" and "k x = Some y"
  using assms by (cases m) auto

lemma i64_ok [simp]: "is_i64 x \<Longrightarrow> i64 x = Some x"
  and u64_ok [simp]: "is_u64 x \<Longrightarrow> u64 x = Some x"
  and i128_ok [simp]: "is_i128 x \<Longrightarrow> i128 x = Some x"
  and u128_ok [simp]: "is_u128 x \<Longrightarrow> u128 x = Some x"
  by (simp_all add: i64_def u64_def i128_def u128_def)

lemma i64_Some_iff [simp]: "i64 x = Some y \<longleftrightarrow> is_i64 x \<and> y = x"
  by (auto simp: i64_def)

lemma u64_Some_iff [simp]: "u64 x = Some y \<longleftrightarrow> is_u64 x \<and> y = x"
  by (auto simp: u64_def)

lemma i128_Some_iff [simp]: "i128 x = Some y \<longleftrightarrow> is_i128 x \<and> y = x"
  by (auto simp: i128_def)

lemma u128_Some_iff [simp]: "u128 x = Some y \<longleftrightarrow> is_u128 x \<and> y = x"
  by (auto simp: u128_def)

subsection \<open>Frames: what holds if the computation returns\<close>

definition part :: "'a option \<Rightarrow> ('a \<Rightarrow> bool) \<Rightarrow> bool" where
  "part m P \<longleftrightarrow> (\<forall>x. m = Some x \<longrightarrow> P x)"

lemma part_Some: "part (Some x) P \<longleftrightarrow> P x"
  by (simp add: part_def)

lemma part_None: "part None P"
  by (simp add: part_def)

lemma part_bind: "part (Option.bind m k) P \<longleftrightarrow> part m (\<lambda>x. part (k x) P)"
  by (auto simp: part_def bind_eq_Some_conv)

lemma part_if: "part (if b then m else n) P \<longleftrightarrow> (b \<longrightarrow> part m P) \<and> (\<not> b \<longrightarrow> part n P)"
  by simp

lemma part_Let: "part (let x = e in f x) P \<longleftrightarrow> part (f e) P"
  by (simp add: Let_def)

lemmas part_simps = part_Some part_None part_bind part_if part_Let

lemma part_any: "(\<And>x. P x) \<Longrightarrow> part m P"
  by (simp add: part_def)

lemma part_mono: "part m Q \<Longrightarrow> (\<And>x. Q x \<Longrightarrow> P x) \<Longrightarrow> part m P"
  by (simp add: part_def)

lemma partD: "part m P \<Longrightarrow> m = Some x \<Longrightarrow> P x"
  by (simp add: part_def)

lemma part_i64: "part (i64 x) P \<longleftrightarrow> (is_i64 x \<longrightarrow> P x)"
  by (auto simp: part_def i64_def)

lemma part_u64: "part (u64 x) P \<longleftrightarrow> (is_u64 x \<longrightarrow> P x)"
  by (auto simp: part_def u64_def)

lemma part_i128: "part (i128 x) P \<longleftrightarrow> (is_i128 x \<longrightarrow> P x)"
  by (auto simp: part_def i128_def)

lemma part_u128: "part (u128 x) P \<longleftrightarrow> (is_u128 x \<longrightarrow> P x)"
  by (auto simp: part_def u128_def)

lemmas part_exact = part_i64 part_u64 part_i128 part_u128

lemmas part_checked = part_any[of _ "i64 x" for x] part_any[of _ "u64 x" for x]
  part_any[of _ "i128 x" for x] part_any[of _ "u128 x" for x]
  part_any[of _ "div_i64 x y" for x y] part_any[of _ "div_i128 x y" for x y]
  part_any[of _ "div_u x y" for x y]

lemma part_case_prod: "part (case z of (x, y) \<Rightarrow> f x y) P \<longleftrightarrow> part (f (fst z) (snd z)) P"
  by (cases z) simp

lemma commits_bind_part: "commits (Option.bind m k) P \<longleftrightarrow> part m (\<lambda>x. commits (k x) P)"
  by (cases m) (auto simp: commits_def part_def)

lemmas commit_rules = commits_bind_part commits_require commits_attempt commits_if commits_Let commits_case_prod
  commits_Ok commits_Err part_simps part_case_prod

lemma attempt_OkE:
  assumes "attempt m k = Ok y"
  obtains x where "m = Ok x" "k x = Ok y"
  using assms by (cases "(m, k)" rule: attempt.cases) auto

lemma ok_or_Ok [simp]: "ok_or v e = Ok x \<longleftrightarrow> v = Some x"
  by (cases v) (simp_all add: ok_or_def)

subsection \<open>Arithmetic\<close>

lemma sdiv_nonneg: "0 \<le> a \<Longrightarrow> 0 \<le> b \<Longrightarrow> a sdiv b = a div (b :: int)"
  by (auto simp: signed_divide_int_def sgn_if)

lemma sdiv_nonneg_nonneg: "0 \<le> a \<Longrightarrow> 0 \<le> b \<Longrightarrow> 0 \<le> a sdiv (b :: int)"
  by (simp add: sdiv_nonneg div_int_pos_iff)

lemma sdiv_mono: "a \<le> b \<Longrightarrow> 0 \<le> a \<Longrightarrow> 0 < c \<Longrightarrow> a sdiv c \<le> b sdiv (c :: int)"
  by (simp add: sdiv_nonneg zdiv_mono1)

lemma sdiv_minus_left: "(- a) sdiv b = - (a sdiv (b :: int))"
  by (simp add: signed_divide_int_def)

lemma abs_sdiv: "\<bar>a sdiv (b :: int)\<bar> = \<bar>a\<bar> div \<bar>b\<bar>"
  by (auto simp: signed_divide_int_def abs_mult abs_sgn_eq div_int_pos_iff)

lemma clamp_le: "lo \<le> hi \<Longrightarrow> clamp lo hi x \<le> hi"
  and clamp_ge: "lo \<le> clamp lo hi x"
  by (auto simp: clamp_def)

lemma clamp_id: "lo \<le> x \<Longrightarrow> x \<le> hi \<Longrightarrow> clamp lo hi x = x"
  by (simp add: clamp_def)

lemma sat_i64_id: "is_i64 x \<Longrightarrow> sat_i64 x = x"
  by (simp add: is_i64_def sat_i64_def clamp_def)

lemma sat_u64_id: "is_u64 x \<Longrightarrow> sat_u64 x = x"
  by (simp add: is_u64_def sat_u64_def clamp_def)

lemma sat_i128_id: "is_i128 x \<Longrightarrow> sat_i128 x = x"
  by (simp add: is_i128_def sat_i128_def clamp_def)

lemma sat_u128_id: "is_u128 x \<Longrightarrow> sat_u128 x = x"
  by (simp add: is_u128_def sat_u128_def clamp_def)

lemma is_sat [simp]: "is_i64 (sat_i64 x)" "is_u64 (sat_u64 x)" "is_i128 (sat_i128 x)" "is_u128 (sat_u128 x)"
  by (auto simp: ranges sat_i64_def sat_u64_def sat_i128_def sat_u128_def clamp_def)

lemma sat_u64_nonneg [simp]: "0 \<le> sat_u64 x"
  by (simp add: sat_u64_def clamp_def)

lemma sat_u64_pos: "0 < sat_u64 x \<Longrightarrow> sat_u64 x \<le> x"
  by (simp add: sat_u64_def clamp_def split: if_splits)

lemma sat_u128_nonneg [simp]: "0 \<le> sat_u128 x"
  by (simp add: sat_u128_def clamp_def)

lemma sat_u64_le: "0 \<le> x \<Longrightarrow> sat_u64 x \<le> x"
  by (simp add: sat_u64_def clamp_def)

lemma sat_u64_diff: "0 \<le> b \<Longrightarrow> is_u64 a \<Longrightarrow> sat_u64 (a - b) = max 0 (a - b)"
  by (auto simp: sat_u64_def clamp_def is_u64_def)

lemma sat_u64_mono: "x \<le> y \<Longrightarrow> sat_u64 x \<le> sat_u64 y"
  by (auto simp: sat_u64_def clamp_def)

lemma as_i64_id: "is_i64 x \<Longrightarrow> as_i64 x = x"
  by (simp add: is_i64_def as_i64_def)

lemma as_u64_id: "is_u64 x \<Longrightarrow> as_u64 x = x"
  by (simp add: is_u64_def as_u64_def)

lemma as_u128_id: "is_u128 x \<Longrightarrow> as_u128 x = x"
  by (simp add: is_u128_def as_u128_def)

lemma as_u16_id: "is_u16 x \<Longrightarrow> as_u16 x = x"
  by (simp add: is_u16_def as_u16_def)

lemma is_as_u64 [simp]: "is_u64 (as_u64 x)"
proof -
  have "x mod 18446744073709551616 < 18446744073709551616"
    by simp
  then have "x mod 18446744073709551616 \<le> U64_MAX"
    by linarith
  then show ?thesis by (simp add: is_u64_def as_u64_def)
qed

lemma is_as_i64 [simp]: "is_i64 (as_i64 x)"
proof -
  have "(x + 9223372036854775808) mod 18446744073709551616 < 18446744073709551616"
       "0 \<le> (x + 9223372036854775808) mod 18446744073709551616"
    by simp_all
  then show ?thesis by (simp add: is_i64_def as_i64_def)
qed

text \<open>Bounds of products and quotients, used where the arithmetic is not linear.\<close>

lemma mult_bounds:
  assumes "0 \<le> a" "a \<le> A" "0 \<le> b" "b \<le> (B :: int)"
  shows "0 \<le> a * b" and "a * b \<le> A * B"
  using assms by (auto intro: mult_mono)

lemma div_le_bound: "0 < c \<Longrightarrow> a \<le> b * c \<Longrightarrow> a div c \<le> (b :: int)"
  by (metis nonzero_mult_div_cancel_right not_less_iff_gr_or_eq zdiv_mono1)

lemma div_nonneg: "0 \<le> a \<Longrightarrow> 0 \<le> b \<Longrightarrow> 0 \<le> a div (b :: int)"
  by (simp add: div_int_pos_iff)

lemma div_le_self: "0 \<le> a \<Longrightarrow> 0 < b \<Longrightarrow> a div b \<le> (a :: int)"
  by (metis div_by_1 int_one_le_iff_zero_less zdiv_mono2 zero_less_one)

lemma muldiv_le_left:
  assumes "0 \<le> a" "0 \<le> b" "b \<le> c" "0 < (c :: int)"
  shows "a * b div c \<le> a"
  by (rule div_le_bound) (use assms in \<open>auto intro: mult_left_mono\<close>)

lemma div_mono2_strict: "0 \<le> a \<Longrightarrow> 0 < b \<Longrightarrow> b \<le> c \<Longrightarrow> a div c \<le> a div (b :: int)"
  by (rule zdiv_mono2) auto

end
