(* ===== verification/Bytes.thy ===== *)
theory Bytes
  imports Prelude "HOL-Library.Word"
begin

section \<open>Bytes and fixed-width integers on the wire\<close>

text \<open>
  What the off-chain daemons (the crates under src/quid-ln) use of the byte arrays of Rust: a
  \<open>[u8; n]\<close> is a list of \<open>n\<close> bytes, a \<open>u64\<close> or a \<open>U256\<close> is written to it by
  \<open>to_be_bytes\<close> (\<open>be_octets\<close>) or \<open>to_le_bytes\<close> (\<open>le_octets\<close>) and read back by
  \<open>from_be_bytes\<close> (\<open>be_nat\<close>) or \<open>from_le_bytes\<close> (\<open>le_nat\<close>), and a range
  \<open>get(a..b)\<close> is \<^const>\<open>None\<close> where it leaves the slice.
\<close>

type_synonym byte = "8 word"
type_synonym bytes = "byte list"

named_theorems byte_simps "lengths and round trips of the byte encodings"

fun le_octets :: "nat \<Rightarrow> nat \<Rightarrow> bytes" where
  "le_octets 0 v = []"
| "le_octets (Suc n) v = word_of_nat v # le_octets n (v div 256)"

fun le_nat :: "bytes \<Rightarrow> nat" where
  "le_nat [] = 0"
| "le_nat (b # bs) = unat b + 256 * le_nat bs"

definition be_octets :: "nat \<Rightarrow> nat \<Rightarrow> bytes" where
  "be_octets n v = rev (le_octets n v)"

definition be_nat :: "bytes \<Rightarrow> nat" where
  "be_nat bs = le_nat (rev bs)"

text \<open>\<open>slice.get(a..b)\<close>\<close>

definition subrange :: "bytes \<Rightarrow> nat \<Rightarrow> nat \<Rightarrow> bytes option" where
  "subrange bs a b = (if a \<le> b \<and> b \<le> length bs then Some (take (b - a) (drop a bs)) else None)"

text \<open>The saturating operators on u64, u32 and u128 are these of the exact result.\<close>

definition sat64 :: "nat \<Rightarrow> nat" where
  "sat64 x = min x (2 ^ 64 - 1)"

definition sat32 :: "nat \<Rightarrow> nat" where
  "sat32 x = min x (2 ^ 32 - 1)"

definition sat128 :: "nat \<Rightarrow> nat" where
  "sat128 x = min x (2 ^ 128 - 1)"

lemma unat_byte_lt [simp]: "unat (b :: byte) < 256"
  using unsigned_less[of b] by simp

lemma unat_word_of_nat_byte [simp]: "unat (word_of_nat v :: byte) = v mod 256"
  by (simp add: unat_of_nat take_bit_eq_mod)

lemma length_le_bytes [simp]: "length (le_octets n v) = n"
  by (induction n arbitrary: v) auto

lemma length_be_bytes [simp, byte_simps]: "length (be_octets n v) = n"
  by (simp add: be_octets_def)

lemma le_value_le_bytes: "le_nat (le_octets n v) = v mod 256 ^ n"
proof (induction n arbitrary: v)
  case (Suc n)
  have "v mod 256 + 256 * ((v div 256) mod 256 ^ n) = v mod (256 * 256 ^ n)"
    by (simp add: mod_mult2_eq)
  then show ?case using Suc by simp
qed simp

lemma le_value_less: "le_nat bs < 256 ^ length bs"
proof (induction bs)
  case (Cons b bs)
  have "unat b + 256 * le_nat bs < 256 + 256 * le_nat bs" by simp
  also have "\<dots> = 256 * (le_nat bs + 1)" by simp
  also have "\<dots> \<le> 256 * 256 ^ length bs" using Cons by (intro mult_le_mono2) simp
  finally show ?case by simp
qed simp

lemma le_bytes_le_value: "le_octets (length bs) (le_nat bs) = bs"
proof (induction bs)
  case (Cons b bs)
  have "(unat b + 256 * le_nat bs) div 256 = le_nat bs" by simp
  moreover have "(word_of_nat (unat b + 256 * le_nat bs) :: byte) = b"
    by (subst word_unat_eq_iff) (simp only: unat_word_of_nat_byte, simp)
  ultimately show ?case using Cons by simp
qed simp

lemma le_value_append: "le_nat (xs @ ys) = le_nat xs + 256 ^ length xs * le_nat ys"
  by (induction xs) (auto simp: algebra_simps)

lemma be_value_be_bytes [byte_simps]: "be_nat (be_octets n v) = v mod 256 ^ n"
  by (simp add: be_nat_def be_octets_def le_value_le_bytes)

lemma be_value_exact: "v < 256 ^ n \<Longrightarrow> be_nat (be_octets n v) = v"
  by (simp add: be_value_be_bytes)

lemma be_bytes_be_value [byte_simps]: "length bs = n \<Longrightarrow> be_octets n (be_nat bs) = bs"
  using le_bytes_le_value[of "rev bs"] by (auto simp: be_octets_def be_nat_def)

lemma be_value_less: "be_nat bs < 256 ^ length bs"
  using le_value_less[of "rev bs"] by (simp add: be_nat_def)

lemma be_value_append: "be_nat (xs @ ys) = 256 ^ length ys * be_nat xs + be_nat ys"
  by (simp add: be_nat_def le_value_append)

lemma le_value_zeros [simp]: "le_nat (replicate n 0) = 0"
  by (induction n) auto

lemma be_value_zeros [simp]: "be_nat (replicate n 0) = 0"
  by (simp add: be_nat_def rev_replicate)

lemma be_bytes_inj: "be_octets n v = be_octets n w \<Longrightarrow> v < 256 ^ n \<Longrightarrow> w < 256 ^ n \<Longrightarrow> v = w"
  by (metis be_value_exact)

lemma be_value_zero_iff: "be_nat bs = 0 \<longleftrightarrow> (\<forall>b \<in> set bs. b = 0)"
proof -
  have "le_nat cs = 0 \<longleftrightarrow> (\<forall>b \<in> set cs. b = 0)" for cs
    by (induction cs) (auto simp: unat_eq_0)
  from this[of "rev bs"] show ?thesis by (simp add: be_nat_def)
qed

lemma slice_Some [simp]: "subrange bs a b = Some cs \<longleftrightarrow> a \<le> b \<and> b \<le> length bs \<and> cs = take (b - a) (drop a bs)"
  by (auto simp: subrange_def)

lemma length_slice: "subrange bs a b = Some cs \<Longrightarrow> length cs = b - a"
  by auto

lemma slice_None: "subrange bs a b = None \<longleftrightarrow> b < a \<or> length bs < b"
  by (auto simp: subrange_def)

lemma slice_middle: "a = length xs \<Longrightarrow> b = a + length ys \<Longrightarrow> subrange (xs @ ys @ zs) a b = Some ys"
  by simp

end
