(* ===== verification/Abi.thy ===== *)
theory Abi
  imports Bytes
begin

section \<open>ABI words and tokens (quid-hop/src/abi.rs, evm_codec.rs, quid-bridge/src/abi.rs)\<close>

text \<open>
  The calldata the daemons send and the words they read back. A token of \<open>Tok\<close> is the
  constructor of the source; a \<open>U256\<close> is a \<open>256 word\<close>, an \<open>Address\<close> its twenty bytes, a
  \<open>[u8; 32]\<close> its thirty-two. The arms marked \<open>unreachable!\<close> are \<^const>\<open>None\<close>, and
  \<open>encode_tuple\<close> is shown never to reach them. Keccak-256 is the parameter \<open>keccak\<close>.
\<close>

datatype read_error = ShortReturn | OutOfRange

datatype Tok =
    Uint "256 word"
  | Address bytes
  | FixedBytes32 bytes
  | Bytes bytes
  | BytesArray "bytes list"
  | FixedBytes32Array "bytes list"
  | Tuple "Tok list"
  | UintArray "256 word list"
  | TupleArray "Tok list list"
  | StaticWords "bytes list"

definition word_u64 :: "nat \<Rightarrow> bytes" where
  "word_u64 n = replicate 24 0 @ be_octets 8 n"

definition address_word :: "bytes \<Rightarrow> bytes" where
  "address_word a = replicate 12 0 @ a"

definition selector4 :: "(bytes \<Rightarrow> bytes) \<Rightarrow> bytes \<Rightarrow> bytes" where
  "selector4 keccak sig = take 4 (keccak sig)"

definition word_to_lpaddr :: "bytes \<Rightarrow> read_error + bytes" where
  "word_to_lpaddr w = (case subrange w 0 32 of None \<Rightarrow> Inl ShortReturn
     | Some word \<Rightarrow> Inr (take 20 (drop 12 word)))"

text \<open>\<open>word_to_uint::<T>\<close>, with the largest value of \<open>T\<close> as an argument.\<close>

definition word_to_uint :: "nat \<Rightarrow> bytes \<Rightarrow> read_error + nat" where
  "word_to_uint t_max bs = (case subrange bs 0 32 of None \<Rightarrow> Inl ShortReturn
     | Some word \<Rightarrow> if be_nat word \<le> t_max then Inr (be_nat word) else Inl OutOfRange)"

definition u256_word :: "256 word \<Rightarrow> bytes" where
  "u256_word v = be_octets 32 (unat v)"

fun is_dynamic :: "Tok \<Rightarrow> bool" where
  "is_dynamic (Bytes b) = True"
| "is_dynamic (BytesArray items) = True"
| "is_dynamic (FixedBytes32Array items) = True"
| "is_dynamic (UintArray items) = True"
| "is_dynamic (TupleArray items) = True"
| "is_dynamic (Tuple fields) = True"
| "is_dynamic _ = False"

fun head_static :: "Tok \<Rightarrow> bytes option" where
  "head_static (Uint v) = Some (u256_word v)"
| "head_static (Address a) = Some (address_word a)"
| "head_static (FixedBytes32 b) = Some b"
| "head_static (StaticWords words) = Some (concat words)"
| "head_static _ = None"

fun head_len :: "Tok \<Rightarrow> nat" where
  "head_len (StaticWords words) = length words * 32"
| "head_len _ = 32"

definition encode_bytes :: "bytes \<Rightarrow> bytes" where
  "encode_bytes b = word_u64 (length b) @ b @ replicate ((32 - length b mod 32) mod 32) 0"

text \<open>
  The loop over the elements of a dynamic array: the offset table is written to \<open>out\<close> while
  the encoded elements collect in \<open>tails\<close>.
\<close>

fun offset_table :: "nat \<Rightarrow> bytes list \<Rightarrow> bytes \<Rightarrow> bytes \<Rightarrow> bytes" where
  "offset_table off [] out tails = out @ tails"
| "offset_table off (enc # encs) out tails =
    offset_table (off + length enc) encs (out @ word_u64 off) (tails @ enc)"

text \<open>The loop of \<open>encode_tuple\<close> over the encoded tokens, dynamic ones marked.\<close>

fun lay_out :: "nat \<Rightarrow> (bool \<times> bytes) list \<Rightarrow> bytes \<Rightarrow> bytes \<Rightarrow> bytes" where
  "lay_out hl [] head tail = head @ tail"
| "lay_out hl ((dyn, enc) # parts) head tail =
    (if dyn then lay_out hl parts (head @ word_u64 (hl + length tail)) (tail @ enc)
     else lay_out hl parts (head @ enc) tail)"

fun tok_tail :: "Tok \<Rightarrow> bytes option"
  and encode_tuple :: "Tok list \<Rightarrow> bytes option" where
  "tok_tail (Bytes b) = Some (encode_bytes b)"
| "tok_tail (BytesArray items) =
    Some (offset_table (length items * 32) (map encode_bytes items) (word_u64 (length items)) [])"
| "tok_tail (FixedBytes32Array items) = Some (word_u64 (length items) @ concat items)"
| "tok_tail (Tuple fields) = encode_tuple fields"
| "tok_tail (UintArray items) = Some (word_u64 (length items) @ concat (map u256_word items))"
| "tok_tail (TupleArray items) = do {
     encs \<leftarrow> those (map encode_tuple items);
     Some (offset_table (length items * 32) encs (word_u64 (length items)) [])
   }"
| "tok_tail _ = None"
| "encode_tuple toks = do {
     parts \<leftarrow> those (map (\<lambda>t. if is_dynamic t then map_option (Pair True) (tok_tail t)
                               else map_option (Pair False) (head_static t)) toks);
     Some (lay_out (sum_list (map head_len toks)) parts [] [])
   }"

definition encode_struct :: "Tok list \<Rightarrow> bytes option" where
  "encode_struct toks = map_option (\<lambda>b. word_u64 0x20 @ b) (encode_tuple toks)"

definition encode_call :: "(bytes \<Rightarrow> bytes) \<Rightarrow> bytes \<Rightarrow> Tok list \<Rightarrow> bytes option" where
  "encode_call keccak signature args = map_option (\<lambda>b. take 4 (keccak signature) @ b) (encode_tuple args)"

definition keys_hash :: "(bytes \<Rightarrow> bytes) \<Rightarrow> bytes \<Rightarrow> bytes \<Rightarrow> bytes option" where
  "keys_hash keccak lp_pubkey hop_pubkey =
    map_option keccak (encode_tuple [Bytes lp_pubkey, Bytes hop_pubkey])"

text \<open>Byte-wise lexicographic comparison of two keys of the same length.\<close>

fun bytes_le :: "bytes \<Rightarrow> bytes \<Rightarrow> bool" where
  "bytes_le [] b = True"
| "bytes_le (x # a) [] = False"
| "bytes_le (x # a) (y # b) = (x < y \<or> x = y \<and> bytes_le a b)"

definition sort_funding_pubkeys :: "bytes \<Rightarrow> bytes \<Rightarrow> bytes \<times> bytes" where
  "sort_funding_pubkeys a b = (if bytes_le a b then (a, b) else (b, a))"

definition channel_id_preimage :: "bytes \<Rightarrow> bytes \<Rightarrow> bytes \<Rightarrow> nat \<Rightarrow> bytes option" where
  "channel_id_preimage lp_pubkey hop_pubkey funding_txid vout =
    encode_tuple [Bytes lp_pubkey, Bytes hop_pubkey, FixedBytes32 funding_txid, Uint (word_of_nat vout)]"

definition channel_id :: "(bytes \<Rightarrow> bytes) \<Rightarrow> bytes \<Rightarrow> bytes \<Rightarrow> bytes \<Rightarrow> nat \<Rightarrow> bytes option" where
  "channel_id keccak lp_pubkey hop_pubkey funding_txid vout =
    map_option keccak (channel_id_preimage lp_pubkey hop_pubkey funding_txid vout)"

subsection \<open>Words\<close>

lemma length_word_u64 [simp, byte_simps]: "length (word_u64 n) = 32"
  by (simp add: word_u64_def)

lemma be_value_word_u64 [byte_simps]: "n < 2 ^ 64 \<Longrightarrow> be_nat (word_u64 n) = n"
  by (simp add: word_u64_def be_value_append be_value_be_bytes)

lemma length_u256_word [simp, byte_simps]: "length (u256_word v) = 32"
  by (simp add: u256_word_def)

lemma be_value_u256_word [byte_simps]: "be_nat (u256_word v) = unat v"
  using unsigned_less[of v, where 'a = nat] by (simp add: u256_word_def be_value_be_bytes)

lemma word_to_uint_word_u64:
  "n < 2 ^ 64 \<Longrightarrow> word_to_uint (2 ^ 64 - 1) (word_u64 n) = Inr n"
  by (simp add: word_to_uint_def subrange_def be_value_word_u64)

lemma word_to_lpaddr_address_word:
  "length a = 20 \<Longrightarrow> word_to_lpaddr (address_word a @ rest) = Inr a"
  by (simp add: word_to_lpaddr_def subrange_def address_word_def)

subsection \<open>The encoder returns\<close>

lemma those_Some_iff: "those xs = Some ys \<longleftrightarrow> xs = map Some ys"
  by (induction xs arbitrary: ys) (auto split: option.splits simp: Cons_eq_map_conv)

lemma those_map_total: "(\<And>x. x \<in> set xs \<Longrightarrow> \<exists>y. f x = Some y) \<Longrightarrow> \<exists>ys. those (map f xs) = Some ys"
proof (induction xs)
  case (Cons x xs)
  then obtain y ys where "f x = Some y" "those (map f xs) = Some ys" by fastforce
  then show ?case by simp
qed simp

lemma static_has_head: "\<not> is_dynamic t \<Longrightarrow> \<exists>b. head_static t = Some b"
  by (cases t) auto

lemma encoders_total:
  "is_dynamic t \<Longrightarrow> \<exists>b. tok_tail t = Some b"
  "\<exists>bs. encode_tuple toks = Some bs"
proof (induction t and toks rule: tok_tail_encode_tuple.induct)
  case (6 items)
  from those_map_total[of items encode_tuple, OF 6(1)] obtain encs
    where "those (map encode_tuple items) = Some encs" ..
  then show ?case by simp
next
  case (8 toks)
  let ?f = "\<lambda>t. if is_dynamic t then map_option (Pair True) (tok_tail t) else map_option (Pair False) (head_static t)"
  have "\<exists>y. ?f t = Some y" if "t \<in> set toks" for t
    using 8[OF that] static_has_head[of t] by auto
  from those_map_total[of toks ?f, OF this] obtain parts where "those (map ?f toks) = Some parts" ..
  then show ?case by simp
qed auto

subsection \<open>Reference decoder\<close>

text \<open>
  The layout the contracts decode, written from the receiving end: a type for every token, and
  a decoder that reads a static value in place and follows the offset of a dynamic one. It shares
  no code with the encoder.
\<close>

datatype Ty =
    TUint | TAddress | TBytes32 | TBytes | TBytesArray | TBytes32Array
  | TTuple "Ty list" | TUintArray | TTupleArray "Ty list" | TStaticWords nat

fun ty_dynamic :: "Ty \<Rightarrow> bool" where
  "ty_dynamic TUint = False"
| "ty_dynamic TAddress = False"
| "ty_dynamic TBytes32 = False"
| "ty_dynamic (TStaticWords n) = False"
| "ty_dynamic (TTuple tys) = list_ex ty_dynamic tys"
| "ty_dynamic _ = True"

fun ty_head_len :: "Ty \<Rightarrow> nat" where
  "ty_head_len (TStaticWords n) = 32 * n"
| "ty_head_len (TTuple tys) = (if list_ex ty_dynamic tys then 32 else sum_list (map ty_head_len tys))"
| "ty_head_len _ = 32"

text \<open>
  A token carries a value of a type. A tuple has to have a dynamic field, as the encoder
  asserts in debug builds: it knows no inline layout.
\<close>

fun has_ty :: "Ty \<Rightarrow> Tok \<Rightarrow> bool" where
  "has_ty TUint t = (case t of Uint v \<Rightarrow> True | _ \<Rightarrow> False)"
| "has_ty TAddress t = (case t of Address a \<Rightarrow> length a = 20 | _ \<Rightarrow> False)"
| "has_ty TBytes32 t = (case t of FixedBytes32 b \<Rightarrow> length b = 32 | _ \<Rightarrow> False)"
| "has_ty TBytes t = (case t of Bytes b \<Rightarrow> True | _ \<Rightarrow> False)"
| "has_ty TBytesArray t = (case t of BytesArray bs \<Rightarrow> True | _ \<Rightarrow> False)"
| "has_ty TBytes32Array t = (case t of FixedBytes32Array ws \<Rightarrow> list_all (\<lambda>w. length w = 32) ws | _ \<Rightarrow> False)"
| "has_ty (TTuple tys) t = (list_ex ty_dynamic tys \<and> (case t of Tuple ts \<Rightarrow> list_all2 has_ty tys ts | _ \<Rightarrow> False))"
| "has_ty TUintArray t = (case t of UintArray vs \<Rightarrow> True | _ \<Rightarrow> False)"
| "has_ty (TTupleArray tys) t =
    (list_ex ty_dynamic tys \<and>
      (case t of TupleArray rows \<Rightarrow> list_all (\<lambda>ts. list_all2 has_ty tys ts) rows | _ \<Rightarrow> False))"
| "has_ty (TStaticWords n) t =
    (case t of StaticWords ws \<Rightarrow> length ws = n \<and> list_all (\<lambda>w. length w = 32) ws | _ \<Rightarrow> False)"

definition dec_word :: "bytes \<Rightarrow> nat option" where
  "dec_word r = map_option be_nat (subrange r 0 32)"

definition dec_words :: "nat \<Rightarrow> bytes \<Rightarrow> bytes list option" where
  "dec_words n r = those (map (\<lambda>i. subrange r (32 * i) (32 * i + 32)) [0..<n])"

definition dec_bytes :: "bytes \<Rightarrow> bytes option" where
  "dec_bytes r = do { n \<leftarrow> dec_word r; subrange r 32 (32 + n) }"

definition at_offset :: "bytes \<Rightarrow> bytes \<Rightarrow> bytes option" where
  "at_offset d h = map_option (\<lambda>off. drop off d) (dec_word h)"

definition elem_at :: "bytes \<Rightarrow> nat \<Rightarrow> bytes option" where
  "elem_at r i = at_offset r (drop (32 * i) r)"

fun dec_static :: "Ty \<Rightarrow> bytes \<Rightarrow> Tok option"
  and dec_statics :: "Ty list \<Rightarrow> bytes \<Rightarrow> Tok list option" where
  "dec_static TUint h = map_option (\<lambda>n. Uint (word_of_nat n)) (dec_word h)"
| "dec_static TAddress h = map_option Address (subrange h 12 32)"
| "dec_static TBytes32 h = map_option FixedBytes32 (subrange h 0 32)"
| "dec_static (TStaticWords n) h = map_option StaticWords (dec_words n h)"
| "dec_static (TTuple tys) h = map_option Tuple (dec_statics tys h)"
| "dec_static _ h = None"
| "dec_statics [] h = Some []"
| "dec_statics (ty # tys) h = do {
     t \<leftarrow> dec_static ty h;
     ts \<leftarrow> dec_statics tys (drop (ty_head_len ty) h);
     Some (t # ts)
   }"

fun dec_tail :: "Ty \<Rightarrow> bytes \<Rightarrow> Tok option"
  and dec_toks :: "Ty list \<Rightarrow> bytes \<Rightarrow> bytes \<Rightarrow> Tok list option" where
  "dec_tail TBytes r = map_option Bytes (dec_bytes r)"
| "dec_tail TBytesArray r = do {
     n \<leftarrow> dec_word r;
     map_option BytesArray (those (map (\<lambda>i. Option.bind (elem_at (drop 32 r) i) dec_bytes) [0..<n]))
   }"
| "dec_tail TBytes32Array r = do { n \<leftarrow> dec_word r; map_option FixedBytes32Array (dec_words n (drop 32 r)) }"
| "dec_tail TUintArray r = do {
     n \<leftarrow> dec_word r;
     map_option (\<lambda>ws. UintArray (map (\<lambda>w. word_of_nat (be_nat w)) ws)) (dec_words n (drop 32 r))
   }"
| "dec_tail (TTuple tys) r = map_option Tuple (dec_toks tys r r)"
| "dec_tail (TTupleArray tys) r = do {
     n \<leftarrow> dec_word r;
     map_option TupleArray
       (if list_ex ty_dynamic tys
        then those (map (\<lambda>i. Option.bind (elem_at (drop 32 r) i) (\<lambda>x. dec_toks tys x x)) [0..<n])
        else those (map (\<lambda>i. dec_statics tys (drop (32 + i * sum_list (map ty_head_len tys)) r)) [0..<n]))
   }"
| "dec_tail _ r = None"
| "dec_toks [] d h = Some []"
| "dec_toks (ty # tys) d h = do {
     t \<leftarrow> (if ty_dynamic ty then Option.bind (at_offset d h) (dec_tail ty) else dec_static ty h);
     ts \<leftarrow> dec_toks tys d (drop (ty_head_len ty) h);
     Some (t # ts)
   }"

subsection \<open>The reference decoder reads back what the encoder writes\<close>

lemma dec_word_u64: "n < 2 ^ 64 \<Longrightarrow> dec_word (word_u64 n @ r) = Some n"
  by (simp add: dec_word_def subrange_def be_value_word_u64)

lemma dec_bytes_encode: "length b < 2 ^ 64 \<Longrightarrow> dec_bytes (encode_bytes b @ r) = Some b"
  by (simp add: dec_bytes_def encode_bytes_def dec_word_u64 subrange_def)

lemma concat_slice:
  assumes "list_all (\<lambda>w. length w = 32) ws" "i < length ws"
  shows "subrange (concat ws @ r) (32 * i) (32 * i + 32) = Some (ws ! i)"
  using assms
proof (induction ws arbitrary: i)
  case (Cons w ws)
  show ?case
  proof (cases i)
    case (Suc j)
    with Cons have "subrange (concat ws @ r) (32 * j) (32 * j + 32) = Some (ws ! j)" by simp
    then have "32 * j + 32 \<le> length (concat ws @ r)" "take 32 (drop (32 * j) (concat ws @ r)) = ws ! j"
      by (auto simp del: append.simps)
    with Cons(2) Suc show ?thesis by (simp add: subrange_def add.commute[of 32])
  qed (use Cons in \<open>simp add: subrange_def\<close>)
qed simp

lemma dec_words_concat:
  assumes "list_all (\<lambda>w. length w = 32) ws"
  shows "dec_words (length ws) (concat ws @ r) = Some ws"
proof -
  have "map (\<lambda>i. subrange (concat ws @ r) (32 * i) (32 * i + 32)) [0..<length ws] = map Some ws"
    by (rule nth_equalityI) (auto simp: concat_slice[OF assms] simp del: slice_Some)
  then show ?thesis by (simp add: dec_words_def those_Some_iff)
qed

fun offsets :: "nat \<Rightarrow> bytes list \<Rightarrow> bytes" where
  "offsets off [] = []"
| "offsets off (e # es) = word_u64 off @ offsets (off + length e) es"

lemma offset_table_eq: "offset_table off encs out tails = out @ offsets off encs @ tails @ concat encs"
  by (induction off encs out tails rule: offset_table.induct) auto

lemma length_offsets [simp]: "length (offsets off encs) = 32 * length encs"
  by (induction off encs rule: offsets.induct) auto

lemma offsets_word:
  "i < length encs \<Longrightarrow> off + length (concat encs) < 2 ^ 64 \<Longrightarrow>
    dec_word (drop (32 * i) (offsets off encs @ r)) = Some (off + length (concat (take i encs)))"
proof (induction off encs arbitrary: i rule: offsets.induct)
  case (2 off e es)
  show ?case
  proof (cases i)
    case (Suc j)
    with 2 have "dec_word (drop (32 * j) (offsets (off + length e) es @ r))
        = Some (off + length e + length (concat (take j es)))" by simp
    with Suc show ?thesis by (simp add: drop_append)
  qed (use 2 in \<open>simp add: dec_word_u64\<close>)
qed simp

lemma concat_drop_take: "drop (length (concat (take i xs))) (concat xs) = concat (drop i xs)"
  by (metis append_eq_conv_conj append_take_drop_id concat_append)

lemma elem_at_table:
  assumes "i < length encs" "32 * length encs + length (concat encs) < 2 ^ 64"
  shows "\<exists>rest. elem_at (offsets (32 * length encs) encs @ concat encs @ r) i = Some (encs ! i @ rest)"
proof -
  let ?d = "offsets (32 * length encs) encs @ concat encs @ r"
  have "length (concat (take i encs)) \<le> length (concat encs)"
    by (metis append_take_drop_id concat_append le_add1 length_append)
  then have "drop (32 * length encs + length (concat (take i encs))) ?d = concat (drop i encs) @ r"
    by (simp add: concat_drop_take drop_append)
  moreover have "concat (drop i encs) = encs ! i @ concat (drop (Suc i) encs)"
    using assms(1) by (simp flip: Cons_nth_drop_Suc)
  ultimately show ?thesis
    using offsets_word[OF assms(1), of "32 * length encs" "concat encs @ r"] assms(2)
    by (auto simp: elem_at_def at_offset_def)
qed

text \<open>A dynamic array, for whatever its elements are.\<close>

lemma array_round_trip:
  assumes "length xs = length encs" "32 * length encs + length (concat encs) < 2 ^ 64"
    and "\<And>i rest. i < length encs \<Longrightarrow> f (encs ! i @ rest) = Some (xs ! i)"
  shows "those (map (\<lambda>i. Option.bind (elem_at (offsets (32 * length encs) encs @ concat encs @ r) i) f)
    [0..<length encs]) = Some xs"
proof -
  have "Option.bind (elem_at (offsets (32 * length encs) encs @ concat encs @ r) i) f = Some (xs ! i)"
    if "i < length encs" for i
    using elem_at_table[OF that assms(2), of r] assms(3)[OF that] by auto
  then show ?thesis
    unfolding those_Some_iff by (intro nth_equalityI) (simp_all add: assms(1))
qed

fun lay_heads :: "nat \<Rightarrow> nat \<Rightarrow> (bool \<times> bytes) list \<Rightarrow> bytes" where
  "lay_heads hl n [] = []"
| "lay_heads hl n ((dyn, enc) # parts) =
    (if dyn then word_u64 (hl + n) @ lay_heads hl (n + length enc) parts else enc @ lay_heads hl n parts)"

definition lay_tails :: "(bool \<times> bytes) list \<Rightarrow> bytes" where
  "lay_tails parts = concat (map snd (filter fst parts))"

lemma lay_out_eq: "lay_out hl parts head tail = head @ lay_heads hl (length tail) parts @ tail @ lay_tails parts"
  by (induction hl parts head tail rule: lay_out.induct) (auto simp: lay_tails_def)

lemma has_ty_dynamic: "has_ty ty t \<Longrightarrow> is_dynamic t = ty_dynamic ty"
  by (cases ty) (auto split: Tok.splits)

lemma has_ty_head_len: "has_ty ty t \<Longrightarrow> head_len t = ty_head_len ty"
  by (cases ty) (auto split: Tok.splits)

lemma length_concat_words: "list_all (\<lambda>w. length w = 32) ws \<Longrightarrow> length (concat ws) = 32 * length ws"
  by (induction ws) auto

lemma length_head_static:
  "has_ty ty t \<Longrightarrow> head_static t = Some b \<Longrightarrow> length b = head_len t"
  by (cases ty) (auto split: Tok.splits simp: address_word_def length_concat_words)

lemma dec_static_head:
  assumes "has_ty ty t" "head_static t = Some b"
  shows "dec_static ty (b @ r) = Some t"
proof (cases ty)
  case TUint
  with assms show ?thesis by (auto split: Tok.splits simp: dec_word_def subrange_def be_value_u256_word)
next
  case TAddress
  with assms show ?thesis by (auto split: Tok.splits simp: subrange_def address_word_def)
next
  case TBytes32
  with assms show ?thesis by (auto split: Tok.splits simp: subrange_def)
next
  case (TStaticWords n)
  with assms show ?thesis by (auto split: Tok.splits simp: dec_words_concat)
qed (use assms in \<open>auto split: Tok.splits\<close>)

text \<open>
  The encoded parts of a tuple: what \<open>encode_tuple\<close> lays out for the tokens, and what the
  decoder needs of them.
\<close>

inductive part_of :: "Ty \<Rightarrow> Tok \<Rightarrow> bool \<times> bytes \<Rightarrow> bool" where
  stat: "\<not> is_dynamic t \<Longrightarrow> has_ty ty t \<Longrightarrow> head_static t = Some b \<Longrightarrow> part_of ty t (False, b)"
| dyn: "is_dynamic t \<Longrightarrow> has_ty ty t \<Longrightarrow> (\<And>r. dec_tail ty (b @ r) = Some t) \<Longrightarrow> part_of ty t (True, b)"

inductive_cases part_ofE: "part_of ty t p"

inductive parts_of :: "Ty list \<Rightarrow> Tok list \<Rightarrow> (bool \<times> bytes) list \<Rightarrow> bool" where
  nil: "parts_of [] [] []"
| cons: "part_of ty t p \<Longrightarrow> parts_of tys toks ps \<Longrightarrow> parts_of (ty # tys) (t # toks) (p # ps)"

lemma parts_of_head: "parts_of tys toks ps \<Longrightarrow> length (lay_heads hl n ps) = sum_list (map head_len toks)"
proof (induction arbitrary: n rule: parts_of.induct)
  case (cons ty t p tys toks ps)
  from cons(1) show ?case
  proof (cases rule: part_of.cases)
    case (stat b)
    then show ?thesis using cons(3) length_head_static by simp
  next
    case (dyn b)
    then have "head_len t = 32" by (cases t) auto
    then show ?thesis using cons(3) dyn by simp
  qed
qed simp

lemma dec_toks_parts:
  assumes "parts_of tys toks ps" "drop (hl + n) d = lay_tails ps @ y" "hl + n + length (lay_tails ps) < 2 ^ 64"
  shows "dec_toks tys d (lay_heads hl n ps @ x) = Some toks"
  using assms
proof (induction arbitrary: n rule: parts_of.induct)
  case (cons ty t p tys toks ps)
  from cons(1) show ?case
  proof (cases rule: part_of.cases)
    case (stat b)
    then have "\<not> ty_dynamic ty" "length b = ty_head_len ty"
      using has_ty_dynamic has_ty_head_len length_head_static by auto
    with stat cons show ?thesis
      by (simp add: dec_static_head lay_tails_def)
  next
    case (dyn b)
    then have h: "ty_dynamic ty" "ty_head_len ty = 32"
      using has_ty_dynamic by (auto, cases ty) auto
    have tl: "lay_tails (p # ps) = b @ lay_tails ps" using dyn by (simp add: lay_tails_def)
    have "drop (hl + (n + length b)) d = drop (length b) (drop (hl + n) d)"
      by (simp add: add.commute add.left_commute)
    also have "\<dots> = lay_tails ps @ y" using cons(4) by (simp add: tl)
    finally have "dec_toks tys d (lay_heads hl (n + length b) ps @ x) = Some toks"
      using cons(3)[of "n + length b"] cons(5) by (simp add: tl add.assoc)
    moreover have "at_offset d (word_u64 (hl + n) @ w) = Some (b @ lay_tails ps @ y)" for w
      using cons(4,5) by (simp add: at_offset_def dec_word_u64 tl)
    ultimately show ?thesis using dyn h by simp
  qed
qed simp

lemma length_lay_out:
  assumes "parts_of tys toks ps" "lay_out (sum_list (map head_len toks)) ps [] [] = bs"
  shows "length bs = sum_list (map head_len toks) + length (lay_tails ps)"
  using assms by (auto simp: lay_out_eq parts_of_head)

lemma dec_toks_lay_out:
  assumes "parts_of tys toks ps" "lay_out (sum_list (map head_len toks)) ps [] [] = bs" "length bs < 2 ^ 64"
  shows "dec_toks tys (bs @ r) (bs @ r) = Some toks"
proof -
  let ?hl = "sum_list (map head_len toks)"
  have bs: "bs = lay_heads ?hl 0 ps @ lay_tails ps" using assms(2) by (simp add: lay_out_eq)
  have "dec_toks tys (bs @ r) (lay_heads ?hl 0 ps @ lay_tails ps @ r) = Some toks"
    by (rule dec_toks_parts[OF assms(1), where n = 0 and y = r])
       (use assms in \<open>simp_all add: bs parts_of_head[OF assms(1)]\<close>)
  then show ?thesis by (simp add: bs)
qed

abbreviation encode_part :: "Tok \<Rightarrow> (bool \<times> bytes) option" where
  "encode_part t \<equiv> (if is_dynamic t then map_option (Pair True) (tok_tail t) else map_option (Pair False) (head_static t))"

lemma tail_in_layout: "(True, b) \<in> set ps \<Longrightarrow> length b \<le> length (lay_out hl ps [] [])"
proof -
  assume "(True, b) \<in> set ps"
  then have "b \<in> set (map snd (filter fst ps))" by force
  then obtain xs ys where "map snd (filter fst ps) = xs @ b # ys" by (meson split_list)
  then have "length b \<le> length (lay_tails ps)" by (simp add: lay_tails_def)
  then show ?thesis by (simp add: lay_out_eq)
qed

lemma parts_of_encode:
  assumes "those (map encode_part toks) = Some ps" "list_all2 has_ty tys toks"
    and "\<And>t b ty r. t \<in> set toks \<Longrightarrow> is_dynamic t \<Longrightarrow> has_ty ty t \<Longrightarrow> tok_tail t = Some b \<Longrightarrow>
      (True, b) \<in> set ps \<Longrightarrow> dec_tail ty (b @ r) = Some t"
  shows "parts_of tys toks ps"
  using assms
proof (induction toks arbitrary: ps tys)
  case Nil
  then show ?case by (auto intro: parts_of.nil)
next
  case (Cons t toks)
  from Cons(3) obtain ty tys' where ty: "tys = ty # tys'" "has_ty ty t" "list_all2 has_ty tys' toks"
    by (auto simp: list_all2_Cons2)
  from Cons(2) obtain p ps' where p: "encode_part t = Some p" "those (map encode_part toks) = Some ps'" "ps = p # ps'"
    by (auto split: option.splits if_splits)
  have "parts_of tys' toks ps'"
    using Cons(1)[OF p(2) ty(3)] Cons(4) p(3) by simp
  moreover have "part_of ty t p"
  proof (cases "is_dynamic t")
    case True
    with p(1) obtain b where "p = (True, b)" "tok_tail t = Some b" by auto
    with Cons(4)[of t ty b] True ty(2) p(3) show ?thesis by (auto intro: part_of.dyn)
  next
    case False
    with p(1) ty(2) show ?thesis by (auto intro: part_of.stat)
  qed
  ultimately show ?case by (simp add: ty(1) p(3) parts_of.cons)
qed

lemma has_ty_inv:
  "has_ty ty (Bytes b) \<longleftrightarrow> ty = TBytes"
  "has_ty ty (BytesArray bs) \<longleftrightarrow> ty = TBytesArray"
  "has_ty ty (FixedBytes32Array ws) \<longleftrightarrow> ty = TBytes32Array \<and> list_all (\<lambda>w. length w = 32) ws"
  "has_ty ty (Tuple ts) \<longleftrightarrow> (\<exists>tys. ty = TTuple tys \<and> list_ex ty_dynamic tys \<and> list_all2 has_ty tys ts)"
  "has_ty ty (UintArray vs) \<longleftrightarrow> ty = TUintArray"
  "has_ty ty (TupleArray rows) \<longleftrightarrow> (\<exists>tys. ty = TTupleArray tys \<and> list_ex ty_dynamic tys \<and> list_all (\<lambda>ts. list_all2 has_ty tys ts) rows)"
  by (cases ty; simp; fail)+

lemma array_bounds:
  assumes "offset_table (32 * length encs) encs (word_u64 n) [] = b" "length b < 2 ^ 64"
  shows "32 * length encs + length (concat encs) < 2 ^ 64"
    and "e \<in> set encs \<Longrightarrow> length e < 2 ^ 64"
proof -
  show l: "32 * length encs + length (concat encs) < 2 ^ 64"
    using assms by (auto simp: offset_table_eq)
  assume "e \<in> set encs"
  then have "length e \<le> length (concat encs)" by (auto simp: in_set_conv_decomp)
  with l show "length e < 2 ^ 64" by simp
qed

text \<open>\<open>b\<close> is the tail of an array: its length word, then the offset table and the elements.\<close>

lemma array_tail:
  assumes "offset_table (32 * length encs) encs (word_u64 (length encs)) [] = b" "length b < 2 ^ 64"
  shows "dec_word (b @ r) = Some (length encs)"
    and "drop 32 (b @ r) = offsets (32 * length encs) encs @ concat encs @ r"
  using assms array_bounds(1)[OF assms] by (auto simp: offset_table_eq dec_word_u64)

lemma encoders_round_trip:
  "is_dynamic t \<Longrightarrow> has_ty ty t \<Longrightarrow> tok_tail t = Some b \<Longrightarrow> length b < 2 ^ 64 \<Longrightarrow> dec_tail ty (b @ r) = Some t"
  "list_all2 has_ty tys toks \<Longrightarrow> encode_tuple toks = Some bs \<Longrightarrow> length bs < 2 ^ 64 \<Longrightarrow>
    dec_toks tys (bs @ r) (bs @ r) = Some toks"
proof (induction t and toks arbitrary: ty b r and tys bs r rule: tok_tail_encode_tuple.induct)
  case (1 d)
  then have "length d < 2 ^ 64" by (auto simp: encode_bytes_def)
  with 1 show ?case by (auto simp: has_ty_inv dec_bytes_encode)
next
  case (2 items)
  let ?encs = "map encode_bytes items"
  have b: "offset_table (32 * length ?encs) ?encs (word_u64 (length ?encs)) [] = b"
    using 2 by (simp add: mult.commute)
  note bounds = array_bounds[OF b 2(4)] and tail = array_tail[OF b 2(4), of r]
  have "dec_bytes (?encs ! i @ rest) = Some (items ! i)" if "i < length ?encs" for i rest
  proof -
    have "length (items ! i) \<le> length (encode_bytes (items ! i))" by (simp add: encode_bytes_def)
    also have "\<dots> < 2 ^ 64" using that by (intro bounds(2)) simp
    finally show ?thesis using that by (simp add: dec_bytes_encode)
  qed
  then have "those (map (\<lambda>i. Option.bind (elem_at (drop 32 (b @ r)) i) dec_bytes) [0..<length ?encs]) = Some items"
    unfolding tail(2) by (intro array_round_trip bounds(1)) auto
  with 2 tail(1) show ?case by (auto simp: has_ty_inv)
next
  case (3 items)
  then have "length items < 2 ^ 64" "b = word_u64 (length items) @ concat items"
    by (auto simp: has_ty_inv length_concat_words)
  with 3 show ?case by (auto simp: has_ty_inv dec_word_u64 dec_words_concat)
next
  case (4 fields)
  then show ?case by (auto simp: has_ty_inv)
next
  case (5 items)
  let ?ws = "map u256_word items"
  have w: "list_all (\<lambda>w. length w = 32) ?ws" by (simp add: list_all_iff)
  have "length items < 2 ^ 64" "b = word_u64 (length ?ws) @ concat ?ws"
    using 5 length_concat_words[OF w] by auto
  with 5 dec_words_concat[OF w, of r] show ?case
    by (auto simp: has_ty_inv dec_word_u64 comp_def be_value_u256_word)
next
  case (6 items)
  from 6(3) obtain tys where ty: "ty = TTupleArray tys" "list_all (\<lambda>ts. list_all2 has_ty tys ts) items"
    "list_ex ty_dynamic tys"
    by (auto simp: has_ty_inv)
  from 6(4) obtain encs where e: "those (map encode_tuple items) = Some encs"
    "offset_table (length items * 32) encs (word_u64 (length items)) [] = b"
    by (auto simp: bind_eq_Some_conv)
  from e(1) have m: "map encode_tuple items = map Some encs" by (simp add: those_Some_iff)
  then have n: "length encs = length items" by (metis length_map)
  have i: "encode_tuple (items ! i) = Some (encs ! i)" if "i < length items" for i
    using arg_cong[OF m, of "\<lambda>l. l ! i"] that n by simp
  have b: "offset_table (32 * length encs) encs (word_u64 (length encs)) [] = b"
    using e(2) n by (simp add: mult.commute)
  note bounds = array_bounds[OF b 6(5)] and tail = array_tail[OF b 6(5), of r]
  have "dec_toks tys (encs ! i @ rest) (encs ! i @ rest) = Some (items ! i)" if "i < length encs" for i rest
    using that n i[of i] ty(2) bounds(2)[of "encs ! i"] by (intro 6(1)) (auto simp: list_all_iff)
  then have "those (map (\<lambda>i. Option.bind (elem_at (drop 32 (b @ r)) i) (\<lambda>x. dec_toks tys x x)) [0..<length encs])
      = Some items"
    unfolding tail(2) by (intro array_round_trip bounds(1)) (auto simp: n)
  with tail(1) ty show ?case by simp
next
  case (8 toks)
  from 8(3) obtain ps where ps: "those (map encode_part toks) = Some ps"
    "lay_out (sum_list (map head_len toks)) ps [] [] = bs"
    by (auto simp: bind_eq_Some_conv)
  have "length b < 2 ^ 64" if "(True, b) \<in> set ps" for b
    using tail_in_layout[OF that, of "sum_list (map head_len toks)"] ps(2) 8(4) by simp
  then have "parts_of tys toks ps"
    using 8(1) by (intro parts_of_encode[OF ps(1) 8(2)]) auto
  then show ?case by (rule dec_toks_lay_out[OF _ ps(2) 8(4)])
qed auto

text \<open>Hence an encoding stands for one list of tokens of its types only.\<close>

lemma encode_tuple_inj:
  assumes "list_all2 has_ty tys xs" "list_all2 has_ty tys ys"
    and "encode_tuple xs = Some bs" "encode_tuple ys = Some bs" "length bs < 2 ^ 64"
  shows "xs = ys"
  using encoders_round_trip(2)[OF assms(1,3,5), of "[]"] encoders_round_trip(2)[OF assms(2,4,5), of "[]"] by simp

lemma encode_bytes_length: "length (encode_bytes b) \<le> length b + 64"
proof -
  have "(32 - length b mod 32) mod 32 \<le> 32" by simp
  then show ?thesis by (simp add: encode_bytes_def)
qed

lemma preimage_eq:
  "channel_id_preimage lp hop txid vout = Some
    (word_u64 128 @ word_u64 (128 + length (encode_bytes lp)) @ txid @ u256_word (word_of_nat vout)
      @ encode_bytes lp @ encode_bytes hop)"
  by (simp add: channel_id_preimage_def)

text \<open>The on-chain channel id is a function of the four values it names, up to Keccak.\<close>

lemma channel_id_preimage_inj:
  assumes "channel_id_preimage lp hop txid vout = channel_id_preimage lp' hop' txid' vout'"
    and "length lp = 33" "length hop = 33" "length txid = 32" "vout < 2 ^ 32"
    and "length lp' = 33" "length hop' = 33" "length txid' = 32" "vout' < 2 ^ 32"
  shows "lp = lp' \<and> hop = hop' \<and> txid = txid' \<and> vout = vout'"
proof -
  let ?t = "[TBytes, TBytes, TBytes32, TUint]"
  obtain bs where bs: "channel_id_preimage lp hop txid vout = Some bs" "length bs < 2 ^ 64"
    using encode_bytes_length[of lp] encode_bytes_length[of hop] assms(2-4) by (simp add: preimage_eq)
  have "[Bytes lp, Bytes hop, FixedBytes32 txid, Uint (word_of_nat vout)]
      = [Bytes lp', Bytes hop', FixedBytes32 txid', Uint (word_of_nat vout')]"
    by (rule encode_tuple_inj[where tys = ?t and bs = bs])
       (use assms bs in \<open>simp_all add: channel_id_preimage_def del: encode_tuple.simps\<close>)
  moreover have "unat (word_of_nat v :: 256 word) = v" if "v < 2 ^ 32" for v :: nat
    using that by (simp add: unat_of_nat take_bit_nat_eq_self)
  ultimately show ?thesis using assms(5,9) by simp metis
qed

lemma bytes_le_total: "bytes_le a b \<or> bytes_le b a"
  by (induction a b rule: bytes_le.induct) auto

lemma bytes_le_antisym: "length a = length b \<Longrightarrow> bytes_le a b \<Longrightarrow> bytes_le b a \<Longrightarrow> a = b"
  by (induction a b rule: bytes_le.induct) auto

text \<open>The sorted pair does not depend on which side names its key first.\<close>

lemma sort_funding_commutes:
  "length a = length b \<Longrightarrow> sort_funding_pubkeys a b = sort_funding_pubkeys b a"
  using bytes_le_total[of a b] bytes_le_antisym[of a b] by (auto simp: sort_funding_pubkeys_def)

end
