(* ===== verification/Spv.thy ===== *)
theory Spv
  imports Bytes
begin

section \<open>Inclusion proofs of Bitcoin transactions (quid-hop/src/spv.rs)\<close>

text \<open>
  The hop proves to the EVM contracts that a transaction is in a Bitcoin block: \<open>merkle_branch\<close>
  folds the transaction ids of the block and collects the sibling at every layer,
  \<open>verify_branch\<close> mirrors the contract's check. The double SHA-256 of the bitcoin crate is the
  parameter \<open>sha256d\<close>. A failed assertion or an index out of range is \<^const>\<open>None\<close>.
\<close>

unbundle bit_operations_syntax

type_synonym hash_fn = "bytes \<Rightarrow> bytes"

definition block_hash_be :: "bytes \<Rightarrow> bytes" where
  "block_hash_be h = rev h"

definition hash_pair :: "hash_fn \<Rightarrow> bytes \<Rightarrow> bytes \<Rightarrow> bytes" where
  "hash_pair sha256d a b = sha256d (a @ b)"

text \<open>The last node of an odd layer is duplicated; the next layer hashes the nodes in pairs.\<close>

definition even_layer :: "bytes list \<Rightarrow> bytes list" where
  "even_layer layer = (if length layer mod 2 = 1 then layer @ [last layer] else layer)"

fun next_layer :: "hash_fn \<Rightarrow> bytes list \<Rightarrow> bytes list" where
  "next_layer sha256d (a # b # layer) = hash_pair sha256d a b # next_layer sha256d layer"
| "next_layer sha256d _ = []"

lemma length_next_layer [simp]: "length (next_layer sha layer) = length layer div 2"
  by (induction sha layer rule: next_layer.induct) auto

lemma length_even_layer: "length (even_layer layer) = 2 * ((length layer + 1) div 2)"
  by (auto simp: even_layer_def) presburger+

function merkle_loop :: "hash_fn \<Rightarrow> bytes list \<Rightarrow> nat \<Rightarrow> bytes list \<Rightarrow> (bytes list \<times> bytes) option" where
  "merkle_loop sha256d layer idx branch =
    (if length layer > 1 then
       let layer = even_layer layer
       in if idx XOR 1 < length layer then
            merkle_loop sha256d (next_layer sha256d layer) (idx div 2) (branch @ [layer ! (idx XOR 1)])
          else None
     else if layer = [] then None else Some (branch, layer ! 0))"
  by auto
termination
  by (relation "measure (\<lambda>(sha, layer, idx, branch). length layer)") (auto simp: length_even_layer)

definition merkle_branch :: "hash_fn \<Rightarrow> bytes list \<Rightarrow> nat \<Rightarrow> (bytes list \<times> bytes) option" where
  "merkle_branch sha256d txids index =
    (if txids \<noteq> [] \<and> index < length txids then merkle_loop sha256d txids index [] else None)"

fun fold_branch :: "hash_fn \<Rightarrow> bytes \<Rightarrow> bytes list \<Rightarrow> nat \<Rightarrow> bytes" where
  "fold_branch sha256d h [] idx = h"
| "fold_branch sha256d h (sib # branch) idx =
    fold_branch sha256d
      (if idx AND 1 = 0 then hash_pair sha256d h sib else hash_pair sha256d sib h)
      branch (drop_bit 1 idx)"

definition verify_branch :: "hash_fn \<Rightarrow> bytes \<Rightarrow> bytes list \<Rightarrow> nat \<Rightarrow> bytes \<Rightarrow> bool" where
  "verify_branch sha256d txid branch index root \<longleftrightarrow> fold_branch sha256d txid branch index = root"

subsection \<open>Reference: the Merkle root of a block\<close>

text \<open>The root as Bitcoin defines it, with no index and no branch.\<close>

function merkle_root :: "hash_fn \<Rightarrow> bytes list \<Rightarrow> bytes" where
  "merkle_root sha layer =
    (if length layer > 1 then merkle_root sha (next_layer sha (even_layer layer)) else hd layer)"
  by auto
termination by (relation "measure (\<lambda>(sha, layer). length layer)") (auto simp: length_even_layer)

declare merkle_loop.simps [simp del] merkle_root.simps [simp del]

lemma xor_one_nat: "(idx :: nat) XOR 1 = (if even idx then Suc idx else idx - 1)"
  by (simp add: xor_Suc_0_eq)

lemma next_layer_nth:
  "2 * i + 1 < length layer \<Longrightarrow> next_layer sha layer ! i = hash_pair sha (layer ! (2 * i)) (layer ! (2 * i + 1))"
proof (induction sha layer arbitrary: i rule: next_layer.induct)
  case (1 sha a b layer)
  then show ?case by (cases i) auto
qed auto

lemma even_layer_nth: "i < length layer \<Longrightarrow> even_layer layer ! i = layer ! i"
  by (simp add: even_layer_def nth_append)

text \<open>One step up: the parent of a node is the hash of the node and its sibling, in index order.\<close>

lemma sibling_hash:
  assumes "idx < length layer" "1 < length layer"
  shows "next_layer sha (even_layer layer) ! (idx div 2) =
    (if even idx then hash_pair sha (layer ! idx) (even_layer layer ! (idx XOR 1))
     else hash_pair sha (even_layer layer ! (idx XOR 1)) (layer ! idx))"
proof -
  have "2 * (idx div 2) + 1 < length (even_layer layer)"
    using assms by (simp add: length_even_layer)  presburger
  from next_layer_nth[OF this, of sha] show ?thesis
    using assms by (auto simp: xor_one_nat[simplified] even_layer_nth elim!: evenE oddE)
qed

lemma sibling_in_range: "idx < length layer \<Longrightarrow> idx XOR 1 < length (even_layer layer)"
  unfolding xor_one_nat length_even_layer by presburger

lemma parent_in_range: "idx < length layer \<Longrightarrow> idx div 2 < length (next_layer sha (even_layer layer))"
  by (simp add: length_even_layer)

lemma merkle_loop_correct:
  assumes "idx < length layer"
  shows "\<exists>sibs. merkle_loop sha layer idx branch = Some (branch @ sibs, merkle_root sha layer)
    \<and> fold_branch sha (layer ! idx) sibs idx = merkle_root sha layer
    \<and> length layer \<le> 2 ^ length sibs \<and> (sibs \<noteq> [] \<longrightarrow> 2 ^ (length sibs - 1) < length layer)"
  using assms
proof (induction sha layer idx branch rule: merkle_loop.induct)
  case (1 sha layer idx branch)
  show ?case
  proof (cases "length layer > 1")
    case True
    let ?up = "next_layer sha (even_layer layer)" and ?sib = "even_layer layer ! (idx XOR 1)"
    have r: "idx XOR 1 < length (even_layer layer)" "idx div 2 < length ?up"
      using 1(2) by (rule sibling_in_range, rule parent_in_range)
    from 1(1)[OF True refl r(1) r(2)] obtain sibs where
      l: "merkle_loop sha ?up (idx div 2) (branch @ [?sib]) = Some ((branch @ [?sib]) @ sibs, merkle_root sha ?up)"
      and f: "fold_branch sha (?up ! (idx div 2)) sibs (idx div 2) = merkle_root sha ?up"
      and n: "length ?up \<le> 2 ^ length sibs" "sibs \<noteq> [] \<longrightarrow> 2 ^ (length sibs - 1) < length ?up"
      by blast
    have m: "merkle_root sha layer = merkle_root sha ?up" using True by (subst merkle_root.simps) simp
    have "merkle_loop sha layer idx branch = Some (branch @ ?sib # sibs, merkle_root sha layer)"
      using True r l by (subst merkle_loop.simps) (simp add: Let_def m)
    moreover have "fold_branch sha (layer ! idx) (?sib # sibs) idx = merkle_root sha layer"
      using f sibling_hash[OF 1(2) True, of sha]
      by (simp add: m and_one_eq drop_bit_Suc even_iff_mod_2_eq_zero split: if_splits)
    moreover have "length layer \<le> 2 ^ length (?sib # sibs)"
      using n(1) by (simp add: length_even_layer)
    moreover have "2 ^ length sibs < length layer"
      using n(2) True by (cases "sibs = []") (auto simp: length_even_layer power_eq_if split: if_splits)
    ultimately show ?thesis by (intro exI[of _ "?sib # sibs"]) simp
  next
    case False
    with 1(2) have "length layer = 1" "idx = 0" by auto
    then show ?thesis
      by (intro exI[of _ "[]"]) (auto simp: merkle_loop.simps merkle_root.simps hd_conv_nth)
  qed
qed

lemma merkle_branch_correct:
  assumes "index < length txids"
  shows "\<exists>branch. merkle_branch sha txids index = Some (branch, merkle_root sha txids)
    \<and> verify_branch sha (txids ! index) branch index (merkle_root sha txids)
    \<and> length txids \<le> 2 ^ length branch \<and> (branch \<noteq> [] \<longrightarrow> 2 ^ (length branch - 1) < length txids)"
proof -
  have "txids \<noteq> []" using assms by auto
  with merkle_loop_correct[OF assms, of sha "[]"] assms show ?thesis
    by (auto simp: merkle_branch_def verify_branch_def)
qed

lemma next_layer_width: "(\<And>m. length (sha m) = n) \<Longrightarrow> list_all (\<lambda>w. length w = n) (next_layer sha layer)"
  by (induction sha layer rule: next_layer.induct) (auto simp: hash_pair_def)

lemma merkle_loop_width:
  assumes "merkle_loop sha layer idx branch = Some (proof, root)" "list_all (\<lambda>w. length w = n) layer"
    and "list_all (\<lambda>w. length w = n) branch" "\<And>m. length (sha m) = n"
  shows "list_all (\<lambda>w. length w = n) proof"
  using assms
proof (induction sha layer idx branch rule: merkle_loop.induct)
  case (1 sha layer idx branch)
  show ?case
  proof (cases "length layer > 1")
    case True
    let ?l = "even_layer layer"
    have l: "list_all (\<lambda>w. length w = n) ?l" using 1(3) True by (cases layer rule: rev_cases) (auto simp: even_layer_def)
    have r: "idx XOR 1 < length ?l" using 1(2) True by (subst (asm) merkle_loop.simps) (auto simp: Let_def split: if_splits)
    have m: "merkle_loop sha (next_layer sha ?l) (idx div 2) (branch @ [?l ! (idx XOR 1)]) = Some (proof, root)"
      using 1(2) True r by (subst (asm) merkle_loop.simps) (simp add: Let_def)
    show ?thesis
      by (rule 1(1)[OF True refl r m next_layer_width[OF 1(5)] _ 1(5)])
         (use 1(4) l r nth_mem[OF r] in \<open>auto simp: list_all_iff\<close>)
  next
    case False
    with 1(2,4) show ?thesis by (subst (asm) merkle_loop.simps) (auto split: if_splits)
  qed
qed

lemma merkle_branch_width:
  assumes "merkle_branch sha txids i = Some (branch, root)" "list_all (\<lambda>w. length w = n) txids"
    and "\<And>m. length (sha m) = n"
  shows "list_all (\<lambda>w. length w = n) branch"
  using merkle_loop_width[OF _ assms(2) _ assms(3)] assms(1) by (auto simp: merkle_branch_def split: if_splits)

lemma merkle_branch_panics: "length txids \<le> index \<Longrightarrow> merkle_branch sha txids index = None"
  by (simp add: merkle_branch_def)

subsection \<open>What a proof is worth\<close>

text \<open>
  Where two different leaves are accepted at the same index with branches of the same length, the
  two folds meet, and the first place where they meet is a collision of the hash function.
  \<open>collision\<close> computes it. The branches may differ: a forger chooses the siblings too.
\<close>

fun collision :: "hash_fn \<Rightarrow> bytes \<Rightarrow> bytes list \<Rightarrow> bytes \<Rightarrow> bytes list \<Rightarrow> nat \<Rightarrow> (bytes \<times> bytes) option" where
  "collision sha x (s # xs) y (t # ys) idx =
    (let px = (if even idx then x @ s else s @ x);
         py = (if even idx then y @ t else t @ y)
     in if sha px = sha py then Some (px, py) else collision sha (sha px) xs (sha py) ys (idx div 2))"
| "collision sha x _ y _ idx = None"

lemma fold_branch_Cons:
  "fold_branch sha h (sib # branch) idx =
    fold_branch sha (sha (if even idx then h @ sib else sib @ h)) branch (idx div 2)"
  by (simp add: hash_pair_def and_one_eq drop_bit_Suc even_iff_mod_2_eq_zero)

lemma collision_found:
  assumes "x \<noteq> y" "length x = length y" "length xs = length ys" "\<And>m. length (sha m) = 32"
    and "fold_branch sha x xs idx = fold_branch sha y ys idx"
  shows "\<exists>a b. collision sha x xs y ys idx = Some (a, b) \<and> a \<noteq> b \<and> sha a = sha b"
  using assms
proof (induction sha x xs y ys idx rule: collision.induct)
  case (1 sha x s xs y t ys idx)
  let ?px = "if even idx then x @ s else s @ x" and ?py = "if even idx then y @ t else t @ y"
  have "?px \<noteq> ?py" using 1(2,3) by auto
  moreover have "\<exists>a b. collision sha (sha ?px) xs (sha ?py) ys (idx div 2) = Some (a, b) \<and> a \<noteq> b \<and> sha a = sha b"
    if "sha ?px \<noteq> sha ?py"
    by (rule 1(1)[OF refl refl that]) (use 1(4,5,6) that in \<open>auto simp: fold_branch_Cons simp del: fold_branch.simps(2)\<close>)
  ultimately show ?case by (auto simp: Let_def)
qed auto

lemma verify_branch_fold: "verify_branch sha x branch i root \<longleftrightarrow> fold_branch sha x branch i = root"
  by (simp add: verify_branch_def)

text \<open>Only the low bits of the index, one per layer, take part in the check.\<close>

lemma fold_branch_mod: "fold_branch sha h branch (idx mod 2 ^ length branch) = fold_branch sha h branch idx"
proof (induction branch arbitrary: h idx)
  case (Cons sib branch)
  have "even (idx mod (2 * 2 ^ length branch)) \<longleftrightarrow> even idx"
    by (metis dvd_mod_iff dvd_triv_left)
  moreover have "idx mod (2 * 2 ^ length branch) div 2 = idx div 2 mod 2 ^ length branch"
    by (simp add: mod_mult2_eq)
  ultimately show ?case using Cons by (simp add: fold_branch_Cons del: fold_branch.simps(2))
qed simp

text \<open>
  In a block with an odd number of transactions the proof of the last one is also accepted at
  the position after it, which holds no transaction.
\<close>

lemma phantom_index:
  assumes "odd (length txids)" "1 < length txids"
    and "merkle_branch sha txids (length txids - 1) = Some (branch, root)"
  shows "verify_branch sha (last txids) branch (length txids) root"
proof -
  let ?n = "length txids - 1"
  have n: "?n < length txids" "even ?n" "txids \<noteq> []" "length txids div 2 = ?n div 2"
    using assms by (auto elim!: oddE)
  from merkle_loop_correct[OF n(1), of sha "[]"] assms n obtain sibs where
    s: "branch = sibs" "fold_branch sha (txids ! ?n) sibs ?n = root"
    by (auto simp: merkle_branch_def)
  have "even_layer txids ! (?n XOR 1) = last txids"
    using n assms by (simp add: xor_one_nat[simplified] even_layer_def nth_append odd_iff_mod_2_eq_one)
  moreover have "\<exists>ss. sibs = even_layer txids ! (?n XOR 1) # ss"
  proof -
    have "merkle_loop sha txids ?n [] = Some (sibs, root)" using assms n s by (simp add: merkle_branch_def)
    then have "merkle_loop sha (next_layer sha (even_layer txids)) (?n div 2) [even_layer txids ! (?n XOR 1)]
        = Some (sibs, root)"
      using assms(2) sibling_in_range[OF n(1)] by (subst (asm) merkle_loop.simps) (simp add: Let_def)
    with merkle_loop_correct[OF parent_in_range[OF n(1), of sha], of sha "[even_layer txids ! (?n XOR 1)]"]
    show ?thesis by auto
  qed
  ultimately obtain ss where ss: "sibs = last txids # ss" by auto
  have "txids ! ?n = last txids" using n by (simp add: last_conv_nth)
  with s(2) n(2,4) assms(1) show ?thesis
    by (simp add: verify_branch_def s(1) ss fold_branch_Cons del: fold_branch.simps(2))
qed

end
