(* ===== verification/Evm_Calls.thy ===== *)
theory Evm_Calls
  imports Abi Spv
begin

section \<open>The calls of the hop (quid-hop/src/evm_codec.rs)\<close>

text \<open>
  The calldata of every entrypoint of \<open>BTCChannels\<close> the hop calls, and the inclusion proof that
  goes into it. A selector is computed from the signature string (\<open>SIG_*\<close>) and the arguments
  are encoded from a token list written next to it: the two are kept together by hand.
  \<open>sig_types\<close> reads the argument types off the signature string, so that a theorem can compare
  what the selector promises with what the tokens lay out.

  The Esplora client is the parameter record \<open>esplora\<close>: what each request returned, an
  error being \<^const>\<open>None\<close>, and a transaction standing for its legacy serialization.
\<close>

definition ascii :: "string \<Rightarrow> bytes" where
  "ascii s = map of_char s"

record OpenParams =
  funding_block_hash_be :: bytes
  funding_block_height :: nat
  funding_tx_index :: nat
  lp_pubkey :: bytes
  hop_pubkey :: bytes
  lp_identity_pubkey :: bytes
  amount_sats :: nat
  funding_taproot :: bytes

record OpenAuth =
  btc_recipient :: bytes
  btc_recipient_pop :: bytes
  lp_payment_point :: bytes

record ExitArming =
  prev_values :: "nat list"
  prev_scripts :: "bytes list"
  cltv_deadline :: nat
  checkpoint_sats :: nat
  signed_exit_tx :: bytes

record TxInclusion =
  raw :: bytes
  inc_block_hash_be :: bytes
  height :: nat
  tx_index :: nat
  merkle_proof :: "bytes list"

definition open_params_tokens :: "OpenParams \<Rightarrow> Tok list" where
  "open_params_tokens p =
    [FixedBytes32 (funding_block_hash_be p), Uint (of_nat (funding_block_height p)),
     Uint (of_nat (funding_tx_index p)), Bytes (lp_pubkey p), Bytes (hop_pubkey p),
     Bytes (lp_identity_pubkey p), Uint (of_nat (amount_sats p)), FixedBytes32 (funding_taproot p)]"

definition open_auth_tokens :: "OpenAuth \<Rightarrow> Tok list" where
  "open_auth_tokens a =
    [FixedBytes32 (btc_recipient a), Bytes (btc_recipient_pop a), Bytes (lp_payment_point a)]"

definition exit_arming_tokens :: "ExitArming \<Rightarrow> Tok list" where
  "exit_arming_tokens e =
    [UintArray (map of_nat (prev_values e)), BytesArray (prev_scripts e), Uint (of_nat (cltv_deadline e)),
     Uint (of_nat (checkpoint_sats e)), Bytes (signed_exit_tx e)]"

definition SIG_OPEN_CHANNEL :: string where
  "SIG_OPEN_CHANNEL =
    ''openChannel((bytes32,uint64,uint256,bytes,bytes,bytes,uint256,bytes32),bytes,bytes32[],'' @
    ''(bytes32,bytes,bytes),(uint64[],bytes[],uint64,uint256,bytes)[])''"

definition SIG_SPLICE :: string where
  "SIG_SPLICE =
    ''splice(bytes32,(bytes32,uint64,uint256,bytes,bytes,bytes,uint256,bytes32),bytes,bytes32[],'' @
    ''(uint64[],bytes[],uint64,uint256,bytes)[])''"

definition SIG_RECORD_CLOSE :: string where
  "SIG_RECORD_CLOSE =
    ''recordClose(bytes32,(bytes32,uint64,uint256,bytes,bytes,bytes,uint256,bytes32),'' @
    ''(bytes,bytes32,bytes32[],uint256))''"

definition SIG_RECORD_FORCE_CLOSE_PERMISSIONLESS :: string where
  "SIG_RECORD_FORCE_CLOSE_PERMISSIONLESS =
    ''recordForceClosePermissionless(bytes32,(bytes,bytes32,bytes32[],uint256))''"

definition SIG_DELIVER_SWAP_OUT_ONCHAIN :: string where
  "SIG_DELIVER_SWAP_OUT_ONCHAIN =
    ''deliverSwapOutOnchain(bytes32,bytes32,(bytes32,uint64,uint256,bytes,bytes,bytes,uint256,bytes32),'' @
    ''bytes,bytes32[],bytes,(uint64[],bytes[],uint64,uint256,bytes)[])''"

definition SIG_EMIT_DEAD_MAN_EXIT :: string where
  "SIG_EMIT_DEAD_MAN_EXIT =
    ''emitDeadManExit(bytes32,(bytes32,uint64,uint256,bytes,bytes,bytes,uint256,bytes32),'' @
    ''(uint64[],bytes[],uint64,uint256,bytes))''"

definition SIG_REQUEST_SWAP_OUT_ONCHAIN :: string where
  "SIG_REQUEST_SWAP_OUT_ONCHAIN = ''requestSwapOutOnchain(address,uint256,uint256,bytes32)''"

definition SIG_REGISTER_CHANNEL_CLAIM :: string where
  "SIG_REGISTER_CHANNEL_CLAIM = ''registerChannelClaim(bytes32)''"

definition SIG_SETTLE_SWAP_IN_PROVEN :: string where
  "SIG_SETTLE_SWAP_IN_PROVEN =
    ''settleSwapInProven((address,address,uint256,uint16),(bytes32,uint32,bytes32,uint256,bytes32[]),bytes)''"

definition SIG_REVERSE_SWAP_OUT :: string where
  "SIG_REVERSE_SWAP_OUT = ''reverseSwapOut(bytes32,bool)''"

definition SIG_PP_RELAY :: string where
  "SIG_PP_RELAY = ''relay((address,bytes),(bytes,uint256[8]),uint256)''"

type_synonym keccak_fn = "bytes \<Rightarrow> bytes"

definition encode_open_channel ::
    "keccak_fn \<Rightarrow> OpenParams \<Rightarrow> bytes \<Rightarrow> bytes list \<Rightarrow> OpenAuth \<Rightarrow> ExitArming list \<Rightarrow> bytes option" where
  "encode_open_channel keccak params raw_funding_tx funding_merkle_proof auth exits =
    encode_call keccak (ascii SIG_OPEN_CHANNEL)
      [Tuple (open_params_tokens params), Bytes raw_funding_tx, FixedBytes32Array funding_merkle_proof,
       Tuple (open_auth_tokens auth), TupleArray (map exit_arming_tokens exits)]"

definition encode_splice ::
    "keccak_fn \<Rightarrow> bytes \<Rightarrow> OpenParams \<Rightarrow> bytes \<Rightarrow> bytes list \<Rightarrow> ExitArming list \<Rightarrow> bytes option" where
  "encode_splice keccak cid params raw_splice_tx splice_merkle_proof exits =
    encode_call keccak (ascii SIG_SPLICE)
      [FixedBytes32 cid, Tuple (open_params_tokens params), Bytes raw_splice_tx,
       FixedBytes32Array splice_merkle_proof, TupleArray (map exit_arming_tokens exits)]"

definition settle_swap_in_args ::
    "bytes \<Rightarrow> bytes \<Rightarrow> 256 word \<Rightarrow> nat \<Rightarrow> bytes \<Rightarrow> nat \<Rightarrow> TxInclusion \<Rightarrow> Tok list" where
  "settle_swap_in_args seller token price_per_btc slippage_bps user_refund cltv_height inclusion =
    [Tuple [Address seller, Address token, Uint price_per_btc, Uint (of_nat slippage_bps)],
     Tuple [FixedBytes32 user_refund, Uint (of_nat cltv_height), FixedBytes32 (inc_block_hash_be inclusion),
            Uint (of_nat (tx_index inclusion)), FixedBytes32Array (merkle_proof inclusion)],
     Bytes (raw inclusion)]"

definition encode_settle_swap_in_proven ::
    "keccak_fn \<Rightarrow> bytes \<Rightarrow> bytes \<Rightarrow> 256 word \<Rightarrow> nat \<Rightarrow> bytes \<Rightarrow> nat \<Rightarrow> TxInclusion \<Rightarrow> bytes option" where
  "encode_settle_swap_in_proven keccak seller token price_per_btc slippage_bps user_refund cltv_height inclusion =
    encode_call keccak (ascii SIG_SETTLE_SWAP_IN_PROVEN)
      (settle_swap_in_args seller token price_per_btc slippage_bps user_refund cltv_height inclusion)"

definition encode_deliver_swap_out_onchain ::
    "keccak_fn \<Rightarrow> bytes \<Rightarrow> bytes \<Rightarrow> OpenParams \<Rightarrow> bytes \<Rightarrow> bytes list \<Rightarrow> bytes \<Rightarrow> ExitArming list \<Rightarrow> bytes option" where
  "encode_deliver_swap_out_onchain keccak swap_id cid params raw_splice_tx splice_merkle_proof
      swapper_script exits =
    encode_call keccak (ascii SIG_DELIVER_SWAP_OUT_ONCHAIN)
      [FixedBytes32 swap_id, FixedBytes32 cid, Tuple (open_params_tokens params), Bytes raw_splice_tx,
       FixedBytes32Array splice_merkle_proof, Bytes swapper_script, TupleArray (map exit_arming_tokens exits)]"

definition encode_emit_dead_man_exit :: "keccak_fn \<Rightarrow> bytes \<Rightarrow> OpenParams \<Rightarrow> ExitArming \<Rightarrow> bytes option" where
  "encode_emit_dead_man_exit keccak cid params exit =
    encode_call keccak (ascii SIG_EMIT_DEAD_MAN_EXIT)
      [FixedBytes32 cid, Tuple (open_params_tokens params), Tuple (exit_arming_tokens exit)]"

definition encode_register_channel_claim :: "keccak_fn \<Rightarrow> bytes \<Rightarrow> bytes option" where
  "encode_register_channel_claim keccak cid =
    encode_call keccak (ascii SIG_REGISTER_CHANNEL_CLAIM) [FixedBytes32 cid]"

definition encode_request_swap_out_onchain :: "keccak_fn \<Rightarrow> bytes \<Rightarrow> 256 word \<Rightarrow> nat \<Rightarrow> bytes \<Rightarrow> bytes option" where
  "encode_request_swap_out_onchain keccak token usd_amount min_sats swap_id =
    encode_call keccak (ascii SIG_REQUEST_SWAP_OUT_ONCHAIN)
      [Address token, Uint usd_amount, Uint (of_nat min_sats), FixedBytes32 swap_id]"

definition close_proof_tokens :: "bytes \<Rightarrow> bytes \<Rightarrow> bytes list \<Rightarrow> nat \<Rightarrow> Tok list" where
  "close_proof_tokens raw_close_tx close_block_hash_be proof tx_idx =
    [Bytes raw_close_tx, FixedBytes32 close_block_hash_be, FixedBytes32Array proof, Uint (of_nat tx_idx)]"

definition encode_record_close ::
    "keccak_fn \<Rightarrow> bytes \<Rightarrow> OpenParams \<Rightarrow> bytes \<Rightarrow> bytes \<Rightarrow> bytes list \<Rightarrow> nat \<Rightarrow> bytes option" where
  "encode_record_close keccak cid close_params raw_close_tx close_block_hash_be proof tx_idx =
    encode_call keccak (ascii SIG_RECORD_CLOSE)
      [FixedBytes32 cid, Tuple (open_params_tokens close_params),
       Tuple (close_proof_tokens raw_close_tx close_block_hash_be proof tx_idx)]"

definition encode_record_force_close_permissionless ::
    "keccak_fn \<Rightarrow> bytes \<Rightarrow> bytes \<Rightarrow> bytes \<Rightarrow> bytes list \<Rightarrow> nat \<Rightarrow> bytes option" where
  "encode_record_force_close_permissionless keccak cid raw_close_tx close_block_hash_be proof tx_idx =
    encode_call keccak (ascii SIG_RECORD_FORCE_CLOSE_PERMISSIONLESS)
      [FixedBytes32 cid, Tuple (close_proof_tokens raw_close_tx close_block_hash_be proof tx_idx)]"

definition encode_set_btc_recipient :: "keccak_fn \<Rightarrow> bytes \<Rightarrow> bytes \<Rightarrow> bytes option" where
  "encode_set_btc_recipient keccak x_only_key pop =
    encode_call keccak (ascii ''setBtcRecipient(bytes32,bytes)'') [FixedBytes32 x_only_key, Bytes pop]"

definition encode_pp_relay ::
    "keccak_fn \<Rightarrow> bytes \<times> bytes \<Rightarrow> bytes \<Rightarrow> 256 word list \<Rightarrow> 256 word \<Rightarrow> bytes option" where
  "encode_pp_relay keccak w proof pub_signals scope =
    encode_call keccak (ascii SIG_PP_RELAY)
      [Tuple [Address (fst w), Bytes (snd w)], Tuple [Bytes proof, StaticWords (map u256_word pub_signals)],
       Uint scope]"

text \<open>\<open>swap::reverse_swap_out_calldata\<close> writes its two words by hand.\<close>

definition reverse_swap_out_calldata :: "keccak_fn \<Rightarrow> bytes \<Rightarrow> bool \<Rightarrow> bytes" where
  "reverse_swap_out_calldata keccak swap_id require_full =
    take 4 (keccak (ascii SIG_REVERSE_SWAP_OUT)) @ swap_id @ u256_word (if require_full then 1 else 0)"

subsection \<open>Inclusion proofs\<close>

record esplora =
  get_tx :: "bytes \<Rightarrow> bytes option"
  get_block_hash :: "bytes \<Rightarrow> bytes option"
  get_block_height :: "bytes \<Rightarrow> nat option"
  get_block_txids :: "bytes \<Rightarrow> bytes list option"

text \<open>\<open>iter().position\<close>\<close>

fun position :: "bytes \<Rightarrow> bytes list \<Rightarrow> nat option" where
  "position x [] = None"
| "position x (y # ys) = (if y = x then Some 0 else map_option Suc (position x ys))"

definition tx_inclusion :: "hash_fn \<Rightarrow> esplora \<Rightarrow> bytes \<Rightarrow> TxInclusion option" where
  "tx_inclusion sha256d client txid = do {
     tx \<leftarrow> get_tx client txid;
     block_hash \<leftarrow> get_block_hash client txid;
     h \<leftarrow> get_block_height client txid;
     txids \<leftarrow> get_block_txids client block_hash;
     index \<leftarrow> position txid txids;
     (branch, root) \<leftarrow> merkle_branch sha256d txids index;
     Some \<lparr>raw = tx, inc_block_hash_be = block_hash_be block_hash, height = h, tx_index = index,
           merkle_proof = branch\<rparr>
   }"

subsection \<open>Signatures read as types\<close>

text \<open>
  The argument list of a Solidity signature: elementary types, \<open>(...)\<close> for a struct,
  \<open>[]\<close> and \<open>[n]\<close> behind a type. Fuel bounds the nesting and the length; the length of the
  string is enough.
\<close>

fun base_ty :: "string \<Rightarrow> Ty option" where
  "base_ty name =
    (if name \<in> {''uint256'', ''uint64'', ''uint32'', ''uint16'', ''bool''} then Some TUint
     else if name = ''address'' then Some TAddress
     else if name = ''bytes32'' then Some TBytes32
     else if name = ''bytes'' then Some TBytes
     else None)"

fun array_ty :: "Ty \<Rightarrow> Ty option" where
  "array_ty TUint = Some TUintArray"
| "array_ty TBytes = Some TBytesArray"
| "array_ty TBytes32 = Some TBytes32Array"
| "array_ty (TTuple tys) = Some (TTupleArray tys)"
| "array_ty _ = None"

definition is_name_char :: "char \<Rightarrow> bool" where
  "is_name_char c \<longleftrightarrow> c \<notin> {CHR ''('', CHR '')'', CHR '','', CHR ''['', CHR '']''}"

fun digit_value :: "string \<Rightarrow> nat \<Rightarrow> nat" where
  "digit_value [] n = n"
| "digit_value (c # cs) n = digit_value cs (10 * n + (of_char c - 48))"

text \<open>An array suffix, where there is one.\<close>

definition suffix :: "Ty \<Rightarrow> string \<Rightarrow> (Ty \<times> string) option" where
  "suffix ty s = (case s of
     CHR ''['' # CHR '']'' # s' \<Rightarrow> map_option (\<lambda>t. (t, s')) (array_ty ty)
   | CHR ''['' # s' \<Rightarrow> (if ty = TUint then
       Some (TStaticWords (digit_value (takeWhile is_name_char s') 0), tl (dropWhile is_name_char s')) else None)
   | _ \<Rightarrow> Some (ty, s))"

fun parse_ty :: "nat \<Rightarrow> string \<Rightarrow> (Ty \<times> string) option"
  and parse_tys :: "nat \<Rightarrow> string \<Rightarrow> (Ty list \<times> string) option" where
  "parse_ty 0 s = None"
| "parse_ty (Suc n) s =
    (if s \<noteq> [] \<and> hd s = CHR ''('' then
       do { (tys, s') \<leftarrow> parse_tys n (tl s); suffix (TTuple tys) s' }
     else do { ty \<leftarrow> base_ty (takeWhile is_name_char s); suffix ty (dropWhile is_name_char s) })"
| "parse_tys 0 s = None"
| "parse_tys (Suc n) s = do {
     (ty, s') \<leftarrow> parse_ty n s;
     if s' = [] then None
     else if hd s' = CHR '')'' then Some ([ty], tl s')
     else if hd s' = CHR '','' then do { (tys, s'') \<leftarrow> parse_tys n (tl s'); Some (ty # tys, s'') }
     else None
   }"

definition sig_types :: "string \<Rightarrow> Ty list option" where
  "sig_types sig = map_option fst (parse_tys (length sig) (tl (dropWhile is_name_char sig)))"

abbreviation open_params_ty :: "Ty list" where
  "open_params_ty \<equiv> [TBytes32, TUint, TUint, TBytes, TBytes, TBytes, TUint, TBytes32]"

abbreviation exit_arming_ty :: "Ty list" where
  "exit_arming_ty \<equiv> [TUintArray, TBytesArray, TUint, TUint, TBytes]"

abbreviation tx_proof_ty :: "Ty list" where
  "tx_proof_ty \<equiv> [TBytes, TBytes32, TBytes32Array, TUint]"

named_theorems signatures "the argument types of the signature strings"

lemma sig_open [signatures]: "sig_types SIG_OPEN_CHANNEL =
    Some [TTuple open_params_ty, TBytes, TBytes32Array, TTuple [TBytes32, TBytes, TBytes], TTupleArray exit_arming_ty]"
  by code_simp

lemma sig_splice [signatures]: "sig_types SIG_SPLICE =
    Some [TBytes32, TTuple open_params_ty, TBytes, TBytes32Array, TTupleArray exit_arming_ty]"
  by code_simp

lemma sig_deliver [signatures]: "sig_types SIG_DELIVER_SWAP_OUT_ONCHAIN =
    Some [TBytes32, TBytes32, TTuple open_params_ty, TBytes, TBytes32Array, TBytes, TTupleArray exit_arming_ty]"
  by code_simp

lemma sig_record_close [signatures]: "sig_types SIG_RECORD_CLOSE =
    Some [TBytes32, TTuple open_params_ty, TTuple tx_proof_ty]"
  by code_simp

lemma sig_force_close [signatures]: "sig_types SIG_RECORD_FORCE_CLOSE_PERMISSIONLESS =
    Some [TBytes32, TTuple tx_proof_ty]"
  by code_simp

lemma sig_exit [signatures]: "sig_types SIG_EMIT_DEAD_MAN_EXIT =
    Some [TBytes32, TTuple open_params_ty, TTuple exit_arming_ty]"
  by code_simp

lemma sig_settle [signatures]: "sig_types SIG_SETTLE_SWAP_IN_PROVEN =
    Some [TTuple [TAddress, TAddress, TUint, TUint], TTuple [TBytes32, TUint, TBytes32, TUint, TBytes32Array], TBytes]"
  by code_simp

lemma sig_relay [signatures]: "sig_types SIG_PP_RELAY =
    Some [TTuple [TAddress, TBytes], TTuple [TBytes, TStaticWords 8], TUint]"
  by code_simp

lemma sig_reverse [signatures]: "sig_types SIG_REVERSE_SWAP_OUT = Some [TBytes32, TUint]"
  by code_simp

lemma sig_request [signatures]: "sig_types SIG_REQUEST_SWAP_OUT_ONCHAIN = Some [TAddress, TUint, TUint, TBytes32]"
  by code_simp

lemma sig_claim [signatures]: "sig_types SIG_REGISTER_CHANNEL_CLAIM = Some [TBytes32]"
  by code_simp

subsection \<open>What a call says to the contract\<close>

text \<open>\<open>calls_with keccak sig data args\<close>: the selector of \<open>data\<close> is that of \<open>sig\<close>, and the rest
  decodes at the types of \<open>sig\<close> to \<open>args\<close>.\<close>

definition calls_with :: "keccak_fn \<Rightarrow> string \<Rightarrow> bytes \<Rightarrow> Tok list \<Rightarrow> bool" where
  "calls_with keccak sig data args \<longleftrightarrow> take 4 data = selector4 keccak (ascii sig) \<and>
    (\<exists>tys. sig_types sig = Some tys \<and> dec_toks tys (drop 4 data) (drop 4 data) = Some args)"

lemma encode_call_calls:
  assumes "encode_call keccak (ascii sig) args = Some data" "sig_types sig = Some tys" "list_all2 has_ty tys args"
    and "length data < 2 ^ 64" "\<And>x. length (keccak x) = 32"
  shows "calls_with keccak sig data args"
proof -
  obtain bs where bs: "encode_tuple args = Some bs" "data = take 4 (keccak (ascii sig)) @ bs"
    using assms(1) by (auto simp: encode_call_def simp del: encode_tuple.simps)
  then have "length bs < 2 ^ 64" "drop 4 data = bs" "take 4 data = selector4 keccak (ascii sig)"
    using assms(4,5) by (auto simp: selector4_def)
  with encoders_round_trip(2)[OF assms(3) bs(1), of "[]"] assms(2) show ?thesis
    by (simp add: calls_with_def)
qed

definition wf_open_params :: "OpenParams \<Rightarrow> bool" where
  "wf_open_params p \<longleftrightarrow> length (funding_block_hash_be p) = 32 \<and> length (funding_taproot p) = 32"

lemma open_params_typed: "wf_open_params p \<Longrightarrow> list_all2 has_ty open_params_ty (open_params_tokens p)"
  by (simp add: open_params_tokens_def wf_open_params_def)

lemma exit_arming_typed: "list_all2 has_ty exit_arming_ty (exit_arming_tokens e)"
  by (simp add: exit_arming_tokens_def)

lemma close_proof_typed:
  "length h = 32 \<Longrightarrow> list_all (\<lambda>w. length w = 32) proof \<Longrightarrow> list_all2 has_ty tx_proof_ty (close_proof_tokens rawtx h proof i)"
  by (simp add: close_proof_tokens_def)

lemma exits_typed: "list_all (\<lambda>ts. list_all2 has_ty exit_arming_ty ts) (map exit_arming_tokens es)"
  by (simp add: list_all_iff exit_arming_typed)

lemmas call_types = open_params_typed exit_arming_typed close_proof_typed exits_typed

lemma open_channel_calls:
  assumes "encode_open_channel keccak params rawtx proof auth exits = Some data"
    and "wf_open_params params" "length (btc_recipient auth) = 32" "list_all (\<lambda>w. length w = 32) proof"
    and "length data < 2 ^ 64" "\<And>x. length (keccak x) = 32"
  shows "calls_with keccak SIG_OPEN_CHANNEL data
    [Tuple (open_params_tokens params), Bytes rawtx, FixedBytes32Array proof, Tuple (open_auth_tokens auth),
     TupleArray (map exit_arming_tokens exits)]"
  using assms exits_typed[of exits]
  by (intro encode_call_calls[OF _ sig_open])
     (simp_all add: encode_open_channel_def open_params_typed open_auth_tokens_def)

lemma splice_calls:
  assumes "encode_splice keccak cid params rawtx proof exits = Some data"
    and "wf_open_params params" "length cid = 32" "list_all (\<lambda>w. length w = 32) proof"
    and "length data < 2 ^ 64" "\<And>x. length (keccak x) = 32"
  shows "calls_with keccak SIG_SPLICE data
    [FixedBytes32 cid, Tuple (open_params_tokens params), Bytes rawtx, FixedBytes32Array proof,
     TupleArray (map exit_arming_tokens exits)]"
  using assms exits_typed[of exits]
  by (intro encode_call_calls[OF _ sig_splice]) (simp_all add: encode_splice_def open_params_typed)

lemma deliver_calls:
  assumes "encode_deliver_swap_out_onchain keccak sid cid params rawtx proof script exits = Some data"
    and "wf_open_params params" "length sid = 32" "length cid = 32" "list_all (\<lambda>w. length w = 32) proof"
    and "length data < 2 ^ 64" "\<And>x. length (keccak x) = 32"
  shows "calls_with keccak SIG_DELIVER_SWAP_OUT_ONCHAIN data
    [FixedBytes32 sid, FixedBytes32 cid, Tuple (open_params_tokens params), Bytes rawtx, FixedBytes32Array proof,
     Bytes script, TupleArray (map exit_arming_tokens exits)]"
  using assms exits_typed[of exits]
  by (intro encode_call_calls[OF _ sig_deliver]) (simp_all add: encode_deliver_swap_out_onchain_def open_params_typed)

lemma record_close_calls:
  assumes "encode_record_close keccak cid params rawtx h proof i = Some data"
    and "wf_open_params params" "length cid = 32" "length h = 32" "list_all (\<lambda>w. length w = 32) proof"
    and "length data < 2 ^ 64" "\<And>x. length (keccak x) = 32"
  shows "calls_with keccak SIG_RECORD_CLOSE data
    [FixedBytes32 cid, Tuple (open_params_tokens params), Tuple (close_proof_tokens rawtx h proof i)]"
  using assms
  by (intro encode_call_calls[OF _ sig_record_close])
     (simp_all add: encode_record_close_def open_params_typed close_proof_tokens_def)

lemma exit_calls:
  assumes "encode_emit_dead_man_exit keccak cid params e = Some data"
    and "wf_open_params params" "length cid = 32" "length data < 2 ^ 64" "\<And>x. length (keccak x) = 32"
  shows "calls_with keccak SIG_EMIT_DEAD_MAN_EXIT data
    [FixedBytes32 cid, Tuple (open_params_tokens params), Tuple (exit_arming_tokens e)]"
  using assms exit_arming_typed[of e]
  by (intro encode_call_calls[OF _ sig_exit]) (simp_all add: encode_emit_dead_man_exit_def open_params_typed)

lemma force_close_calls:
  assumes "encode_record_force_close_permissionless keccak cid rawtx h proof i = Some data"
    and "length cid = 32" "length h = 32" "list_all (\<lambda>w. length w = 32) proof"
    and "length data < 2 ^ 64" "\<And>x. length (keccak x) = 32"
  shows "calls_with keccak SIG_RECORD_FORCE_CLOSE_PERMISSIONLESS data
    [FixedBytes32 cid, Tuple (close_proof_tokens rawtx h proof i)]"
  using assms
  by (intro encode_call_calls[OF _ sig_force_close])
     (simp_all add: encode_record_force_close_permissionless_def close_proof_tokens_def)

lemma reverse_calls:
  assumes "length sid = 32" "\<And>x. length (keccak x) = 32"
  shows "calls_with keccak SIG_REVERSE_SWAP_OUT (reverse_swap_out_calldata keccak sid full)
    [FixedBytes32 sid, Uint (if full then 1 else 0)]"
  using assms
  by (auto simp: calls_with_def reverse_swap_out_calldata_def sig_reverse selector4_def dec_word_def subrange_def
      be_value_u256_word)

text \<open>
  The terms of a proven swap-in are a struct of static fields. The contract reads them in place,
  at the head; the encoder writes an offset there, so every later argument is read three words
  early, and the offset of the deposit proof is read from the word that holds the token address.
\<close>

lemma settle_layout:
  assumes "encode_settle_swap_in_proven keccak seller token price bps refund cltv inc = Some data"
    and "length seller = 20" "length token = 20" "\<And>x. length (keccak x) = 32"
  shows "\<exists>off rest. drop 4 data =
    word_u64 96 @ word_u64 224 @ word_u64 off @ address_word seller @ address_word token @ u256_word price @ rest"
proof -
  let ?T = "address_word seller @ address_word token @ u256_word price @ u256_word (of_nat bps)"
  let ?proof = "[FixedBytes32 refund, Uint (of_nat cltv), FixedBytes32 (inc_block_hash_be inc),
    Uint (of_nat (tx_index inc)), FixedBytes32Array (merkle_proof inc)]"
  obtain P where P: "encode_tuple ?proof = Some P" using encoders_total(2) by blast
  have T: "encode_tuple [Address seller, Address token, Uint price, Uint (of_nat bps)] = Some ?T" by simp
  have l: "length (address_word seller) = 32" "length (address_word token) = 32"
    using assms(2,3) by (simp_all add: address_word_def)
  have "encode_tuple (settle_swap_in_args seller token price bps refund cltv inc) =
      Some (word_u64 96 @ word_u64 224 @ word_u64 (224 + length P) @ ?T @ P @ encode_bytes (raw inc))"
    by (subst encode_tuple.simps) (simp add: settle_swap_in_args_def T P l del: encode_tuple.simps)
  with assms(1) have "data = take 4 (keccak (ascii SIG_SETTLE_SWAP_IN_PROVEN)) @
      word_u64 96 @ word_u64 224 @ word_u64 (224 + length P) @ ?T @ P @ encode_bytes (raw inc)"
    by (simp only: encode_settle_swap_in_proven_def encode_call_def option.map option.inject)
  then have "drop 4 data = word_u64 96 @ word_u64 224 @ word_u64 (224 + length P) @ ?T @ P @ encode_bytes (raw inc)"
    by (simp add: assms(4))
  then show ?thesis by auto
qed

lemma settle_undecodable:
  assumes "encode_settle_swap_in_proven keccak seller token price bps refund cltv inc = Some data"
    and "length seller = 20" "length token = 20" "\<And>x. length (keccak x) = 32"
    and "length data \<le> be_nat token" "sig_types SIG_SETTLE_SWAP_IN_PROVEN = Some tys"
  shows "dec_toks tys (drop 4 data) (drop 4 data) = None"
proof -
  let ?d = "drop 4 data"
  obtain off rest where d: "?d =
      word_u64 96 @ word_u64 224 @ word_u64 off @ address_word seller @ address_word token @ u256_word price @ rest"
    using settle_layout[OF assms(1-4)] by blast
  have l: "length (address_word seller) = 32" "length (address_word token) = 32"
    using assms(2,3) by (simp_all add: address_word_def)
  have "drop 128 ?d = address_word token @ u256_word price @ rest" unfolding d using l by simp
  moreover have "be_nat (address_word token) = be_nat token"
    by (simp add: address_word_def be_value_append)
  ultimately have "dec_word (drop 128 ?d) = Some (be_nat token)"
    using l by (simp add: dec_word_def subrange_def)
  then have "at_offset ?d (drop 128 ?d) = Some []"
    using assms(5) by (simp add: at_offset_def)
  with assms(6) show ?thesis
    by (auto simp: sig_settle subrange_def simp del: drop_drop)
qed

text \<open>The inclusion proof handed to the contracts verifies against the root of the block.\<close>

lemma position_Some: "position x xs = Some i \<Longrightarrow> i < length xs \<and> xs ! i = x"
  by (induction x xs arbitrary: i rule: position.induct) (auto split: if_splits)

lemma position_mem: "x \<in> set xs \<Longrightarrow> \<exists>i. position x xs = Some i"
  by (induction x xs rule: position.induct) auto

lemma tx_inclusion_branch:
  assumes "tx_inclusion sha client txid = Some inc"
  shows "\<exists>block_hash txids. get_block_hash client txid = Some block_hash
    \<and> get_block_txids client block_hash = Some txids \<and> inc_block_hash_be inc = block_hash_be block_hash
    \<and> tx_index inc < length txids \<and> txids ! tx_index inc = txid
    \<and> merkle_branch sha txids (tx_index inc) = Some (merkle_proof inc, merkle_root sha txids)
    \<and> verify_branch sha txid (merkle_proof inc) (tx_index inc) (merkle_root sha txids)"
proof -
  from assms obtain bh txids i branch root where b: "get_block_hash client txid = Some bh"
    "get_block_txids client bh = Some txids" "position txid txids = Some i" "inc_block_hash_be inc = block_hash_be bh"
    "merkle_branch sha txids i = Some (branch, root)" "tx_index inc = i" "merkle_proof inc = branch"
    by (auto simp: tx_inclusion_def bind_eq_Some_conv)
  from position_Some[OF b(3)] have i: "i < length txids" "txids ! i = txid" by auto
  from merkle_branch_correct[OF i(1), of sha] b(5) i
  have "verify_branch sha txid branch i (merkle_root sha txids)" "root = merkle_root sha txids" by auto
  with b i show ?thesis by auto
qed

text \<open>What the hop relies on of the client: hashes of thirty-two bytes.\<close>

definition client_hashes :: "esplora \<Rightarrow> bool" where
  "client_hashes client \<longleftrightarrow> (\<forall>t h. get_block_hash client t = Some h \<longrightarrow> length h = 32)
    \<and> (\<forall>h ts. get_block_txids client h = Some ts \<longrightarrow> list_all (\<lambda>t. length t = 32) ts)"

lemma encode_call_total: "\<exists>data. encode_call keccak sig args = Some data"
  using encoders_total(2)[of args] by (auto simp: encode_call_def)

lemma tx_inclusion_widths:
  assumes "tx_inclusion sha client txid = Some inc" "client_hashes client" "\<And>m. length (sha m) = 32"
  shows "length (inc_block_hash_be inc) = 32" "list_all (\<lambda>w. length w = 32) (merkle_proof inc)"
proof -
  from tx_inclusion_branch[OF assms(1)] obtain bh txids where b: "get_block_hash client txid = Some bh"
    "get_block_txids client bh = Some txids" "inc_block_hash_be inc = block_hash_be bh"
    "merkle_branch sha txids (tx_index inc) = Some (merkle_proof inc, merkle_root sha txids)" by blast
  with assms(2) show "length (inc_block_hash_be inc) = 32" by (auto simp: client_hashes_def block_hash_be_def)
  show "list_all (\<lambda>w. length w = 32) (merkle_proof inc)"
    by (rule merkle_branch_width[OF b(4) _ assms(3)]) (use assms(2) b(2) in \<open>auto simp: client_hashes_def\<close>)
qed

end
