(* ===== verification/Swap_Rails.thy ===== *)
theory Swap_Rails
  imports Evm_Calls
begin

section \<open>Swap rails (quid-hop/src/swap.rs)\<close>

text \<open>
  The floor a seller is quoted for a swap-in, the confirmations the hop waits for before it pays
  out, and the decoder of the log that requests an on-chain swap-out. The log may come from any
  contract, so its bytes are hostile: a panic is modelled as the outer \<^const>\<open>None\<close>, a refusal as
  \<open>Some None\<close>. A \<open>U256\<close> is a \<open>256 word\<close>, whose operators wrap as those of the type do; the
  daemons are built without overflow checks, so \<open>d + 1\<close> on u64 wraps as well.
\<close>

definition swap_in_floor_usd :: "nat \<Rightarrow> 256 word \<Rightarrow> nat \<Rightarrow> 256 word" where
  "swap_in_floor_usd sats price_per_btc slippage_bps =
    (let expected = of_nat sats * price_per_btc div 100000000;
         keep = 10000 - min slippage_bps 10000
     in expected * of_nat keep div 10000)"

text \<open>\<open>BitcoinTx.settleFloorUsd\<close>, which binds: checked arithmetic, an overflow reverts.\<close>

definition settleFloorUsd :: "nat \<Rightarrow> nat \<Rightarrow> nat \<Rightarrow> nat option" where
  "settleFloorUsd price_per_btc slippage_bps sats =
    (if sats * price_per_btc < 2 ^ 256 then
       let expected = sats * price_per_btc div 100000000;
           keep = (if slippage_bps \<ge> 10000 then 0 else 10000 - slippage_bps)
       in if expected * keep < 2 ^ 256 then Some (expected * keep div 10000) else None
     else None)"

definition evm_final :: "nat \<Rightarrow> nat \<Rightarrow> nat \<Rightarrow> bool" where
  "evm_final request_block evm_tip min_confs =
    (if request_block \<le> evm_tip then (evm_tip - request_block + 1) mod 2 ^ 64 \<ge> min_confs else False)"

record OnchainSwapOutRequest =
  swapper :: bytes
  sats :: nat
  token :: bytes
  swap_id :: bytes
  swapper_script :: bytes
  request_block :: nat

text \<open>\<open>try_into().ok()?\<close> into a 64-bit integer, and \<open>usize::checked_add\<close>.\<close>

definition to_u64 :: "bytes \<Rightarrow> nat option" where
  "to_u64 w = (if be_nat w < 2 ^ 64 then Some (be_nat w) else None)"

definition checked_add :: "nat \<Rightarrow> nat \<Rightarrow> nat option" where
  "checked_add a b = (if a + b < 2 ^ 64 then Some (a + b) else None)"

definition decode_swap_out_common ::
    "bytes list \<Rightarrow> bytes \<Rightarrow> bytes \<Rightarrow> (bytes \<times> nat \<times> bytes \<times> bytes) option option" where
  "decode_swap_out_common topics data topic0 =
    (if length topics \<noteq> 3 \<or> length data < 128 then Some None
     else if topics ! 0 \<noteq> topic0 then Some None
     else do {
       who \<leftarrow> subrange (topics ! 1) 12 32;
       w0 \<leftarrow> subrange data 0 32;
       case to_u64 w0 of None \<Rightarrow> Some None | Some n \<Rightarrow> do {
         tok \<leftarrow> subrange data 44 64;
         w2 \<leftarrow> subrange data 64 96;
         Some (do {
           offset \<leftarrow> to_u64 w2;
           len_end \<leftarrow> checked_add offset 32;
           wl \<leftarrow> subrange data offset len_end;
           len \<leftarrow> to_u64 wl;
           stop \<leftarrow> checked_add len_end len;
           tail \<leftarrow> subrange data len_end stop;
           Some (who, n, tok, tail)
         })
       }
     })"

definition swap_out_requested_onchain_topic :: "keccak_fn \<Rightarrow> bytes" where
  "swap_out_requested_onchain_topic keccak =
    keccak (ascii ''SwapOutRequestedOnchain(address,uint256,address,bytes32,bytes)'')"

definition decode_swap_out_requested_onchain ::
    "keccak_fn \<Rightarrow> bytes list \<Rightarrow> bytes \<Rightarrow> nat \<Rightarrow> OnchainSwapOutRequest option option" where
  "decode_swap_out_requested_onchain keccak topics data block = do {
     r \<leftarrow> decode_swap_out_common topics data (swap_out_requested_onchain_topic keccak);
     Some (map_option (\<lambda>(who, n, tok, script).
       \<lparr>swapper = who, sats = n, token = tok, swap_id = topics ! 2, swapper_script = script,
        request_block = block\<rparr>) r)
   }"

subsection \<open>The floor\<close>

lemma unat_mult_small: "unat a * unat b < 2 ^ LENGTH('a) \<Longrightarrow> unat (a * b :: 'a :: len word) = unat a * unat b"
  by (simp add: unat_word_ariths)

text \<open>Where the contract computes a floor, the hop quotes the same one.\<close>

lemma floor_agrees:
  assumes "settleFloorUsd (unat price) bps n = Some f" "n < 2 ^ 64"
  shows "unat (swap_in_floor_usd n price bps) = f"
proof -
  have u: "unat (of_nat n :: 256 word) = n"
    using assms(2) by (simp add: unat_of_nat take_bit_nat_eq_self)
  let ?e = "n * unat price div 100000000" and ?k = "10000 - min bps 10000"
  from assms(1) have o: "n * unat price < 2 ^ 256" "?e * ?k < 2 ^ 256" "f = ?e * ?k div 10000"
    by (auto simp: settleFloorUsd_def Let_def min_def split: if_splits)
  have e: "unat (of_nat n * price div 100000000 :: 256 word) = ?e"
    using o(1) by (simp add: unat_div_distrib unat_mult_small u)
  have k: "unat (of_nat ?k :: 256 word) = ?k"
  proof -
    have "?k < 2 ^ 256" by (rule le_less_trans[of _ 10000]) auto
    then show ?thesis by (simp only: unat_of_nat) (simp add: take_bit_nat_eq_self)
  qed
  have "unat (of_nat n * price div 100000000 * of_nat ?k :: 256 word) = ?e * ?k"
    using o(2) by (subst unat_mult_small) (simp_all only: e k, simp)
  then show ?thesis
    unfolding swap_in_floor_usd_def Let_def by (simp only: unat_div_distrib o(3)) simp
qed

lemma floor_below_quote: "settleFloorUsd p bps n = Some f \<Longrightarrow> f \<le> n * p div 100000000"
proof -
  assume "settleFloorUsd p bps n = Some f"
  then have "f = n * p div 100000000 * (10000 - bps) div 10000"
    by (auto simp: settleFloorUsd_def Let_def split: if_splits)
  moreover have "n * p div 100000000 * (10000 - bps) \<le> n * p div 100000000 * 10000" by simp
  ultimately show ?thesis by (metis div_le_mono div_mult_self_is_m zero_less_numeral)
qed

lemma evm_final_iff:
  "evm_tip < 2 ^ 64 - 1 \<Longrightarrow> evm_final b evm_tip k \<longleftrightarrow> b \<le> evm_tip \<and> k \<le> evm_tip - b + 1"
  by (auto simp: evm_final_def)

subsection \<open>The decoder\<close>

lemma decode_no_panic:
  assumes "list_all (\<lambda>t. length t = 32) topics"
  shows "\<exists>r. decode_swap_out_requested_onchain keccak topics data b = Some r"
proof -
  have "\<exists>r. decode_swap_out_common topics data topic0 = Some r" for topic0
  proof (cases "length topics \<noteq> 3 \<or> length data < 128 \<or> topics ! 0 \<noteq> topic0")
    case False
    then have t: "length (topics ! 1) = 32" "128 \<le> length data"
      using assms by (auto simp: list_all_length)
    with False show ?thesis
      by (auto simp: decode_swap_out_common_def subrange_def split: option.splits)
  qed (auto simp: decode_swap_out_common_def)
  then obtain r where "decode_swap_out_common topics data (swap_out_requested_onchain_topic keccak) = Some r" by blast
  then show ?thesis by (simp add: decode_swap_out_requested_onchain_def)
qed

lemma to_u64_u256: "n < 2 ^ 64 \<Longrightarrow> to_u64 (u256_word (of_nat n)) = Some n"
  by (simp add: to_u64_def be_value_u256_word unat_of_nat take_bit_nat_eq_self)

lemma to_u64_word: "n < 2 ^ 64 \<Longrightarrow> to_u64 (word_u64 n) = Some n"
  by (simp add: to_u64_def be_value_word_u64)

lemma decode_round_trip:
  assumes "length who = 20" "length tok = 20" "length sid = 32" "n < 2 ^ 64" "length script < 2 ^ 63"
    and "encode_tuple [Uint (of_nat n), Address tok, Bytes script] = Some data"
  shows "decode_swap_out_requested_onchain keccak
      [swap_out_requested_onchain_topic keccak, address_word who, sid] data b =
    Some (Some \<lparr>swapper = who, sats = n, token = tok, swap_id = sid, swapper_script = script,
      request_block = b\<rparr>)"
proof -
  let ?pad = "replicate ((32 - length script mod 32) mod 32) (0 :: byte)"
  have d: "data = u256_word (of_nat n) @ address_word tok @ word_u64 96 @ word_u64 (length script) @ script @ ?pad"
    using assms(6) by (simp add: encode_bytes_def)
  have l: "length (address_word tok) = 32" "length (address_word who) = 32"
    using assms(1,2) by (simp_all add: address_word_def)
  have s: "subrange data 0 32 = Some (u256_word (of_nat n))" "subrange data 44 64 = Some tok"
    "subrange data 64 96 = Some (word_u64 96)" "subrange data 96 128 = Some (word_u64 (length script))"
    "subrange data 128 (128 + length script) = Some script" "subrange (address_word who) 12 32 = Some who"
    unfolding d using l assms(1,2) by (simp_all add: subrange_def) (simp_all add: address_word_def)
  have "length script < 2 ^ 64" "128 + length script < 2 ^ 64" using assms(5) by auto
  moreover have "128 \<le> length data" unfolding d using l by simp
  ultimately show ?thesis
    using assms(4)
    by (simp add: decode_swap_out_requested_onchain_def decode_swap_out_common_def s to_u64_u256 to_u64_word
        checked_add_def del: slice_Some)
qed

end
