(* ===== verification/Hex.thy ===== *)
theory Hex
  imports Bytes
begin

section \<open>Lower-case hex (quid-hex/src/hex.rs)\<close>

text \<open>
  The codec every identifier of the daemons goes through: channel ids as keys of the freshness
  ledger, the commitment of a seed share. It is written without branches on the data, on 16-bit
  signed integers, so it is modelled on words: \<open>i16\<close> is a \<open>16 word\<close> whose right shift is
  arithmetic (\<^const>\<open>signed_drop_bit\<close>), \<open>u16\<close> a \<open>16 word\<close> whose shift is logical. A
  \<open>&str\<close> is the list of its bytes. The panic of the compile-time decoder is \<^const>\<open>None\<close>.
\<close>

unbundle bit_operations_syntax

datatype DecodeError = BadOutputLength | InvalidCharacter | OddInputLength

definition encode_nibble :: "byte \<Rightarrow> byte" where
  "encode_nibble nib =
    (let b_0 = (0x30 :: 16 word); b_9 = 0x39; b_a = 0x61;
         n = ucast nib; base = n + b_0;
         gap_9a = signed_drop_bit 8 (b_9 - b_0 - n) AND (b_a - b_9 - 1)
     in ucast (base + gap_9a))"

definition decode_nibble :: "byte \<Rightarrow> 16 word" where
  "decode_nibble src =
    (let b = (ucast src :: 16 word);
         ret = (- 1);
         ret = ret + (signed_drop_bit 8 ((0x2f - b) AND (b - 0x3a)) AND (b - 47));
         ret = ret + (signed_drop_bit 8 ((0x60 - b) AND (b - 0x67)) AND (b - 86))
     in ret)"

fun hex_encode :: "bytes \<Rightarrow> bytes" where
  "hex_encode [] = []"
| "hex_encode (src # bs) =
    encode_nibble (drop_bit 4 src) # encode_nibble (src AND 0x0f) # hex_encode bs"

text \<open>\<open>as_chunks::<2>()\<close>: the pairs, and an error when one byte is left over.\<close>

fun hex_str_to_chunks :: "bytes \<Rightarrow> DecodeError + (byte \<times> byte) list" where
  "hex_str_to_chunks [] = Inr []"
| "hex_str_to_chunks [c] = Inl OddInputLength"
| "hex_str_to_chunks (c # d # s) =
    (case hex_str_to_chunks s of Inl e \<Rightarrow> Inl e | Inr cs \<Rightarrow> Inr ((c, d) # cs))"

text \<open>The loop: the bytes decoded so far and the error bits collected on the way.\<close>

definition decode_pair :: "byte \<Rightarrow> byte \<Rightarrow> 16 word" where
  "decode_pair c_hi c_lo = push_bit 4 (decode_nibble c_hi) OR decode_nibble c_lo"

fun decode_loop :: "(byte \<times> byte) list \<Rightarrow> 16 word \<Rightarrow> bytes \<Rightarrow> bytes \<times> 16 word" where
  "decode_loop [] err out = (out, err)"
| "decode_loop ((c_hi, c_lo) # cs) err out =
    (let b = decode_pair c_hi c_lo
     in decode_loop cs (err OR drop_bit 8 b) (out @ [ucast b]))"

definition decode_to_slice_inner :: "(byte \<times> byte) list \<Rightarrow> nat \<Rightarrow> DecodeError + bytes" where
  "decode_to_slice_inner cs out_len =
    (if length cs \<noteq> out_len then Inl BadOutputLength
     else let (out, err) = decode_loop cs 0 []
          in if err = 0 then Inr out else Inl InvalidCharacter)"

definition hex_decode :: "bytes \<Rightarrow> DecodeError + bytes" where
  "hex_decode s = (case hex_str_to_chunks s of Inl e \<Rightarrow> Inl e
     | Inr cs \<Rightarrow> decode_to_slice_inner cs (length cs))"

definition decode_to_slice :: "bytes \<Rightarrow> nat \<Rightarrow> DecodeError + bytes" where
  "decode_to_slice s out_len = (case hex_str_to_chunks s of Inl e \<Rightarrow> Inl e
     | Inr cs \<Rightarrow> decode_to_slice_inner cs out_len)"

text \<open>The compile-time decoder walks an index instead of pairs and panics on an error.\<close>

function decode_const_loop :: "nat \<Rightarrow> bytes \<Rightarrow> nat \<Rightarrow> 16 word \<Rightarrow> bytes \<Rightarrow> bytes option" where
  "decode_const_loop n hex idx err out =
    (if idx < n then
       let b = decode_pair (hex ! (2 * idx)) (hex ! (2 * idx + 1))
       in decode_const_loop n hex (idx + 1) (err OR drop_bit 8 b) (out @ [ucast b])
     else if err = 0 then Some out else None)"
  by auto
termination by (relation "measure (\<lambda>(n, hex, idx, err, out). n - idx)") auto

definition decode_const :: "nat \<Rightarrow> bytes \<Rightarrow> bytes option" where
  "decode_const n hex = (if length hex \<noteq> n * 2 then None else decode_const_loop n hex 0 0 [])"

text \<open>\<open>freshness::hex32\<close>: the key under which a 32-byte id is filed, \<open>{b:02x}\<close> per byte.\<close>

definition hex_char :: "int \<Rightarrow> byte" where
  "hex_char d = word_of_int (if d < 10 then 48 + d else 87 + d)"

definition hex32 :: "bytes \<Rightarrow> bytes" where
  "hex32 bs = concat (map (\<lambda>b. [hex_char (uint b div 16), hex_char (uint b mod 16)]) bs)"

subsection \<open>One nibble\<close>

text \<open>The branch-free arithmetic against the table it replaces.\<close>

definition is_hex_char :: "byte \<Rightarrow> bool" where
  "is_hex_char c \<longleftrightarrow> 48 \<le> c \<and> c \<le> 57 \<or> 97 \<le> c \<and> c \<le> 102"

definition hex_value :: "byte \<Rightarrow> int" where
  "hex_value c = (if c \<le> 57 then uint c - 48 else uint c - 87)"

lemma all_bytes: "(\<forall>c :: byte. P c) \<longleftrightarrow> (\<forall>i \<in> set [0..255]. P (word_of_int i))"
proof
  assume h: "\<forall>i \<in> set [0..255]. P (word_of_int i)"
  show "\<forall>c. P c"
  proof
    fix c :: byte
    have "uint c \<in> set [0..255]" using unsigned_less[of c, where 'a = int] by simp
    with h have "P (word_of_int (uint c))" by blast
    then show "P c" by simp
  qed
qed simp

lemma decode_nibble_table_all:
  "\<forall>c. decode_nibble c = (if is_hex_char c then word_of_int (hex_value c) else - 1)"
  unfolding all_bytes by code_simp

lemma encode_nibble_table_all:
  "\<forall>n \<in> set [0..15]. encode_nibble (word_of_int n) = hex_char n
     \<and> is_hex_char (hex_char n) \<and> hex_value (hex_char n) = n"
  by code_simp

lemma hex_char_table_all:
  "\<forall>c. is_hex_char c \<longrightarrow> hex_value c < 16 \<and> hex_char (hex_value c) = c"
  unfolding all_bytes by code_simp

lemmas decode_nibble_table = decode_nibble_table_all[rule_format]
lemmas hex_char_table = hex_char_table_all[rule_format]

lemma hex_digits:
  assumes "0 \<le> n" "n < 16"
  shows "encode_nibble (word_of_int n) = hex_char n" "is_hex_char (hex_char n)"
    "hex_value (hex_char n) = n"
  using encode_nibble_table_all assms by auto

lemma pair_value_all:
  "\<forall>x \<in> set [0..15]. \<forall>y \<in> set [0..15].
     (push_bit 4 (word_of_int x) OR word_of_int y :: 16 word) = word_of_int (16 * x + y)"
  by code_simp

text \<open>Two hex characters give their byte and no error bit; anything else sets an error bit.\<close>

lemma decode_pair_hex:
  assumes "is_hex_char c" "is_hex_char d"
  shows "decode_pair c d = word_of_int (16 * hex_value c + hex_value d)"
proof -
  have "hex_value c \<in> set [0..15]" "hex_value d \<in> set [0..15]"
    using hex_char_table[OF assms(1)] hex_char_table[OF assms(2)] assms
    by (auto simp: hex_value_def is_hex_char_def word_le_def)
  then show ?thesis
    using assms pair_value_all by (simp add: decode_pair_def decode_nibble_table del: set_upto)
qed

lemma decode_pair_bad:
  assumes "\<not> (is_hex_char c \<and> is_hex_char d)"
  shows "drop_bit 8 (decode_pair c d) \<noteq> 0"
proof -
  have "bit (decode_pair c d) 8"
    using assms by (auto simp: decode_pair_def decode_nibble_table bit_simps)
  then have "bit (drop_bit 8 (decode_pair c d)) 0" by (simp add: bit_drop_bit_eq)
  then show ?thesis by auto
qed

lemma hex_value_range: "is_hex_char c \<Longrightarrow> 0 \<le> hex_value c \<and> hex_value c < 16"
  using hex_char_table[of c] by (auto simp: hex_value_def is_hex_char_def word_le_def)

lemma uint_of_small: "0 \<le> n \<Longrightarrow> n < 2 ^ LENGTH('a) \<Longrightarrow> uint (word_of_int n :: 'a :: len word) = n"
  by (simp add: uint_word_of_int_eq take_bit_int_eq_self)

lemma uint_take_bit_self: "take_bit LENGTH('a) (uint (w :: 'a :: len word)) = uint w"
  by (rule take_bit_int_eq_self) auto

lemma uint_drop_bit: "uint (drop_bit n w) = uint (w :: 'a :: len word) div 2 ^ n"
  by (subst unsigned_drop_bit_eq) (simp only: drop_bit_eq_div uint_take_bit_self)

lemma decode_pair_good:
  assumes "is_hex_char c" "is_hex_char d"
  shows "drop_bit 8 (decode_pair c d) = 0"
proof -
  have "16 * hex_value c + hex_value d < 256" "0 \<le> 16 * hex_value c + hex_value d"
    using hex_value_range[OF assms(1)] hex_value_range[OF assms(2)] by auto
  then have "uint (decode_pair c d) < 256"
    unfolding decode_pair_hex[OF assms] by (subst uint_of_small) auto
  then have "uint (drop_bit 8 (decode_pair c d)) = 0"
    by (simp only: uint_drop_bit) simp
  then show ?thesis by (simp add: uint_0_iff)
qed

subsection \<open>The whole string\<close>

lemma high_nibble: "drop_bit 4 (b :: byte) = word_of_int (uint b div 16)"
proof -
  have "uint b div 16 < 2 ^ LENGTH(8)" "0 \<le> uint b div 16"
    using unsigned_less[of b, where 'a = int] by (auto simp: pos_imp_zdiv_nonneg_iff)
  then have "uint (word_of_int (uint b div 16) :: byte) = uint b div 16" by (intro uint_of_small)
  then show ?thesis by (simp only: word_uint_eq_iff uint_drop_bit) simp
qed

lemma low_nibble: "(b :: byte) AND 0x0f = word_of_int (uint b mod 16)"
proof -
  have "(b AND 0x0f) = take_bit 4 b" by (simp add: take_bit_eq_mask mask_eq_exp_minus_1)
  moreover have "uint (take_bit 4 b) = uint b mod 16" by (subst unsigned_take_bit_eq) (simp add: take_bit_eq_mod)
  moreover have "uint (word_of_int (uint b mod 16) :: byte) = uint b mod 16"
    by (rule uint_of_small) (auto intro: order_less_trans[OF pos_mod_bound])
  ultimately show ?thesis by (simp only: word_uint_eq_iff)
qed

lemma nibble_ranges: "0 \<le> uint (b :: byte) div 16" "uint b div 16 < 16" "0 \<le> uint b mod 16" "uint b mod 16 < 16"
  using unsigned_less[of b, where 'a = int] by (auto simp: pos_imp_zdiv_nonneg_iff)

lemma hex_encode_digits:
  "hex_encode (b # bs) = hex_char (uint b div 16) # hex_char (uint b mod 16) # hex_encode bs"
  by (simp only: hex_encode.simps high_nibble low_nibble hex_digits(1) nibble_ranges)

lemma hex32_encode: "hex32 bs = hex_encode bs"
  by (induction bs) (simp_all add: hex32_def hex_encode_digits del: hex_encode.simps(2))

lemma length_hex_encode [simp]: "length (hex_encode bs) = 2 * length bs"
  by (induction bs) auto

lemma hex_encode_chars: "c \<in> set (hex_encode bs) \<Longrightarrow> is_hex_char c"
  by (induction bs) (auto simp: hex_encode_digits hex_digits nibble_ranges simp del: hex_encode.simps(2))

definition pair_byte :: "byte \<times> byte \<Rightarrow> byte" where
  "pair_byte p = ucast (decode_pair (fst p) (snd p))"

definition hex_pair :: "byte \<times> byte \<Rightarrow> bool" where
  "hex_pair p \<longleftrightarrow> is_hex_char (fst p) \<and> is_hex_char (snd p)"

lemma decode_loop_out: "fst (decode_loop cs err out) = out @ map pair_byte cs"
  by (induction cs err out rule: decode_loop.induct) (auto simp: Let_def pair_byte_def)

lemma or_zero_iff: "(x OR y = 0) \<longleftrightarrow> x = 0 \<and> y = (0 :: 16 word)"
  by (simp add: or_eq_0_iff)

lemma decode_loop_err: "snd (decode_loop cs err out) = 0 \<longleftrightarrow> err = 0 \<and> list_all hex_pair cs"
proof (induction cs err out rule: decode_loop.induct)
  case (2 c d cs err out)
  show ?case
    using 2 decode_pair_good[of c d] decode_pair_bad[of c d]
    by (auto simp: Let_def hex_pair_def or_zero_iff)
qed simp

lemma decode_inner_eq:
  "decode_to_slice_inner cs n =
    (if length cs \<noteq> n then Inl BadOutputLength
     else if list_all hex_pair cs then Inr (map pair_byte cs) else Inl InvalidCharacter)"
  using decode_loop_err[of cs 0 "[]"] decode_loop_out[of cs 0 "[]"]
  by (cases "decode_loop cs 0 []") (auto simp: decode_to_slice_inner_def)

fun unchunk :: "(byte \<times> byte) list \<Rightarrow> bytes" where
  "unchunk [] = []"
| "unchunk ((c, d) # cs) = c # d # unchunk cs"

lemma chunks_unchunk: "hex_str_to_chunks (unchunk cs) = Inr cs"
  by (induction cs rule: unchunk.induct) auto

lemma chunks_even: "even (length s) \<Longrightarrow> \<exists>cs. s = unchunk cs"
proof (induction s rule: hex_str_to_chunks.induct)
  case 1
  show ?case by (rule exI[of _ "[]"]) simp
next
  case (3 c d s)
  then obtain cs where "s = unchunk cs" by auto
  then have "c # d # s = unchunk ((c, d) # cs)" by simp
  then show ?case ..
qed simp

lemma chunks_odd: "odd (length s) \<Longrightarrow> hex_str_to_chunks s = Inl OddInputLength"
  by (induction s rule: hex_str_to_chunks.induct) auto

lemma length_unchunk [simp]: "length (unchunk cs) = 2 * length cs"
  by (induction cs rule: unchunk.induct) auto

lemma unchunk_hex: "list_all hex_pair cs \<longleftrightarrow> list_all is_hex_char (unchunk cs)"
  by (induction cs rule: unchunk.induct) (auto simp: hex_pair_def)

text \<open>What the decoder accepts, and the error it gives otherwise.\<close>

lemma decode_to_slice_cases:
  "decode_to_slice s n =
    (if odd (length s) then Inl OddInputLength
     else if length s \<noteq> 2 * n then Inl BadOutputLength
     else if list_all is_hex_char s then decode_to_slice s (length s div 2)
     else Inl InvalidCharacter)"
proof (cases "odd (length s)")
  case False
  then obtain cs where s: "s = unchunk cs" using chunks_even by blast
  show ?thesis unfolding s by (auto simp: decode_to_slice_def chunks_unchunk decode_inner_eq unchunk_hex)
qed (simp add: decode_to_slice_def chunks_odd)

lemma decode_to_slice_errors:
  "decode_to_slice s n = Inl OddInputLength \<longleftrightarrow> odd (length s)"
  "decode_to_slice s n = Inl BadOutputLength \<longleftrightarrow> even (length s) \<and> length s \<noteq> 2 * n"
  "decode_to_slice s n = Inl InvalidCharacter \<longleftrightarrow> length s = 2 * n \<and> \<not> list_all is_hex_char s"
proof (atomize (full), cases "odd (length s)")
  case False
  then obtain cs where s: "s = unchunk cs" using chunks_even by blast
  show "(decode_to_slice s n = Inl OddInputLength \<longleftrightarrow> odd (length s))
    \<and> (decode_to_slice s n = Inl BadOutputLength \<longleftrightarrow> even (length s) \<and> length s \<noteq> 2 * n)
    \<and> (decode_to_slice s n = Inl InvalidCharacter \<longleftrightarrow> length s = 2 * n \<and> \<not> list_all is_hex_char s)"
    unfolding s by (auto simp: decode_to_slice_def chunks_unchunk decode_inner_eq unchunk_hex)
qed (auto simp: decode_to_slice_def chunks_odd)

lemma pair_byte_hex:
  assumes "hex_pair p"
  shows "uint (pair_byte p) = 16 * hex_value (fst p) + hex_value (snd p)"
proof -
  have r: "0 \<le> 16 * hex_value (fst p) + hex_value (snd p)" "16 * hex_value (fst p) + hex_value (snd p) < 256"
    using assms hex_value_range[of "fst p"] hex_value_range[of "snd p"] by (auto simp: hex_pair_def)
  have "uint (decode_pair (fst p) (snd p)) = 16 * hex_value (fst p) + hex_value (snd p)"
    unfolding decode_pair_hex[OF assms[unfolded hex_pair_def, THEN conjunct1] assms[unfolded hex_pair_def, THEN conjunct2]]
    by (rule uint_of_small) (use r in auto)
  with r show ?thesis by (simp add: pair_byte_def unsigned_ucast_eq take_bit_int_eq_self)
qed

lemma pair_byte_digits:
  assumes "hex_pair p"
  shows "hex_char (uint (pair_byte p) div 16) = fst p" "hex_char (uint (pair_byte p) mod 16) = snd p"
  using pair_byte_hex[OF assms] hex_value_range[of "fst p"] hex_value_range[of "snd p"] assms
    hex_char_table[of "fst p"] hex_char_table[of "snd p"]
  by (auto simp: hex_pair_def)

lemma encode_pairs: "list_all hex_pair cs \<Longrightarrow> hex_encode (map pair_byte cs) = unchunk cs"
  by (induction cs rule: unchunk.induct)
     (auto simp: hex_encode_digits pair_byte_digits simp del: hex_encode.simps(2))

lemma digits_pair:
  "hex_pair (hex_char (uint b div 16), hex_char (uint b mod 16))"
  "pair_byte (hex_char (uint b div 16), hex_char (uint b mod 16)) = b"
proof -
  let ?p = "(hex_char (uint b div 16), hex_char (uint b mod 16))"
  show h: "hex_pair ?p" by (simp add: hex_pair_def hex_digits nibble_ranges)
  have "uint (pair_byte ?p) = uint b"
    by (simp add: pair_byte_hex[OF h] hex_digits nibble_ranges)
  then show "pair_byte ?p = b" by (simp only: word_uint_eq_iff)
qed

lemma encode_unchunk: "\<exists>cs. hex_encode bs = unchunk cs \<and> list_all hex_pair cs \<and> map pair_byte cs = bs"
proof (induction bs)
  case Nil
  show ?case by (rule exI[of _ "[]"]) simp
next
  case (Cons b bs)
  then obtain cs where "hex_encode bs = unchunk cs" "list_all hex_pair cs" "map pair_byte cs = bs" by blast
  then show ?case
    by (intro exI[of _ "(hex_char (uint b div 16), hex_char (uint b mod 16)) # cs"])
       (simp add: hex_encode_digits digits_pair del: hex_encode.simps(2))
qed

lemma decode_to_slice_iff: "decode_to_slice s n = Inr bs \<longleftrightarrow> s = hex_encode bs \<and> length bs = n"
proof
  assume d: "decode_to_slice s n = Inr bs"
  then have "even (length s)" using chunks_odd[of s] by (cases "odd (length s)") (simp_all add: decode_to_slice_def)
  then obtain cs where s: "s = unchunk cs" using chunks_even by blast
  with d have "length cs = n" "list_all hex_pair cs" "bs = map pair_byte cs"
    by (auto simp: decode_to_slice_def chunks_unchunk decode_inner_eq split: if_splits)
  then show "s = hex_encode bs \<and> length bs = n" by (simp add: s encode_pairs)
next
  assume e: "s = hex_encode bs \<and> length bs = n"
  obtain cs where "hex_encode bs = unchunk cs" "list_all hex_pair cs" "map pair_byte cs = bs"
    using encode_unchunk by blast
  with e show "decode_to_slice s n = Inr bs"
    by (auto simp: decode_to_slice_def chunks_unchunk decode_inner_eq)
qed

lemma hex_decode_slice: "hex_decode s = decode_to_slice s (length s div 2)"
proof (cases "odd (length s)")
  case False
  then obtain cs where "s = unchunk cs" using chunks_even by blast
  then show ?thesis by (simp add: hex_decode_def decode_to_slice_def chunks_unchunk)
qed (simp add: hex_decode_def decode_to_slice_def chunks_odd)

lemma hex_decode_iff: "hex_decode s = Inr bs \<longleftrightarrow> s = hex_encode bs"
  by (auto simp: hex_decode_slice decode_to_slice_iff)

lemma hex_encode_inj: "hex_encode bs = hex_encode cs \<Longrightarrow> bs = cs"
  by (metis hex_decode_iff sum.inject(2))

subsection \<open>The compile-time decoder\<close>

lemma unchunk_nth:
  "i < length cs \<Longrightarrow> unchunk cs ! (2 * i) = fst (cs ! i) \<and> unchunk cs ! (2 * i + 1) = snd (cs ! i)"
proof (induction cs arbitrary: i rule: unchunk.induct)
  case (2 c d cs)
  then show ?case by (cases i) auto
qed simp

lemma decode_const_loop_eq:
  "idx \<le> length cs \<Longrightarrow> decode_const_loop (length cs) (unchunk cs) idx err out =
     (let (o', e') = decode_loop (drop idx cs) err out in if e' = 0 then Some o' else None)"
proof (induction "length cs" "unchunk cs" idx err out rule: decode_const_loop.induct)
  case (1 idx err out)
  show ?case
  proof (cases "idx < length cs")
    case True
    obtain c d where cd: "cs ! idx = (c, d)" by fastforce
    with True have dr: "drop idx cs = (c, d) # drop (Suc idx) cs"
      by (metis Cons_nth_drop_Suc)
    from unchunk_nth[OF True] cd have nt: "unchunk cs ! (2 * idx) = c" "unchunk cs ! (2 * idx + 1) = d"
      by auto
    from 1(1)[OF True refl] True show ?thesis
      unfolding dr nt by (subst decode_const_loop.simps) (simp add: Let_def nt nt(2)[simplified] del: decode_const_loop.simps)
  next
    case False
    with 1 show ?thesis by (subst decode_const_loop.simps) simp
  qed
qed

lemma decode_const_slice:
  "decode_const n s = (case decode_to_slice s n of Inl e \<Rightarrow> None | Inr bs \<Rightarrow> Some bs)"
proof (cases "length s = n * 2")
  case True
  then obtain cs where s: "s = unchunk cs" using chunks_even[of s] by auto
  with True have n: "n = length cs" by simp
  show ?thesis
    using decode_const_loop_eq[of 0 cs 0 "[]"]
    by (simp add: decode_const_def decode_to_slice_def s n chunks_unchunk decode_to_slice_inner_def
        split: prod.splits)
next
  case False
  then have "decode_to_slice s n \<noteq> Inr bs" for bs by (auto simp: decode_to_slice_iff)
  with False show ?thesis by (auto simp: decode_const_def split: sum.splits)
qed

end
