(* ===== verification/Freshness.thy ===== *)
theory Freshness
  imports Evm_Calls Hex
begin

section \<open>Freshness of channel state (quid-hop/src/freshness.rs, quid-bridge/src/freshness_ledger.rs)\<close>

text \<open>
  The host owns the disk, so it can serve an old channel monitor at boot. Every persisted monitor
  is therefore filed under its update id with an anchor that the host cannot rewind, and boot
  refuses a monitor that is behind it. This theory has the two traits as locales, the in-memory
  anchor, the anchor over a ledger with its cache, the ledger over the counters of
  \<open>BTCChannels\<close>, the queued ledger with its background committer, and the part of the persister
  and of boot that uses them (quid-hop/src/persister.rs, node.rs).

  Locks are not modelled (a poisoned mutex is a panic elsewhere). The EVM is the parameter of
  the reads and writes: a read sees some view of the chain or fails, a transaction is included or
  lost. A panic inside the committer is contained by the source and is a lost transaction here.
\<close>

datatype fresh_error = RpcFailed | BadChannelId | BadWord | CommitReverted | CommitsStalled | CommitterStopped

datatype Freshness = Fresh | Stale nat nat

definition MANAGER_FRESHNESS_KEY :: bytes where
  "MANAGER_FRESHNESS_KEY = ascii ''channel-manager''"

definition verify_fresh ::
    "('s \<Rightarrow> bytes \<Rightarrow> 's \<times> (fresh_error + nat option)) \<Rightarrow> 's \<Rightarrow> bytes \<Rightarrow> nat \<Rightarrow> 's \<times> (fresh_error + Freshness)" where
  "verify_fresh highest s monitor loaded =
    (case highest s monitor of
       (s', Inl e) \<Rightarrow> (s', Inl e)
     | (s', Inr (Some anchored)) \<Rightarrow> (s', Inr (if loaded < anchored then Stale loaded anchored else Fresh))
     | (s', Inr None) \<Rightarrow> (s', Inr Fresh))"

text \<open>\<open>entry(key).or_insert(0)\<close>\<close>

definition entry0 :: "(bytes \<rightharpoonup> nat) \<Rightarrow> bytes \<Rightarrow> nat" where
  "entry0 m k = (case m k of None \<Rightarrow> 0 | Some v \<Rightarrow> v)"

subsection \<open>Anchors\<close>

definition mem_commit :: "(bytes \<rightharpoonup> nat) \<Rightarrow> bytes \<Rightarrow> nat \<Rightarrow> (bytes \<rightharpoonup> nat) \<times> (fresh_error + unit)" where
  "mem_commit highest monitor update_id =
    (let entry = entry0 highest monitor
     in (highest(monitor \<mapsto> (if update_id > entry then update_id else entry)), Inr ()))"

definition mem_highest :: "(bytes \<rightharpoonup> nat) \<Rightarrow> bytes \<Rightarrow> (bytes \<rightharpoonup> nat) \<times> (fresh_error + nat option)" where
  "mem_highest highest monitor = (highest, Inr (highest monitor))"

record 'l ledger_anchor =
  ledger :: 'l
  cache :: "bytes \<rightharpoonup> nat"

definition anchor_commit ::
    "('l \<Rightarrow> bytes \<Rightarrow> nat \<Rightarrow> 'l \<times> (fresh_error + unit)) \<Rightarrow> 'l ledger_anchor \<Rightarrow> bytes \<Rightarrow> nat \<Rightarrow>
      'l ledger_anchor \<times> (fresh_error + unit)" where
  "anchor_commit store a monitor update_id =
    (let entry = entry0 (cache a) monitor
     in if update_id \<le> entry then (a\<lparr>cache := (cache a)(monitor \<mapsto> entry)\<rparr>, Inr ())
        else let (l, r) = store (ledger a) monitor update_id
             in (a\<lparr>ledger := l, cache := (cache a)(monitor \<mapsto> update_id)\<rparr>, r))"

definition anchor_highest ::
    "('l \<Rightarrow> bytes \<Rightarrow> fresh_error + nat option) \<Rightarrow> 'l ledger_anchor \<Rightarrow> bytes \<Rightarrow>
      'l ledger_anchor \<times> (fresh_error + nat option)" where
  "anchor_highest highest a monitor =
    (case cache a monitor of Some v \<Rightarrow> (a, Inr (Some v))
     | None \<Rightarrow> (case highest (ledger a) monitor of
         Inl e \<Rightarrow> (a, Inl e)
       | Inr None \<Rightarrow> (a, Inr None)
       | Inr (Some u) \<Rightarrow> (a\<lparr>cache := (cache a)(monitor \<mapsto> u)\<rparr>, Inr (Some u))))"

text \<open>A restart: the memory of the process is gone, the ledger is not.\<close>

definition restart :: "'l ledger_anchor \<Rightarrow> 'l ledger_anchor" where
  "restart a = a\<lparr>cache := Map.empty\<rparr>"

subsection \<open>The counters on chain\<close>

record btc_chain =
  freshnessSeq :: "bytes \<Rightarrow> nat"
  managerFreshnessSeq :: "bytes \<Rightarrow> nat"

text \<open>The two entrypoints; \<^const>\<open>None\<close> is a revert. \<open>hop\<close> is \<open>_onlyHop()\<close> of the sender.\<close>

definition commitFreshness :: "bool \<Rightarrow> btc_chain \<Rightarrow> bytes \<Rightarrow> nat \<Rightarrow> btc_chain option" where
  "commitFreshness hop c channelId seq =
    (if \<not> hop then None
     else if seq \<le> freshnessSeq c channelId then None
     else if seq - freshnessSeq c channelId > 1000000 then None
     else Some (c\<lparr>freshnessSeq := (freshnessSeq c)(channelId := seq)\<rparr>))"

definition commitManagerFreshness :: "btc_chain \<Rightarrow> bytes \<Rightarrow> nat \<Rightarrow> btc_chain option" where
  "commitManagerFreshness c sender seq =
    (if seq \<le> managerFreshnessSeq c sender then None
     else if seq - managerFreshnessSeq c sender > 1000000 then None
     else Some (c\<lparr>managerFreshnessSeq := (managerFreshnessSeq c)(sender := seq)\<rparr>))"

text \<open>The hex decoder of the bridge is that of the alloy crate, a parameter.\<close>

definition channel_id_hex :: "(bytes \<Rightarrow> bytes option) \<Rightarrow> bytes \<Rightarrow> fresh_error + bytes" where
  "channel_id_hex alloy_decode monitor =
    (let s = (if take 2 monitor = ascii ''0x'' then drop 2 monitor else monitor)
     in case alloy_decode s of None \<Rightarrow> Inl BadChannelId
        | Some bs \<Rightarrow> if length bs = 32 then Inr bs else Inl BadChannelId)"

record ledger_cfg =
  resolver :: "bytes \<Rightarrow> fresh_error + bytes"
  hop_address :: bytes
  is_hop :: bool

text \<open>The word a read of the monitor's counter returns in a view of the chain.\<close>

definition slot_word :: "ledger_cfg \<Rightarrow> btc_chain \<Rightarrow> bytes \<Rightarrow> fresh_error + bytes" where
  "slot_word cfg c monitor =
    (if monitor = MANAGER_FRESHNESS_KEY then Inr (be_octets 32 (managerFreshnessSeq c (hop_address cfg)))
     else case resolver cfg monitor of Inl e \<Rightarrow> Inl e | Inr cid \<Rightarrow> Inr (be_octets 32 (freshnessSeq c cid)))"

definition ledger_highest :: "ledger_cfg \<Rightarrow> btc_chain option \<Rightarrow> bytes \<Rightarrow> fresh_error + nat option" where
  "ledger_highest cfg view monitor =
    (case view of None \<Rightarrow> Inl RpcFailed
     | Some c \<Rightarrow> (case slot_word cfg c monitor of Inl e \<Rightarrow> Inl e
       | Inr w \<Rightarrow> (case word_to_uint (2 ^ 64 - 1) w of Inl e \<Rightarrow> Inl BadWord
         | Inr seq \<Rightarrow> Inr (if seq = 0 then None else Some seq))))"

definition ledger_store ::
    "ledger_cfg \<Rightarrow> bool \<Rightarrow> btc_chain \<Rightarrow> bytes \<Rightarrow> nat \<Rightarrow> btc_chain \<times> (fresh_error + unit)" where
  "ledger_store cfg included c monitor seq =
    (let send = (\<lambda>r. if \<not> included then (c, Inl RpcFailed)
       else case r of None \<Rightarrow> (c, Inl CommitReverted) | Some c' \<Rightarrow> (c', Inr ()))
     in if monitor = MANAGER_FRESHNESS_KEY then send (commitManagerFreshness c (hop_address cfg) seq)
        else case resolver cfg monitor of Inl e \<Rightarrow> (c, Inl e)
           | Inr cid \<Rightarrow> send (commitFreshness (is_hop cfg) c cid seq))"

subsection \<open>The queued ledger and its committer\<close>

definition MAX_UNCONFIRMED_LAG :: nat where "MAX_UNCONFIRMED_LAG = 128"

definition lag_exceeds_bound :: "nat \<Rightarrow> nat \<Rightarrow> bool" where
  "lag_exceeds_bound seq confirmed \<longleftrightarrow> seq - confirmed > MAX_UNCONFIRMED_LAG"

record queued =
  chain :: btc_chain
  queue :: "(bytes \<times> nat) list"
  confirmed :: "bytes \<rightharpoonup> nat"
  receiving :: bool

definition queued_spawn :: "btc_chain \<Rightarrow> queued" where
  "queued_spawn c = \<lparr>chain = c, queue = [], confirmed = Map.empty, receiving = True\<rparr>"

definition queued_store :: "queued \<Rightarrow> bytes \<Rightarrow> nat \<Rightarrow> queued \<times> (fresh_error + unit)" where
  "queued_store q monitor seq =
    (if lag_exceeds_bound seq (entry0 (confirmed q) monitor) then (q, Inl CommitsStalled)
     else if \<not> receiving q then (q, Inl CommitterStopped)
     else (q\<lparr>queue := queue q @ [(monitor, seq)]\<rparr>, Inr ()))"

text \<open>One item, and what else is queued by then, latest sequence per monitor.\<close>

fun drain_into :: "(bytes \<rightharpoonup> nat) \<Rightarrow> (bytes \<times> nat) list \<Rightarrow> (bytes \<rightharpoonup> nat)" where
  "drain_into latest [] = latest"
| "drain_into latest ((m, s) # items) =
    (let e = entry0 latest m in drain_into (latest(m \<mapsto> (if s > e then s else e))) items)"

definition coalesce :: "(bytes \<times> nat) list \<Rightarrow> (bytes \<rightharpoonup> nat)" where
  "coalesce items = (case items of [] \<Rightarrow> Map.empty
     | (m, s) # rest \<Rightarrow> drain_into (Map.empty(m \<mapsto> s)) rest)"

definition commit_one ::
    "ledger_cfg \<Rightarrow> bool \<Rightarrow> bytes \<Rightarrow> nat \<Rightarrow> btc_chain \<times> (bytes \<rightharpoonup> nat) \<Rightarrow> btc_chain \<times> (bytes \<rightharpoonup> nat)" where
  "commit_one cfg included monitor seq st =
    (case ledger_store cfg included (fst st) monitor seq of
       (c, Inr _) \<Rightarrow> (c, (snd st)(monitor \<mapsto> (let e = entry0 (snd st) monitor in if seq > e then seq else e)))
     | (c, Inl _) \<Rightarrow> (c, snd st))"

text \<open>The loop over the map; \<open>order\<close> is the order the hash map is walked in.\<close>

fun commit_all ::
    "ledger_cfg \<Rightarrow> (bytes \<Rightarrow> bool) \<Rightarrow> (bytes \<rightharpoonup> nat) \<Rightarrow> bytes list \<Rightarrow> btc_chain \<times> (bytes \<rightharpoonup> nat) \<Rightarrow>
      btc_chain \<times> (bytes \<rightharpoonup> nat)" where
  "commit_all cfg included latest [] st = st"
| "commit_all cfg included latest (m # order) st =
    commit_all cfg included latest order (commit_one cfg (included m) m (entry0 latest m) st)"

definition committer_round ::
    "ledger_cfg \<Rightarrow> (bytes \<Rightarrow> bool) \<Rightarrow> bytes list \<Rightarrow> nat \<Rightarrow> queued \<Rightarrow> queued" where
  "committer_round cfg included order n q =
    (let (c, conf) = commit_all cfg included (coalesce (take n (queue q))) order (chain q, confirmed q)
     in q\<lparr>chain := c, confirmed := conf, queue := drop n (queue q)\<rparr>)"

subsection \<open>Persisting and booting\<close>

datatype UpdateStatus = Completed | InProgress

record hop_node =
  anchor :: "queued ledger_anchor"
  shutdown :: bool
  manager_seq :: nat

text \<open>\<open>ffs.write\<close> is tried three times; \<open>writes\<close> is what each attempt returned.\<close>

definition write_monitor ::
    "bool list \<Rightarrow> bytes option \<Rightarrow> nat \<Rightarrow> hop_node \<Rightarrow> hop_node \<times> UpdateStatus" where
  "write_monitor writes monitor_cid update_id n =
    (if True \<in> set (take 3 writes) then
       case monitor_cid of None \<Rightarrow> (n, Completed)
       | Some oc \<Rightarrow> (case anchor_commit queued_store (anchor n) (hex32 oc) update_id of
           (a, Inl e) \<Rightarrow> (n\<lparr>anchor := a, shutdown := True\<rparr>, InProgress)
         | (a, Inr _) \<Rightarrow> (n\<lparr>anchor := a\<rparr>, Completed))
     else (n\<lparr>shutdown := True\<rparr>, InProgress))"

text \<open>The manager blob carries its sequence in front, inside the seal.\<close>

definition manager_blob :: "nat \<Rightarrow> bytes \<Rightarrow> bytes" where
  "manager_blob seq manager = le_octets 8 seq @ manager"

definition persist_manager :: "bool \<Rightarrow> bytes \<Rightarrow> hop_node \<Rightarrow> hop_node \<times> bytes \<times> bool" where
  "persist_manager upsert_ok manager n =
    (let seq = manager_seq n + 1; n = n\<lparr>manager_seq := seq\<rparr>; blob = manager_blob seq manager
     in if \<not> upsert_ok then (n, blob, False)
        else case anchor_commit queued_store (anchor n) MANAGER_FRESHNESS_KEY seq of
          (a, Inl e) \<Rightarrow> (n\<lparr>anchor := a, shutdown := True\<rparr>, blob, False)
        | (a, Inr _) \<Rightarrow> (n\<lparr>anchor := a\<rparr>, blob, True))"

type_synonym loads = "(bytes option \<times> nat) list"

text \<open>Boot checks each monitor the host served; a stale one or an unreadable anchor ends it.\<close>

fun boot_monitors :: "ledger_cfg \<Rightarrow> btc_chain option \<Rightarrow> loads \<Rightarrow> queued ledger_anchor \<Rightarrow> queued ledger_anchor option" where
  "boot_monitors cfg view [] a = Some a"
| "boot_monitors cfg view ((None, update_id) # ms) a = boot_monitors cfg view ms a"
| "boot_monitors cfg view ((Some oc, update_id) # ms) a =
    (case verify_fresh (anchor_highest (\<lambda>q. ledger_highest cfg view)) a (hex32 oc) update_id of
       (a', Inr Fresh) \<Rightarrow> boot_monitors cfg view ms a'
     | _ \<Rightarrow> None)"

definition boot_manager ::
    "ledger_cfg \<Rightarrow> btc_chain option \<Rightarrow> bytes option \<Rightarrow> queued ledger_anchor \<Rightarrow> (queued ledger_anchor \<times> nat) option" where
  "boot_manager cfg view framed a =
    (case framed of None \<Rightarrow> Some (a, 0)
     | Some bs \<Rightarrow> if length bs < 8 then None
       else let seq = le_nat (take 8 bs)
            in case verify_fresh (anchor_highest (\<lambda>q. ledger_highest cfg view)) a MANAGER_FRESHNESS_KEY seq of
                 (a', Inr Fresh) \<Rightarrow> Some (a', seq)
               | _ \<Rightarrow> None)"

definition boot :: "ledger_cfg \<Rightarrow> btc_chain option \<Rightarrow> loads \<Rightarrow> bytes option \<Rightarrow> btc_chain \<Rightarrow> hop_node option" where
  "boot cfg view ms framed c = do {
     a \<leftarrow> boot_monitors cfg view ms \<lparr>ledger = queued_spawn c, cache = Map.empty\<rparr>;
     (a, seq) \<leftarrow> boot_manager cfg view framed a;
     Some \<lparr>anchor = a, shutdown = False, manager_seq = seq\<rparr>
   }"

subsection \<open>The traits\<close>

text \<open>
  \<open>FreshnessAnchor\<close>: what the running process remembers (\<open>known\<close>) covers every id whose commit
  succeeded, never regresses, and is what \<open>highest\<close> answers.
\<close>

locale freshness_anchor =
  fixes commit :: "'s \<Rightarrow> bytes \<Rightarrow> nat \<Rightarrow> 's \<times> (fresh_error + unit)"
    and highest :: "'s \<Rightarrow> bytes \<Rightarrow> 's \<times> (fresh_error + nat option)"
    and known :: "'s \<Rightarrow> bytes \<Rightarrow> nat option"
  assumes commit_known: "commit s m i = (s', Inr ()) \<Longrightarrow> \<exists>v\<ge>i. known s' m = Some v"
    and known_mono: "known s m = Some v \<Longrightarrow> \<exists>w\<ge>v. known (fst (commit s k i)) m = Some w"
    and known_highest: "known s m = Some v \<Longrightarrow> highest s m = (s, Inr (Some v))"
begin

lemma known_runs: "known s m = Some v \<Longrightarrow> \<exists>w\<ge>v. known (fold (\<lambda>(k, i) s. fst (commit s k i)) cs s) m = Some w"
proof (induction cs arbitrary: s v)
  case (Cons c cs)
  obtain k i where c: "c = (k, i)" by fastforce
  from known_mono[OF Cons(2), of k i] obtain w where "v \<le> w" "known (fst (commit s k i)) m = Some w" by blast
  with Cons(1)[OF this(2)] show ?case by (force simp: c)
qed auto

text \<open>After a successful commit, whatever is committed later, an older monitor is refused.\<close>

lemma rollback_refused:
  assumes "commit s m i = (s', Inr ())" "loaded < i"
  shows "\<exists>v. verify_fresh highest (fold (\<lambda>(k, j) s. fst (commit s k j)) cs s') m loaded
    = (fold (\<lambda>(k, j) s. fst (commit s k j)) cs s', Inr (Stale loaded v)) \<and> i \<le> v"
proof -
  from commit_known[OF assms(1)] obtain v where v: "i \<le> v" "known s' m = Some v" by blast
  from known_runs[OF v(2), of cs] obtain w where
    "v \<le> w" "known (fold (\<lambda>(k, j) s. fst (commit s k j)) cs s') m = Some w" by blast
  with v(1) assms(2) known_highest[OF this(2)] show ?thesis
    by (intro exI[of _ w]) (simp add: verify_fresh_def)
qed

end

text \<open>
  \<open>FreshnessLedger\<close>: a store that returned Ok is what later reads attest, for the 64-bit
  sequences the trait has.
\<close>

locale freshness_ledger =
  fixes store :: "'l \<Rightarrow> bytes \<Rightarrow> nat \<Rightarrow> 'l \<times> (fresh_error + unit)"
    and attests :: "'l \<Rightarrow> bytes \<Rightarrow> fresh_error + nat option"
  assumes store_attested: "i < 2 ^ 64 \<Longrightarrow> store l m i = (l', Inr ()) \<Longrightarrow> \<exists>v\<ge>i. attests l' m = Inr (Some v)"
    and attests_mono: "i < 2 ^ 64 \<Longrightarrow> attests l m = Inr (Some v) \<Longrightarrow>
      \<exists>w\<ge>v. attests (fst (store l k i)) m = Inr (Some w)"
begin

lemma attests_runs:
  "\<forall>(k, i) \<in> set cs. i < 2 ^ 64 \<Longrightarrow> attests l m = Inr (Some v) \<Longrightarrow>
    \<exists>w\<ge>v. attests (fold (\<lambda>(k, i) l. fst (store l k i)) cs l) m = Inr (Some w)"
proof (induction cs arbitrary: l v)
  case (Cons c cs)
  obtain k i where c: "c = (k, i)" by fastforce
  with attests_mono[OF _ Cons(3), of i k] Cons(2) obtain w where
    "v \<le> w" "attests (fst (store l k i)) m = Inr (Some w)" by auto
  with Cons(1)[OF _ this(2)] Cons(2) show ?case by (force simp: c)
qed auto

text \<open>
  A commit that wrote the ledger survives a restart: with the memory gone and any stores in
  between, an older monitor is refused.
\<close>

lemma restart_refuses:
  assumes "anchor_commit store a m i = (a', Inr ())" "entry0 (cache a) m < i" "i < 2 ^ 64" "loaded < i"
    and "ledger b = fold (\<lambda>(k, j) l. fst (store l k j)) cs (ledger a')" "\<forall>(k, j) \<in> set cs. j < 2 ^ 64"
  shows "\<exists>v b'. verify_fresh (anchor_highest attests) (restart b) m loaded = (b', Inr (Stale loaded v)) \<and> i \<le> v"
proof -
  obtain l where s: "store (ledger a) m i = (l, Inr ())" "ledger a' = l"
    using assms(1,2) by (auto simp: anchor_commit_def Let_def split: prod.splits if_splits)
  from store_attested[OF assms(3) s(1)] obtain v where v: "i \<le> v" "attests l m = Inr (Some v)" by blast
  from attests_runs[OF assms(6) v(2)] assms(5) s(2) obtain w where w: "v \<le> w" "attests (ledger b) m = Inr (Some w)"
    by auto
  with v(1) assms(4) show ?thesis
    by (intro exI[of _ w]) (simp add: verify_fresh_def anchor_highest_def restart_def)
qed

end

interpretation mem: freshness_anchor mem_commit mem_highest "\<lambda>s. s"
  by unfold_locales (auto simp: mem_commit_def mem_highest_def entry0_def Let_def split: if_splits option.splits)

lemma anchor_commit_cache:
  "anchor_commit store a m i = (a', r) \<Longrightarrow> cache a' = (cache a)(m \<mapsto> max i (entry0 (cache a) m))"
  by (auto simp: anchor_commit_def Let_def max_def split: prod.splits if_splits)

text \<open>The anchor over a ledger keeps the contract of an anchor, whatever the ledger does.\<close>

interpretation ledgered: freshness_anchor "anchor_commit store" "anchor_highest attests" cache
  for store :: "'l \<Rightarrow> bytes \<Rightarrow> nat \<Rightarrow> 'l \<times> (fresh_error + unit)"
    and attests :: "'l \<Rightarrow> bytes \<Rightarrow> fresh_error + nat option"
proof
  fix s s' :: "'l ledger_anchor" and m i
  assume "anchor_commit store s m i = (s', Inr ())"
  from anchor_commit_cache[OF this] show "\<exists>v\<ge>i. cache s' m = Some v" by auto
next
  fix s :: "'l ledger_anchor" and m v k i
  assume "cache s m = Some v"
  moreover obtain s' r where "anchor_commit store s k i = (s', r)" by fastforce
  ultimately show "\<exists>w\<ge>v. cache (fst (anchor_commit store s k i)) m = Some w"
    using anchor_commit_cache[of store s k i s' r] by (auto simp: entry0_def)
next
  fix s :: "'l ledger_anchor" and m v
  assume "cache s m = Some v"
  then show "anchor_highest attests s m = (s, Inr (Some v))" by (simp add: anchor_highest_def)
qed

subsection \<open>The ledger on chain\<close>

text \<open>The counter of a monitor; a key that names no channel has none.\<close>

definition counter :: "ledger_cfg \<Rightarrow> btc_chain \<Rightarrow> bytes \<Rightarrow> nat" where
  "counter cfg c m =
    (if m = MANAGER_FRESHNESS_KEY then managerFreshnessSeq c (hop_address cfg)
     else case resolver cfg m of Inl e \<Rightarrow> 0 | Inr cid \<Rightarrow> freshnessSeq c cid)"

lemma ledger_highest_counter:
  assumes "ledger_highest cfg (Some c) m = Inr r"
  shows "entry0 (\<lambda>_. r) m = counter cfg c m mod 256 ^ 32" "r = Some v \<Longrightarrow> v = counter cfg c m mod 256 ^ 32"
  using assms
  by (auto simp: ledger_highest_def slot_word_def counter_def word_to_uint_def subrange_def entry0_def
      be_value_be_bytes split: sum.splits if_splits)

lemma ledger_highest_exact:
  assumes "slot_word cfg c m = Inr w" "counter cfg c m < 2 ^ 64"
  shows "ledger_highest cfg (Some c) m = Inr (if counter cfg c m = 0 then None else Some (counter cfg c m))"
proof -
  have "w = be_octets 32 (counter cfg c m)" using assms(1)
    by (auto simp: slot_word_def counter_def split: sum.splits if_splits)
  moreover have "counter cfg c m < 256 ^ 32" by (rule less_trans[OF assms(2)]) simp
  ultimately show ?thesis using assms
    by (simp add: ledger_highest_def word_to_uint_def subrange_def be_value_exact)
qed

lemma ledger_store_cases:
  assumes "ledger_store cfg inc c m i = (c', r)"
  shows "(\<forall>k. counter cfg c k \<le> counter cfg c' k) \<and> (r = Inr () \<longrightarrow> counter cfg c' m = i \<and> counter cfg c m < i)
    \<and> (r \<noteq> Inr () \<longrightarrow> c' = c) \<and> (\<forall>k. counter cfg c' k = counter cfg c k \<or> counter cfg c' k = i)"
  using assms
  by (auto simp: ledger_store_def commitFreshness_def commitManagerFreshness_def counter_def Let_def
      split: sum.splits if_splits option.splits)

lemma slot_word_store: "(\<exists>w. slot_word cfg c m = Inr w) \<longleftrightarrow> (\<exists>w. slot_word cfg c' m = Inr w)"
  by (auto simp: slot_word_def split: sum.splits if_splits)

lemma slot_word_counter: "counter cfg c m = counter cfg c' m \<Longrightarrow> slot_word cfg c m = slot_word cfg c' m"
  by (auto simp: slot_word_def counter_def split: sum.splits if_splits)

lemma ledger_highest_same:
  "counter cfg c m = counter cfg c' m \<Longrightarrow> ledger_highest cfg (Some c) m = ledger_highest cfg (Some c') m"
  using slot_word_counter[of cfg c m c'] by (simp add: ledger_highest_def)

lemma ledger_highest_raised:
  assumes "ledger_store cfg inc c m' i = (c', r)" "counter cfg c' m = i" "0 < i" "i < 2 ^ 64"
    and "\<exists>w. slot_word cfg c m = Inr w"
  shows "ledger_highest cfg (Some c') m = Inr (Some i)"
proof -
  obtain w where "slot_word cfg c' m = Inr w" using assms(5) slot_word_store by blast
  from ledger_highest_exact[OF this] assms(2-4) show ?thesis by simp
qed

interpretation btc: freshness_ledger "ledger_store cfg included" "\<lambda>c. ledger_highest cfg (Some c)"
  for cfg :: ledger_cfg and included :: bool
proof
  fix i :: nat and l m l'
  assume "i < 2 ^ 64" and st: "ledger_store cfg included l m i = (l', Inr ())"
  moreover have "\<exists>w. slot_word cfg l m = Inr w"
    using st by (auto simp: ledger_store_def slot_word_def Let_def split: sum.splits if_splits option.splits)
  ultimately show "\<exists>v\<ge>i. ledger_highest cfg (Some l') m = Inr (Some v)"
    using ledger_store_cases[OF st] ledger_highest_raised[OF st, of m] by auto
next
  fix i :: nat and l m v k
  assume i: "i < 2 ^ 64" and a: "ledger_highest cfg (Some l) m = Inr (Some v)"
  obtain l' r where st: "ledger_store cfg included l k i = (l', r)" by fastforce
  show "\<exists>w\<ge>v. ledger_highest cfg (Some (fst (ledger_store cfg included l k i))) m = Inr (Some w)"
  proof (cases "counter cfg l' m = counter cfg l m")
    case True
    then show ?thesis using ledger_highest_same[of cfg l' m l] a by (simp add: st)
  next
    case False
    have "counter cfg l m \<le> counter cfg l' m" "counter cfg l' m = counter cfg l m \<or> counter cfg l' m = i"
      using ledger_store_cases[OF st] by blast+
    with False have c: "counter cfg l' m = i" "counter cfg l m < i" by auto
    have "v = counter cfg l m mod 256 ^ 32" using ledger_highest_counter(2)[OF a] by simp
    with c(2) have "v \<le> i" by (metis less_imp_le mod_less_eq_dividend order_trans)
    moreover have "\<exists>w. slot_word cfg l m = Inr w"
      using a by (auto simp: ledger_highest_def split: sum.splits)
    ultimately show ?thesis using ledger_highest_raised[OF st c(1)] c(2) i by (auto simp: st)
  qed
qed

text \<open>
  Two ways in which the anchor over a ledger falls short of the trait. A commit that failed is
  remembered as done: the same id is then reported as committed although the ledger was never
  written. And a commit of an old id, in a process that has not read the ledger for that monitor,
  replaces what \<open>highest\<close> would have answered.
\<close>

lemma failed_commit_forgotten:
  assumes "anchor_commit store a m i = (a', Inl e)"
  shows "anchor_commit store a' m i = (a', Inr ())"
  using anchor_commit_cache[OF assms] assms
  by (auto simp: anchor_commit_def Let_def entry0_def max_def fun_upd_idem split: prod.splits if_splits)

lemma cold_commit_masks:
  assumes "cache a m = None" "0 < i" "store (ledger a) m i = (ledger a, Inl e)" "attests (ledger a) m = Inr (Some v)"
    and "anchor_commit store a m i = (a', r)"
  shows "snd (anchor_highest attests a m) = Inr (Some v)" "anchor_highest attests a' m = (a', Inr (Some i))"
  using assms by (auto simp: anchor_highest_def anchor_commit_def entry0_def)

subsection \<open>The node: persist, commit in the background, restart\<close>

text \<open>
  The history of a node under a hostile host. The host chooses which transactions are included,
  when the committer runs and how much it drains, when the node is restarted, and which monitors
  and which older view of the chain it is restarted on. \<open>acked\<close> records, per monitor, the highest
  update id for which the persister reported \<^const>\<open>Completed\<close>. A node that has signalled its own
  shutdown persists nothing more.
\<close>

record history =
  node :: hop_node
  acked :: "bytes \<Rightarrow> nat"

definition node_chain :: "hop_node \<Rightarrow> btc_chain" where
  "node_chain n = chain (ledger (anchor n))"

definition older_view :: "ledger_cfg \<Rightarrow> btc_chain option \<Rightarrow> btc_chain \<Rightarrow> bool" where
  "older_view cfg view c \<longleftrightarrow> (case view of None \<Rightarrow> True | Some c' \<Rightarrow> \<forall>m. counter cfg c' m \<le> counter cfg c m)"

inductive node_step :: "ledger_cfg \<Rightarrow> history \<Rightarrow> history \<Rightarrow> bool" for cfg where
  persisted: "\<not> shutdown (node h) \<Longrightarrow> write_monitor writes (Some oc) i (node h) = (n, Completed) \<Longrightarrow>
    node_step cfg h \<lparr>node = n, acked = (acked h)(hex32 oc := max i (acked h (hex32 oc)))\<rparr>"
| refused: "\<not> shutdown (node h) \<Longrightarrow> write_monitor writes oc i (node h) = (n, InProgress) \<Longrightarrow>
    node_step cfg h (h\<lparr>node := n\<rparr>)"
| manager: "\<not> shutdown (node h) \<Longrightarrow> persist_manager upsert blob (node h) = (n, sealed, True) \<Longrightarrow>
    node_step cfg h \<lparr>node = n, acked =
      (acked h)(MANAGER_FRESHNESS_KEY := max (manager_seq n) (acked h MANAGER_FRESHNESS_KEY))\<rparr>"
| manager_refused: "\<not> shutdown (node h) \<Longrightarrow> persist_manager upsert blob (node h) = (n, sealed, False) \<Longrightarrow>
    node_step cfg h (h\<lparr>node := n\<rparr>)"
| committed: "receiving (ledger (anchor (node h))) \<Longrightarrow> 0 < k \<Longrightarrow> k \<le> length (queue (ledger (anchor (node h)))) \<Longrightarrow>
    distinct order \<Longrightarrow> set order = dom (coalesce (take k (queue (ledger (anchor (node h)))))) \<Longrightarrow>
    q = committer_round cfg included order k (ledger (anchor (node h))) \<Longrightarrow>
    node_step cfg h (h\<lparr>node := (node h)\<lparr>anchor := (anchor (node h))\<lparr>ledger := q\<rparr>\<rparr>\<rparr>)"
| committer_gone: "q = (ledger (anchor (node h)))\<lparr>receiving := False\<rparr> \<Longrightarrow>
    node_step cfg h (h\<lparr>node := (node h)\<lparr>anchor := (anchor (node h))\<lparr>ledger := q\<rparr>\<rparr>\<rparr>)"
| rebooted: "older_view cfg view (node_chain (node h)) \<Longrightarrow> boot cfg view ms framed (node_chain (node h)) = Some n \<Longrightarrow>
    node_step cfg h (h\<lparr>node := n\<rparr>)"

inductive node_reach :: "ledger_cfg \<Rightarrow> history \<Rightarrow> bool" for cfg where
  init: "older_view cfg view c \<Longrightarrow> boot cfg view ms framed c = Some n \<Longrightarrow> node_reach cfg \<lparr>node = n, acked = (\<lambda>_. 0)\<rparr>"
| step: "node_reach cfg h \<Longrightarrow> node_step cfg h h' \<Longrightarrow> node_reach cfg h'"

definition node_inv :: "ledger_cfg \<Rightarrow> history \<Rightarrow> bool" where
  "node_inv cfg h \<longleftrightarrow> (let a = anchor (node h); c = chain (ledger a) in \<forall>m.
     (\<forall>v. confirmed (ledger a) m = Some v \<longrightarrow> v \<le> counter cfg c m)
     \<and> acked h m \<le> counter cfg c m + MAX_UNCONFIRMED_LAG
     \<and> (\<not> shutdown (node h) \<longrightarrow> (\<forall>v. cache a m = Some v \<longrightarrow> v \<le> counter cfg c m + MAX_UNCONFIRMED_LAG)))"

text \<open>A successful commit files an id that the chain is at most the lag behind.\<close>

lemma queued_commit:
  assumes "anchor_commit queued_store a m i = (a', r)"
    and "\<And>v. confirmed (ledger a) m = Some v \<Longrightarrow> v \<le> counter cfg (chain (ledger a)) m"
    and "\<And>v. cache a m = Some v \<Longrightarrow> v \<le> counter cfg (chain (ledger a)) m + MAX_UNCONFIRMED_LAG"
  shows "chain (ledger a') = chain (ledger a)" "confirmed (ledger a') = confirmed (ledger a)"
    and "cache a' = (cache a)(m \<mapsto> max i (entry0 (cache a) m))"
    and "r = Inr () \<Longrightarrow> max i (entry0 (cache a) m) \<le> counter cfg (chain (ledger a)) m + MAX_UNCONFIRMED_LAG"
proof -
  show "chain (ledger a') = chain (ledger a)" "confirmed (ledger a') = confirmed (ledger a)"
    using assms(1) by (auto simp: anchor_commit_def queued_store_def Let_def split: prod.splits if_splits)
  show "cache a' = (cache a)(m \<mapsto> max i (entry0 (cache a) m))" by (rule anchor_commit_cache[OF assms(1)])
  have e: "entry0 (cache a) m \<le> counter cfg (chain (ledger a)) m + MAX_UNCONFIRMED_LAG"
    "entry0 (confirmed (ledger a)) m \<le> counter cfg (chain (ledger a)) m"
    using assms(2,3) by (auto simp: entry0_def split: option.splits)
  assume "r = Inr ()"
  then have "i \<le> entry0 (cache a) m \<or> \<not> lag_exceeds_bound i (entry0 (confirmed (ledger a)) m)"
    using assms(1) by (auto simp: anchor_commit_def queued_store_def Let_def split: prod.splits if_splits)
  with e show "max i (entry0 (cache a) m) \<le> counter cfg (chain (ledger a)) m + MAX_UNCONFIRMED_LAG"
    by (auto simp: lag_exceeds_bound_def)
qed

lemma commit_one_props:
  assumes "commit_one cfg inc m i (c, conf) = (c', conf')" "\<And>k v. conf k = Some v \<Longrightarrow> v \<le> counter cfg c k"
  shows "\<forall>k. counter cfg c k \<le> counter cfg c' k" "\<forall>k v. conf' k = Some v \<longrightarrow> v \<le> counter cfg c' k"
proof -
  obtain c1 r where st: "ledger_store cfg inc c m i = (c1, r)" by fastforce
  note cs = ledger_store_cases[OF st]
  have c': "c' = c1" using assms(1) st by (auto simp: commit_one_def split: sum.splits)
  show g: "\<forall>k. counter cfg c k \<le> counter cfg c' k" using cs c' by blast
  show "\<forall>k v. conf' k = Some v \<longrightarrow> v \<le> counter cfg c' k"
  proof (intro allI impI)
    fix k v assume v: "conf' k = Some v"
    show "v \<le> counter cfg c' k"
    proof (cases r)
      case (Inl e)
      then have "conf' = conf" using assms(1) st by (simp add: commit_one_def)
      with v assms(2) g show ?thesis by (metis order_trans)
    next
      case (Inr u)
      then have cf: "conf' = conf(m \<mapsto> max i (entry0 conf m))" and cm: "counter cfg c' m = i"
        using assms(1) st cs c' by (auto simp: commit_one_def Let_def max_def)
      show ?thesis
      proof (cases "k = m")
        case True
        have "entry0 conf m \<le> counter cfg c m" using assms(2)[of m] by (auto simp: entry0_def split: option.splits)
        with g have "entry0 conf m \<le> i" using cm by (metis order_trans)
        with v True cf cm show ?thesis by auto
      next
        case False
        with v cf assms(2)[of k v] g show ?thesis by (metis fun_upd_other order_trans)
      qed
    qed
  qed
qed

lemma commit_all_props:
  assumes "commit_all cfg inc latest order (c, conf) = (c', conf')" "\<And>k v. conf k = Some v \<Longrightarrow> v \<le> counter cfg c k"
  shows "(\<forall>k. counter cfg c k \<le> counter cfg c' k) \<and> (\<forall>k v. conf' k = Some v \<longrightarrow> v \<le> counter cfg c' k)"
  using assms
proof (induction order arbitrary: c conf)
  case (Cons m order)
  obtain c1 conf1 where o: "commit_one cfg (inc m) m (entry0 latest m) (c, conf) = (c1, conf1)" by fastforce
  note p = commit_one_props[OF o Cons(3)]
  have "(\<forall>k. counter cfg c1 k \<le> counter cfg c' k) \<and> (\<forall>k v. conf' k = Some v \<longrightarrow> v \<le> counter cfg c' k)"
    using Cons(1)[of c1 conf1] Cons(2) o p(2) by simp
  with p(1) show ?case by (meson order_trans)
qed simp

text \<open>What boot leaves in the cache, and what it has checked.\<close>

definition reads_view :: "ledger_cfg \<Rightarrow> btc_chain option \<Rightarrow> queued ledger_anchor \<Rightarrow> bool" where
  "reads_view cfg view a \<longleftrightarrow>
    (\<forall>m v. cache a m = Some v \<longrightarrow> (\<exists>c. view = Some c \<and> ledger_highest cfg (Some c) m = Inr (Some v)))"

lemma verify_fresh_cases:
  assumes "verify_fresh (anchor_highest attests) a m loaded = (a', Inr Fresh)"
  obtains (cached) v where "cache a m = Some v" "a' = a" "v \<le> loaded"
    | (unseen) "cache a m = None" "attests (ledger a) m = Inr None" "a' = a"
    | (read) u where "cache a m = None" "attests (ledger a) m = Inr (Some u)" "u \<le> loaded"
        "a' = a\<lparr>cache := (cache a)(m \<mapsto> u)\<rparr>"
  using assms
  by (cases "cache a m"; cases "attests (ledger a) m")
     (auto simp: verify_fresh_def anchor_highest_def split: option.splits if_splits)

lemma ledger_highest_view: "ledger_highest cfg view m = Inr r \<Longrightarrow> \<exists>c. view = Some c \<and> ledger_highest cfg (Some c) m = Inr r"
  by (cases view) (auto simp: ledger_highest_def)

lemma verify_view:
  assumes "verify_fresh (anchor_highest (\<lambda>q. ledger_highest cfg view)) a m loaded = (a', Inr Fresh)" "reads_view cfg view a"
  shows "reads_view cfg view a'" "ledger a' = ledger a"
    and "\<exists>c r. view = Some c \<and> ledger_highest cfg (Some c) m = Inr r \<and> entry0 (\<lambda>_. r) m \<le> loaded"
proof -
  from assms(1) show "reads_view cfg view a'"
  proof (cases rule: verify_fresh_cases)
    case (read u)
    with ledger_highest_view[OF read(2)] assms(2) show ?thesis by (auto simp: reads_view_def)
  qed (use assms(2) in auto)
  from assms(1) show "ledger a' = ledger a" by (cases rule: verify_fresh_cases) auto
  from assms(1) show "\<exists>c r. view = Some c \<and> ledger_highest cfg (Some c) m = Inr r \<and> entry0 (\<lambda>_. r) m \<le> loaded"
  proof (cases rule: verify_fresh_cases)
    case (cached v)
    with assms(2) obtain c where "view = Some c" "ledger_highest cfg (Some c) m = Inr (Some v)"
      by (auto simp: reads_view_def)
    with cached show ?thesis by (auto simp: entry0_def)
  next
    case unseen
    with ledger_highest_view[OF unseen(2)] show ?thesis by (auto simp: entry0_def)
  next
    case (read u)
    with ledger_highest_view[OF read(2)] show ?thesis by (auto simp: entry0_def)
  qed
qed

lemma boot_monitors_checked:
  assumes "boot_monitors cfg view ms a = Some a'" "reads_view cfg view a"
  shows "reads_view cfg view a' \<and> ledger a' = ledger a \<and> (\<forall>oc i. (Some oc, i) \<in> set ms \<longrightarrow>
    (\<exists>c r. view = Some c \<and> ledger_highest cfg (Some c) (hex32 oc) = Inr r \<and> entry0 (\<lambda>_. r) (hex32 oc) \<le> i))"
  using assms
proof (induction cfg view ms a rule: boot_monitors.induct)
  case (3 cfg view oc i ms a)
  then obtain a1 where v: "verify_fresh (anchor_highest (\<lambda>q. ledger_highest cfg view)) a (hex32 oc) i = (a1, Inr Fresh)"
    "boot_monitors cfg view ms a1 = Some a'"
    by (auto split: prod.splits sum.splits Freshness.Freshness.splits)
  note p = verify_view[OF v(1) 3(3)]
  with 3(1)[OF v(1)[symmetric]] v(2) show ?case by auto
qed auto

lemma boot_shape:
  assumes "boot cfg view ms framed c = Some n"
  shows "ledger (anchor n) = queued_spawn c" "\<not> shutdown n" "reads_view cfg view (anchor n)"
    and "(Some oc, i) \<in> set ms \<Longrightarrow>
      \<exists>v r. view = Some v \<and> ledger_highest cfg (Some v) (hex32 oc) = Inr r \<and> entry0 (\<lambda>_. r) (hex32 oc) \<le> i"
proof -
  let ?a0 = "\<lparr>ledger = queued_spawn c, cache = Map.empty\<rparr>"
  from assms obtain a a' seq where b: "boot_monitors cfg view ms ?a0 = Some a"
    "boot_manager cfg view framed a = Some (a', seq)" "n = \<lparr>anchor = a', shutdown = False, manager_seq = seq\<rparr>"
    by (auto simp: boot_def bind_eq_Some_conv)
  have "reads_view cfg view ?a0" by (simp add: reads_view_def)
  note m = boot_monitors_checked[OF b(1) this]
  have "reads_view cfg view a' \<and> ledger a' = ledger a"
  proof (cases framed)
    case None
    with b(2) m show ?thesis by (simp add: boot_manager_def)
  next
    case (Some bs)
    with b(2) obtain s where
      "verify_fresh (anchor_highest (\<lambda>q. ledger_highest cfg view)) a MANAGER_FRESHNESS_KEY s = (a', Inr Fresh)"
      by (auto simp: boot_manager_def Let_def split: prod.splits sum.splits Freshness.Freshness.splits if_splits)
    from verify_view[OF this] m show ?thesis by simp
  qed
  with m b(3) show "ledger (anchor n) = queued_spawn c" "\<not> shutdown n" "reads_view cfg view (anchor n)" by auto
  show "(Some oc, i) \<in> set ms \<Longrightarrow>
      \<exists>v r. view = Some v \<and> ledger_highest cfg (Some v) (hex32 oc) = Inr r \<and> entry0 (\<lambda>_. r) (hex32 oc) \<le> i"
    using m by blast
qed

lemma node_invI:
  assumes "\<And>m v. confirmed (ledger (anchor (node h))) m = Some v \<Longrightarrow> v \<le> counter cfg (node_chain (node h)) m"
    and "\<And>m. acked h m \<le> counter cfg (node_chain (node h)) m + MAX_UNCONFIRMED_LAG"
    and "\<And>m v. \<not> shutdown (node h) \<Longrightarrow> cache (anchor (node h)) m = Some v \<Longrightarrow>
      v \<le> counter cfg (node_chain (node h)) m + MAX_UNCONFIRMED_LAG"
  shows "node_inv cfg h"
  using assms by (auto simp: node_inv_def node_chain_def Let_def)

lemma node_invD:
  assumes "node_inv cfg h"
  shows "confirmed (ledger (anchor (node h))) m = Some v \<Longrightarrow> v \<le> counter cfg (node_chain (node h)) m"
    and "acked h m \<le> counter cfg (node_chain (node h)) m + MAX_UNCONFIRMED_LAG"
    and "\<not> shutdown (node h) \<Longrightarrow> cache (anchor (node h)) m = Some v \<Longrightarrow>
      v \<le> counter cfg (node_chain (node h)) m + MAX_UNCONFIRMED_LAG"
  using assms by (auto simp: node_inv_def node_chain_def Let_def)

lemma booted_inv:
  assumes "boot cfg view ms framed c = Some n" "older_view cfg view c" "\<And>m. ack m \<le> counter cfg c m + MAX_UNCONFIRMED_LAG"
  shows "node_inv cfg \<lparr>node = n, acked = ack\<rparr>"
proof (rule node_invI)
  note b = boot_shape[OF assms(1)]
  have c: "node_chain n = c" using b(1) by (simp add: node_chain_def queued_spawn_def)
  fix m v
  show "confirmed (ledger (anchor (node \<lparr>node = n, acked = ack\<rparr>))) m = Some v \<Longrightarrow>
      v \<le> counter cfg (node_chain (node \<lparr>node = n, acked = ack\<rparr>)) m"
    using b(1) by (simp add: queued_spawn_def)
  show "acked \<lparr>node = n, acked = ack\<rparr> m \<le> counter cfg (node_chain (node \<lparr>node = n, acked = ack\<rparr>)) m + MAX_UNCONFIRMED_LAG"
    using assms(3) by (simp add: c)
  assume "cache (anchor (node \<lparr>node = n, acked = ack\<rparr>)) m = Some v"
  with b(3) obtain c' where v: "view = Some c'" "ledger_highest cfg (Some c') m = Inr (Some v)"
    by (auto simp: reads_view_def)
  have "v = counter cfg c' m mod 256 ^ 32" using ledger_highest_counter(2)[OF v(2)] by simp
  then have "v \<le> counter cfg c' m" by simp
  also have "\<dots> \<le> counter cfg c m" using assms(2) v(1) by (simp add: older_view_def)
  finally show "v \<le> counter cfg (node_chain (node \<lparr>node = n, acked = ack\<rparr>)) m + MAX_UNCONFIRMED_LAG" by (simp add: c)
qed

text \<open>A commit through the anchor, the id filed under \<open>m\<close>; \<open>down\<close> is the shutdown flag after it.\<close>

lemma committed_inv:
  assumes "node_inv cfg h" "\<not> shutdown (node h)" "anchor_commit queued_store (anchor (node h)) m i = (a', r)"
    and "anchor n' = a'" "r = Inr () \<or> shutdown n'"
    and "ack = (if r = Inr () then (acked h)(m := max i (acked h m)) else acked h)"
  shows "node_inv cfg \<lparr>node = n', acked = ack\<rparr>"
proof -
  let ?c = "chain (ledger (anchor (node h)))"
  note inv = node_invD[OF assms(1), unfolded node_chain_def]
  note q = queued_commit[OF assms(3), of cfg, OF inv(1) inv(3)[OF assms(2)]]
  have ch: "node_chain n' = ?c" using q(1) by (simp add: node_chain_def assms(4))
  show ?thesis
  proof (rule node_invI; unfold history.simps ch)
    fix k v
    show "confirmed (ledger (anchor n')) k = Some v \<Longrightarrow> v \<le> counter cfg ?c k"
      using inv(1) q(2) by (simp add: assms(4))
    show "ack k \<le> counter cfg ?c k + MAX_UNCONFIRMED_LAG"
      using inv(2)[of k] q(4) by (auto simp: assms(6))
    assume "\<not> shutdown n'" "cache (anchor n') k = Some v"
    with q(3,4) assms(2,4,5) inv(3)[of k v] show "v \<le> counter cfg ?c k + MAX_UNCONFIRMED_LAG"
      by (auto split: if_splits)
  qed
qed

lemma history_upd: "h\<lparr>node := n\<rparr> = \<lparr>node = n, acked = acked h\<rparr>"
  by (cases h) simp

lemma shutdown_inv:
  assumes "node_inv cfg h" "anchor n' = anchor (node h)" "shutdown (node h) \<Longrightarrow> shutdown n'"
  shows "node_inv cfg (h\<lparr>node := n'\<rparr>)"
  using assms by (auto simp: node_inv_def Let_def)

lemma node_step_inv:
  assumes "node_step cfg h h'" "node_inv cfg h"
  shows "node_inv cfg h'"
  using assms
proof (cases rule: node_step.cases)
  case (persisted writes oc i n)
  obtain a r where c: "anchor_commit queued_store (anchor (node h)) (hex32 oc) i = (a, r)" by fastforce
  with persisted have "r = Inr ()" "n = (node h)\<lparr>anchor := a\<rparr>"
    by (auto simp: write_monitor_def split: if_splits sum.splits)
  with persisted committed_inv[OF assms(2) persisted(2) c, of n] show ?thesis by simp
next
  case (refused writes oc i n)
  show ?thesis
  proof (cases "True \<in> set (take 3 writes)")
    case True
    with refused(3) obtain k a e where "oc = Some k"
      and c: "anchor_commit queued_store (anchor (node h)) (hex32 k) i = (a, Inl e)"
      and n: "n = (node h)\<lparr>anchor := a, shutdown := True\<rparr>"
      by (auto simp: write_monitor_def split: option.splits prod.splits sum.splits)
    from committed_inv[OF assms(2) refused(2) c, of n "acked h"] n have "node_inv cfg \<lparr>node = n, acked = acked h\<rparr>" by simp
    then show ?thesis by (simp add: refused(1) history_upd)
  next
    case False
    with refused(3) have "n = (node h)\<lparr>shutdown := True\<rparr>" by (simp add: write_monitor_def)
    with shutdown_inv[OF assms(2), of n] refused(1) show ?thesis by simp
  qed
next
  case (manager upsert blob n sealed)
  let ?n = "(node h)\<lparr>manager_seq := manager_seq (node h) + 1\<rparr>"
  obtain a r where c: "anchor_commit queued_store (anchor (node h)) MANAGER_FRESHNESS_KEY (manager_seq (node h) + 1) = (a, r)"
    by fastforce
  with manager have r: "r = Inr ()" "n = ?n\<lparr>anchor := a\<rparr>"
    by (auto simp: persist_manager_def Let_def split: if_splits sum.splits)
  with manager committed_inv[OF assms(2) manager(2) c, of n] show ?thesis by simp
next
  case (manager_refused upsert blob n sealed)
  obtain a r where c: "anchor_commit queued_store (anchor (node h)) MANAGER_FRESHNESS_KEY (manager_seq (node h) + 1) = (a, r)"
    by fastforce
  show ?thesis
  proof (cases upsert)
    case True
    with manager_refused c obtain e where r: "r = Inl e" "anchor n = a" "shutdown n"
      by (auto simp: persist_manager_def Let_def split: sum.splits)
    from committed_inv[OF assms(2) manager_refused(2) c, of n "acked h"] r
    have "node_inv cfg \<lparr>node = n, acked = acked h\<rparr>" by simp
    then show ?thesis by (simp add: manager_refused(1) history_upd)
  next
    case False
    with manager_refused have "anchor n = anchor (node h)" "shutdown n = shutdown (node h)"
      by (auto simp: persist_manager_def Let_def)
    with shutdown_inv[OF assms(2), of n] manager_refused(1) show ?thesis by simp
  qed
next
  case (committed k order q included)
  let ?q = "ledger (anchor (node h))"
  obtain c conf where ca: "commit_all cfg included (coalesce (take k (queue ?q))) order (chain ?q, confirmed ?q) = (c, conf)"
    by fastforce
  have q: "chain q = c" "confirmed q = conf" using committed(7) ca by (auto simp: committer_round_def)
  note inv = node_invD[OF assms(2), unfolded node_chain_def]
  note p = commit_all_props[OF ca inv(1)]
  have up: "counter cfg (chain ?q) m \<le> counter cfg c m" for m using p by blast
  show ?thesis
  proof (rule node_invI; simp add: committed(1) node_chain_def q)
    fix m v
    show "conf m = Some v \<Longrightarrow> v \<le> counter cfg c m" using p by blast
    show "acked h m \<le> counter cfg c m + MAX_UNCONFIRMED_LAG" using inv(2)[of m] up[of m] by simp
    show "\<not> shutdown (node h) \<Longrightarrow> cache (anchor (node h)) m = Some v \<Longrightarrow> v \<le> counter cfg c m + MAX_UNCONFIRMED_LAG"
      using inv(3)[of m v] up[of m] by simp
  qed
next
  case (committer_gone q)
  then show ?thesis using assms(2) by (simp add: node_inv_def Let_def)
next
  case (rebooted view ms framed n)
  from booted_inv[OF rebooted(3,2) node_invD(2)[OF assms(2)]] have "node_inv cfg \<lparr>node = n, acked = acked h\<rparr>" .
  then show ?thesis by (simp add: rebooted(1) history_upd)
qed

lemma node_reach_inv: "node_reach cfg h \<Longrightarrow> node_inv cfg h"
proof (induction rule: node_reach.induct)
  case (init view c ms framed n)
  then show ?case by (intro booted_inv) auto
next
  case (step h h')
  then show ?case by (blast intro: node_step_inv)
qed

lemma rollback_bound:
  assumes "node_reach cfg h" "boot cfg (Some view) ms framed (node_chain (node h)) = Some n" "(Some oc, loaded) \<in> set ms"
    and "counter cfg view (hex32 oc) < 2 ^ 64"
  shows "acked h (hex32 oc) + counter cfg view (hex32 oc)
    \<le> loaded + MAX_UNCONFIRMED_LAG + counter cfg (node_chain (node h)) (hex32 oc)"
proof -
  from boot_shape(4)[OF assms(2,3)] obtain r where r: "ledger_highest cfg (Some view) (hex32 oc) = Inr r"
    "entry0 (\<lambda>_. r) (hex32 oc) \<le> loaded" by auto
  have "counter cfg view (hex32 oc) < 256 ^ 32" by (rule less_trans[OF assms(4)]) simp
  with ledger_highest_counter(1)[OF r(1)] r(2) have "counter cfg view (hex32 oc) \<le> loaded" by simp
  with node_invD(2)[OF node_reach_inv[OF assms(1)], of "hex32 oc"] show ?thesis by simp
qed

text \<open>
  The committer's record of what the chain has confirmed starts empty at every boot, so the first
  id above the lag is refused, whatever the chain says; nothing is queued, and the next boot
  starts from the same chain.
\<close>

lemma restart_stalls:
  assumes "boot cfg view ms framed c = Some n" "MAX_UNCONFIRMED_LAG < i" "entry0 (cache (anchor n)) (hex32 oc) < i"
    and "True \<in> set (take 3 writes)" "write_monitor writes (Some oc) i n = (n', st)"
  shows "st = InProgress \<and> shutdown n' \<and> node_chain n' = c \<and> queue (ledger (anchor n')) = []"
proof -
  have l: "ledger (anchor n) = queued_spawn c" by (rule boot_shape(1)[OF assms(1)])
  have "queued_store (ledger (anchor n)) (hex32 oc) i = (queued_spawn c, Inl CommitsStalled)"
    using assms(2) by (simp add: l queued_store_def queued_spawn_def lag_exceeds_bound_def entry0_def)
  then have "anchor_commit queued_store (anchor n) (hex32 oc) i =
      ((anchor n)\<lparr>ledger := queued_spawn c, cache := (cache (anchor n))(hex32 oc \<mapsto> i)\<rparr>, Inl CommitsStalled)"
    using assms(3) by (simp add: anchor_commit_def)
  with assms(4,5) show ?thesis by (auto simp: write_monitor_def node_chain_def queued_spawn_def)
qed

lemma manager_blob_seq: "seq < 2 ^ 64 \<Longrightarrow> le_nat (take 8 (manager_blob seq m)) = seq"
  by (simp add: manager_blob_def le_value_le_bytes)

end
