(* ===== verification/Rebalancer.thy ===== *)
theory Rebalancer
  imports Bytes
begin

section \<open>Capacity rebalancer (quid-hop/src/rebalancer.rs)\<close>

text \<open>
  The decision whether to splice funds into a channel, and the pass over the channels that acts
  on it. u64 values are naturals; the saturating operators are \<open>sat64\<close> of the exact product and
  truncated subtraction. What LDK and the wallet answer during a pass is the environment
  \<open>tick_env\<close> of each channel: its snapshot, the wallet balance, whether another task takes the
  slot between the two looks at it, whether \<open>initiate_splice\<close> succeeds, and the snapshot read
  again at the end.
\<close>

definition MIN_ECONOMIC_GROW_SATS :: nat where "MIN_ECONOMIC_GROW_SATS = 250000"
definition CHANNEL_MAX_FUNDING_SATS :: nat where "CHANNEL_MAX_FUNDING_SATS = 500000000"
definition FORCE_CLOSE_AVOIDANCE_MAX_FEE_SATS :: nat where "FORCE_CLOSE_AVOIDANCE_MAX_FEE_SATS = 1000"

record RebalanceConfig =
  wallet_reserve_sats :: nat
  poll_interval_secs :: nat

definition default_rebalance_config :: RebalanceConfig where
  "default_rebalance_config =
    \<lparr>wallet_reserve_sats = FORCE_CLOSE_AVOIDANCE_MAX_FEE_SATS * 10, poll_interval_secs = 30\<rparr>"

record ChannelSnapshot =
  channel_value_satoshis :: nat
  next_outbound_htlc_limit_msat :: nat
  max_inbound_in_flight_percent :: nat
  is_usable :: bool

definition per_swap_ceiling_msat :: "ChannelSnapshot \<Rightarrow> nat" where
  "per_swap_ceiling_msat snap =
    (let pct = min (max_inbound_in_flight_percent snap) 100
     in sat64 (sat64 (channel_value_satoshis snap * 1000) * pct) div 100)"

datatype BlockReason = InsufficientWallet nat nat | ChannelCapReached nat
datatype SpliceDecision = Healthy | Splice nat | Blocked BlockReason

definition div_ceil :: "nat \<Rightarrow> nat \<Rightarrow> nat" where
  "div_ceil a b = a div b + (if a mod b > 0 then 1 else 0)"

definition want_grow_sats :: "ChannelSnapshot \<Rightarrow> nat" where
  "want_grow_sats snap =
    div_ceil (sat64 (per_swap_ceiling_msat snap * 2) - next_outbound_htlc_limit_msat snap) 1000"

definition decide_splice :: "ChannelSnapshot \<Rightarrow> nat \<Rightarrow> RebalanceConfig \<Rightarrow> nat \<Rightarrow> SpliceDecision" where
  "decide_splice snap confirmed_wallet_sats cfg cap_sats =
    (if \<not> is_usable snap then Healthy
     else if per_swap_ceiling_msat snap = 0 then Healthy
     else if next_outbound_htlc_limit_msat snap \<ge> per_swap_ceiling_msat snap then Healthy
     else
       let cap_headroom = cap_sats - channel_value_satoshis snap
       in if cap_headroom < MIN_ECONOMIC_GROW_SATS then Blocked (ChannelCapReached (channel_value_satoshis snap))
       else
         let grow = min (want_grow_sats snap) cap_headroom;
             spendable = confirmed_wallet_sats - wallet_reserve_sats cfg
         in if spendable < MIN_ECONOMIC_GROW_SATS then Blocked (InsufficientWallet spendable MIN_ECONOMIC_GROW_SATS)
         else
           let grow = min grow spendable
           in if grow < MIN_ECONOMIC_GROW_SATS then
                if spendable \<le> cap_headroom then Blocked (InsufficientWallet spendable MIN_ECONOMIC_GROW_SATS)
                else Blocked (ChannelCapReached (channel_value_satoshis snap))
              else Splice grow)"

record tick_env =
  chan :: bytes
  snap :: ChannelSnapshot
  wallet :: nat
  taken :: bool
  splice_ok :: bool
  reread :: "ChannelSnapshot option"

text \<open>One channel of a pass: the slots held after it, and the splice initiated, if any.\<close>

definition rebalance_channel ::
    "RebalanceConfig \<Rightarrow> nat \<Rightarrow> tick_env \<Rightarrow> bytes set \<Rightarrow> bytes set \<times> nat option" where
  "rebalance_channel cfg cap e active =
    (if chan e \<in> active then (active, None)
     else
       let (active, spliced, skipped) =
             (case decide_splice (snap e) (wallet e) cfg cap of
                Healthy \<Rightarrow> (active, None, False)
              | Blocked reason \<Rightarrow> (active, None, False)
              | Splice grow \<Rightarrow>
                  if taken e then (insert (chan e) active, None, True)
                  else if splice_ok e then (insert (chan e) active, Some grow, False)
                  else (active - {chan e}, None, False))
       in if skipped then (active, spliced)
          else if chan e \<in> active then
            (case reread e of None \<Rightarrow> (active, spliced)
             | Some s \<Rightarrow> if is_usable s \<and> next_outbound_htlc_limit_msat s \<ge> per_swap_ceiling_msat s
                         then (active - {chan e}, spliced) else (active, spliced))
          else (active, spliced))"

fun rebalance_capacity_tick ::
    "RebalanceConfig \<Rightarrow> nat \<Rightarrow> tick_env list \<Rightarrow> bytes set \<Rightarrow> bytes set \<times> (bytes \<times> nat) list" where
  "rebalance_capacity_tick cfg cap [] active = (active, [])"
| "rebalance_capacity_tick cfg cap (e # es) active =
    (let (active, s) = rebalance_channel cfg cap e active;
         (active, ss) = rebalance_capacity_tick cfg cap es active
     in (active, (case s of None \<Rightarrow> ss | Some g \<Rightarrow> (chan e, g) # ss)))"

text \<open>The passes of the vault, one after the other, over the one set of slots.\<close>

fun rebalance_ticks ::
    "RebalanceConfig \<Rightarrow> nat \<Rightarrow> tick_env list list \<Rightarrow> bytes set \<Rightarrow> bytes set \<times> (bytes \<times> nat) list" where
  "rebalance_ticks cfg cap [] active = (active, [])"
| "rebalance_ticks cfg cap (es # ticks) active =
    (let (active, s) = rebalance_capacity_tick cfg cap es active;
         (active, ss) = rebalance_ticks cfg cap ticks active
     in (active, s @ ss))"

subsection \<open>The decision\<close>

definition exhausted :: "ChannelSnapshot \<Rightarrow> bool" where
  "exhausted s \<longleftrightarrow> is_usable s \<and> next_outbound_htlc_limit_msat s < per_swap_ceiling_msat s"

lemma decide_splice_bounds:
  assumes "decide_splice s w cfg cap = Splice g"
  shows "exhausted s" "MIN_ECONOMIC_GROW_SATS \<le> g" "channel_value_satoshis s + g \<le> cap"
    "wallet_reserve_sats cfg + g \<le> w" "g \<le> want_grow_sats s"
  using assms
  by (auto simp: decide_splice_def Let_def exhausted_def MIN_ECONOMIC_GROW_SATS_def split: if_splits)

lemma decide_splice_healthy: "decide_splice s w cfg cap = Healthy \<longleftrightarrow> \<not> exhausted s"
  by (auto simp: decide_splice_def Let_def exhausted_def)

lemma div_ceil_ge: "0 < b \<Longrightarrow> a \<le> b * div_ceil a b"
proof -
  assume "0 < b"
  define q r where "q = a div b" and "r = a mod b"
  have "a = b * q + r" "r < b" using \<open>0 < b\<close> by (simp_all add: q_def r_def)
  moreover have "div_ceil a b = q + (if r > 0 then 1 else 0)" by (simp add: div_ceil_def q_def r_def)
  ultimately show ?thesis by (simp add: distrib_left)
qed

text \<open>With room in the channel and in the wallet the splice restores two full-scale swaps.\<close>

lemma decide_splice_restores:
  assumes "exhausted s" "want_grow_sats s \<le> cap - channel_value_satoshis s" "want_grow_sats s \<le> w - wallet_reserve_sats cfg"
    and "MIN_ECONOMIC_GROW_SATS \<le> want_grow_sats s"
  shows "decide_splice s w cfg cap = Splice (want_grow_sats s)"
    and "sat64 (per_swap_ceiling_msat s * 2) \<le> next_outbound_htlc_limit_msat s + 1000 * want_grow_sats s"
proof -
  show "decide_splice s w cfg cap = Splice (want_grow_sats s)"
    using assms by (auto simp: decide_splice_def exhausted_def Let_def)
  show "sat64 (per_swap_ceiling_msat s * 2) \<le> next_outbound_htlc_limit_msat s + 1000 * want_grow_sats s"
    using div_ceil_ge[of 1000 "sat64 (per_swap_ceiling_msat s * 2) - next_outbound_htlc_limit_msat s"]
    by (simp add: want_grow_sats_def)
qed

text \<open>
  A small channel whose deficit is below the economic size is reported as blocked by the wallet
  or by the cap, with both of them ample.
\<close>

lemma small_channel_blames:
  assumes "exhausted s" "want_grow_sats s < MIN_ECONOMIC_GROW_SATS"
    and "MIN_ECONOMIC_GROW_SATS \<le> cap - channel_value_satoshis s" "MIN_ECONOMIC_GROW_SATS \<le> w - wallet_reserve_sats cfg"
  shows "decide_splice s w cfg cap = Blocked (InsufficientWallet (w - wallet_reserve_sats cfg) MIN_ECONOMIC_GROW_SATS)
    \<or> decide_splice s w cfg cap = Blocked (ChannelCapReached (channel_value_satoshis s))"
  using assms by (auto simp: decide_splice_def exhausted_def Let_def)

subsection \<open>The pass\<close>

lemma tick_keeps_slot:
  assumes "c \<in> active" "rebalance_capacity_tick cfg cap es active = (active', ss)"
  shows "c \<in> active' \<and> c \<notin> fst ` set ss"
  using assms
proof (induction es arbitrary: active active' ss)
  case (Cons e es)
  obtain a1 s a2 ss2 where r: "rebalance_channel cfg cap e active = (a1, s)"
    "rebalance_capacity_tick cfg cap es a1 = (a2, ss2)" by fastforce
  have "c \<in> a1" "s = None \<or> chan e \<noteq> c"
    using r(1) Cons(2)
    by (auto simp: rebalance_channel_def Let_def split: if_splits option.splits SpliceDecision.splits)
  with Cons(1)[OF _ r(2)] Cons(3) r show ?case by (auto split: option.splits)
qed simp

lemma ticks_keep_slot:
  assumes "c \<in> active" "rebalance_ticks cfg cap ticks active = (active', ss)"
  shows "c \<in> active' \<and> c \<notin> fst ` set ss"
  using assms
proof (induction ticks arbitrary: active active' ss)
  case (Cons es ticks)
  obtain a1 s a2 ss2 where r: "rebalance_capacity_tick cfg cap es active = (a1, s)"
    "rebalance_ticks cfg cap ticks a1 = (a2, ss2)" by fastforce
  have "active' = a2" "ss = s @ ss2" using Cons(3) r by auto
  with tick_keeps_slot[OF Cons(2) r(1)] Cons(1)[OF _ r(2)] show ?case by (simp add: image_Un)
qed simp

text \<open>A splice that is under way when the channel is read again holds the slot.\<close>

lemma splice_takes_slot:
  assumes "rebalance_channel cfg cap e active = (active', Some g)" "reread e = Some s" "exhausted s"
  shows "chan e \<in> active' \<and> chan e \<notin> active"
  using assms
  by (auto simp: rebalance_channel_def exhausted_def Let_def split: if_splits SpliceDecision.splits)

end
