(* ===== verification/Lev_Keeper.thy ===== *)
theory Lev_Keeper
  imports Bytes
begin

section \<open>Leverage keeper (quid-bridge/src/lev_keeper.rs)\<close>

text \<open>
  The decision of the keeper for one levered position, the dwell timer that feeds it, the pass
  over all positions, the compound crank, and the choice of a venue. u32 and u64 values are
  naturals with the saturating operators written out; a u128 product that overflows is
  \<^const>\<open>None\<close> where the source checks it. The contracts are the environment of a pass: the view
  of each position (or a failed read) and whether each call succeeds. The prediction of the target
  in floating point, which only feeds the log, is not modelled.
\<close>

record LevKeeperConfig =
  lev_poll_interval_secs :: nat
  target_range_bps :: nat
  safety_margin_bps :: nat
  min_rebalance_usd :: nat

definition default_keeper_config :: LevKeeperConfig where
  "default_keeper_config =
    \<lparr>lev_poll_interval_secs = 300, target_range_bps = 300, safety_margin_bps = 1500, min_rebalance_usd = 50000000\<rparr>"

record PositionView =
  current_ltv_bps :: nat
  il_ltv_bps :: nat
  target_ltv_bps :: nat
  pool_ltv_bps :: nat
  venue_liq_ltv_bps :: nat
  lev_collateral_usd :: nat
  deliverable_floor_ok :: bool
  move_persisted :: bool
  mature_quid_usd :: nat
  wbtc_mode :: bool

datatype KeeperAction = Hold | DeLever nat bool | ReLever nat | ProtectFromQuid nat

definition repay_to_target_usd :: "PositionView \<Rightarrow> nat" where
  "repay_to_target_usd v =
    (let cur = current_ltv_bps v; tgt = target_ltv_bps v
     in if cur \<le> tgt \<or> cur \<ge> 10000 then 0
        else let collateral = sat64 (lev_collateral_usd v * 10000) div (10000 - cur)
             in sat64 (collateral * (cur - tgt)) div 10000)"

definition abs_diff :: "nat \<Rightarrow> nat \<Rightarrow> nat" where
  "abs_diff a b = (if a < b then b - a else a - b)"

definition economic :: "PositionView \<Rightarrow> LevKeeperConfig \<Rightarrow> bool" where
  "economic v cfg \<longleftrightarrow>
    sat64 (lev_collateral_usd v * abs_diff (il_ltv_bps v) (target_ltv_bps v)) div 10000 \<ge> min_rebalance_usd cfg"

definition keeper_decide :: "PositionView \<Rightarrow> LevKeeperConfig \<Rightarrow> KeeperAction" where
  "keeper_decide v cfg =
    (if max (pool_ltv_bps v) (current_ltv_bps v) \<ge> venue_liq_ltv_bps v - safety_margin_bps cfg then
       let repay = min (repay_to_target_usd v) (mature_quid_usd v)
       in if mature_quid_usd v > 0 \<and> repay > 0 then ProtectFromQuid repay else DeLever (target_ltv_bps v) True
     else if \<not> move_persisted v then Hold
     else
       let upper = sat32 (target_ltv_bps v + target_range_bps cfg);
           lower = target_ltv_bps v - target_range_bps cfg
       in if il_ltv_bps v > upper then
            if \<not> economic v cfg then Hold else DeLever (target_ltv_bps v) False
          else if il_ltv_bps v < lower \<and> deliverable_floor_ok v \<and> economic v cfg then ReLever (target_ltv_bps v)
          else Hold)"

definition out_of_range :: "PositionView \<Rightarrow> LevKeeperConfig \<Rightarrow> bool" where
  "out_of_range v cfg \<longleftrightarrow> il_ltv_bps v > sat32 (target_ltv_bps v + target_range_bps cfg)
    \<or> il_ltv_bps v < target_ltv_bps v - target_range_bps cfg"

type_synonym dwell = "bytes \<rightharpoonup> nat"

definition persisted :: "dwell \<Rightarrow> bytes \<Rightarrow> bool \<Rightarrow> nat \<Rightarrow> nat \<Rightarrow> dwell \<times> bool" where
  "persisted first_out lp out now dwell_secs =
    (if \<not> out then (first_out(lp := None), False)
     else let t0 = (case first_out lp of None \<Rightarrow> now | Some t \<Rightarrow> t)
          in (first_out(lp \<mapsto> t0), now - t0 \<ge> dwell_secs))"

subsection \<open>A pass\<close>

record lev_env =
  position_view :: "bytes \<Rightarrow> PositionView option"
  protect_ok :: "bytes \<Rightarrow> bool"
  rebalance_ok :: "bytes \<Rightarrow> bool"

datatype keeper_call = CProtect bytes nat | CSync bytes | CRebalance bytes

text \<open>First the classification: the three queues, and the dwell timers carried along.\<close>

fun classify_position ::
    "lev_env \<Rightarrow> LevKeeperConfig \<Rightarrow> nat \<Rightarrow> nat \<Rightarrow> bytes list \<Rightarrow> dwell \<Rightarrow>
      (bytes \<times> nat) list \<times> bytes list \<times> bytes list \<times> dwell" where
  "classify_position env cfg now dwell_secs [] d = ([], [], [], d)"
| "classify_position env cfg now dwell_secs (lp # lps) d =
    (case position_view env lp of
       None \<Rightarrow> classify_position env cfg now dwell_secs lps d
     | Some v \<Rightarrow>
         let (d, p) = persisted d lp (out_of_range v cfg) now dwell_secs;
             (protect, urgent, rebal, d') = classify_position env cfg now dwell_secs lps d
         in (case keeper_decide (v\<lparr>move_persisted := p\<rparr>) cfg of
               ProtectFromQuid repay \<Rightarrow> ((lp, repay) # protect, urgent, rebal, d')
             | DeLever to True \<Rightarrow> (protect, lp # urgent, rebal, d')
             | DeLever to False \<Rightarrow> (protect, urgent, lp # rebal, d')
             | ReLever to \<Rightarrow> (protect, urgent, lp # rebal, d')
             | Hold \<Rightarrow> (protect, urgent, rebal, d')))"

text \<open>Then the calls, in the order they are sent.\<close>

definition lev_tick ::
    "lev_env \<Rightarrow> LevKeeperConfig \<Rightarrow> nat \<Rightarrow> nat \<Rightarrow> bytes list option \<Rightarrow> dwell \<Rightarrow> dwell \<times> keeper_call list option" where
  "lev_tick env cfg now dwell_secs lps d =
    (case lps of None \<Rightarrow> (d, None)
     | Some lps \<Rightarrow>
         let (protect, urgent, rebal, d') = classify_position env cfg now dwell_secs lps d
         in (d', Some (
              concat (map (\<lambda>(lp, repay). CProtect lp repay # (if protect_ok env lp then [CSync lp] else [])) protect)
              @ concat (map (\<lambda>lp. CRebalance lp # (if rebalance_ok env lp then [CSync lp] else [])) urgent)
              @ map CRebalance rebal)))"

subsection \<open>Compounding\<close>

definition COMPOUND_GAS :: nat where "COMPOUND_GAS = 200000"

definition compound_pays_for_itself :: "nat \<Rightarrow> nat \<Rightarrow> bool" where
  "compound_pays_for_itself pending_wei gas_price_wei \<longleftrightarrow>
    pending_wei div 2 \<ge> sat128 (gas_price_wei * COMPOUND_GAS)"

definition compound_tick :: "(bytes \<Rightarrow> (nat \<times> nat) option) \<Rightarrow> bytes list option \<Rightarrow> bytes list option" where
  "compound_tick pending_and_gas lps =
    map_option (filter (\<lambda>lp. case pending_and_gas lp of None \<Rightarrow> False
      | Some (pending, gas) \<Rightarrow> compound_pays_for_itself pending gas)) lps"

subsection \<open>Choice of a venue\<close>

record VenueQuote =
  venue :: bytes
  borrow_rate_ray :: nat
  route_cost_bps :: nat
  fundable :: bool

definition checked_mul128 :: "nat \<Rightarrow> nat \<Rightarrow> nat option" where
  "checked_mul128 a b = (if a * b < 2 ^ 128 then Some (a * b) else None)"

definition score_bps :: "VenueQuote \<Rightarrow> nat \<Rightarrow> nat option" where
  "score_bps q horizon_days =
    (if \<not> fundable q then None
     else do {
       r \<leftarrow> checked_mul128 (borrow_rate_ray q) 10000;
       c \<leftarrow> checked_mul128 (r div 10 ^ 27) horizon_days;
       Some (c div 365 + route_cost_bps q)
     })"

fun pick_loop :: "nat \<Rightarrow> VenueQuote list \<Rightarrow> (bytes \<times> nat \<times> nat) option \<Rightarrow> (bytes \<times> nat \<times> nat) option" where
  "pick_loop h [] best = best"
| "pick_loop h (q # qs) best =
    (case score_bps q h of None \<Rightarrow> pick_loop h qs best
     | Some s \<Rightarrow>
         let better = (case best of None \<Rightarrow> True
           | Some (_, bs, brc) \<Rightarrow> s < bs \<or> s = bs \<and> route_cost_bps q < brc)
         in pick_loop h qs (if better then Some (venue q, s, route_cost_bps q) else best))"

definition pick_cheapest :: "VenueQuote list \<Rightarrow> nat \<Rightarrow> (bytes \<times> nat) option" where
  "pick_cheapest qs h = map_option (\<lambda>(v, s, _). (v, s)) (pick_loop h qs None)"

subsection \<open>Route bytes\<close>

record Plan =
  dex :: bytes
  dex2 :: bytes
  hops :: "bytes list"
  fetched :: bytes

definition SEL_UNOSWAP :: bytes where "SEL_UNOSWAP = [0x83, 0x80, 0x0a, 0x8e]"
definition SEL_UNOSWAP2 :: bytes where "SEL_UNOSWAP2 = [0x87, 0x70, 0xba, 0x91]"

definition route_bytes :: "Plan \<Rightarrow> bytes" where
  "route_bytes p =
    (if fetched p \<noteq> [] then fetched p
     else if length (hops p) = 1 \<or> length (hops p) = 2 then
       (if length (hops p) = 1 then SEL_UNOSWAP else SEL_UNOSWAP2)
         @ replicate 32 0 @ replicate 32 0 @ replicate 32 0 @ concat (hops p)
     else [])"

definition v2_word :: "bytes \<Rightarrow> bytes" where
  "v2_word pool = replicate 12 0 @ pool"

definition v3_word :: "bytes \<Rightarrow> bytes" where
  "v3_word pool = (replicate 12 0 @ pool)[0 := 32]"

subsection \<open>Safety comes first\<close>

definition urgent_view :: "PositionView \<Rightarrow> LevKeeperConfig \<Rightarrow> bool" where
  "urgent_view v cfg \<longleftrightarrow> max (pool_ltv_bps v) (current_ltv_bps v) \<ge> venue_liq_ltv_bps v - safety_margin_bps cfg"

lemma decide_urgent_iff:
  "urgent_view v cfg \<longleftrightarrow> (\<exists>r. keeper_decide v cfg = ProtectFromQuid r) \<or> (\<exists>t. keeper_decide v cfg = DeLever t True)"
  by (auto simp: keeper_decide_def urgent_view_def Let_def)

lemma decide_protect:
  "keeper_decide v cfg = ProtectFromQuid r \<Longrightarrow> 0 < r \<and> r \<le> mature_quid_usd v \<and> r \<le> repay_to_target_usd v"
  by (auto simp: keeper_decide_def Let_def split: if_splits)

lemma urgent_view_persisted [simp]: "urgent_view (v\<lparr>move_persisted := p\<rparr>) cfg = urgent_view v cfg"
  by (simp add: urgent_view_def)

text \<open>An urgent position of the pass is queued for a protective call, whatever the others are.\<close>

lemma classify_urgent:
  assumes "lp \<in> set lps" "position_view env lp = Some v" "urgent_view v cfg"
    and "classify_position env cfg now ds lps d = (protect, urgent, rebal, d')"
  shows "lp \<in> fst ` set protect \<or> lp \<in> set urgent"
  using assms
proof (induction lps arbitrary: d protect urgent rebal d')
  case (Cons x lps)
  show ?case
  proof (cases "position_view env x")
    case None
    with Cons have "lp \<in> set lps" by auto
    with Cons None show ?thesis by simp
  next
    case (Some w)
    obtain d1 p where d1: "persisted d x (out_of_range w cfg) now ds = (d1, p)" by fastforce
    obtain pr ur re dd where c: "classify_position env cfg now ds lps d1 = (pr, ur, re, dd)" by (metis prod_cases4)
    let ?a = "keeper_decide (w\<lparr>move_persisted := p\<rparr>) cfg"
    have up: "set pr \<subseteq> set protect" "set ur \<subseteq> set urgent"
      using Cons(5) Some d1 c by (auto split: KeeperAction.splits bool.splits)
    show ?thesis
    proof (cases "x = lp")
      case True
      with Some Cons(3,4) have "(\<exists>r. ?a = ProtectFromQuid r) \<or> (\<exists>t. ?a = DeLever t True)"
        using decide_urgent_iff[of "w\<lparr>move_persisted := p\<rparr>" cfg] by simp
      with Cons(5) Some d1 c True show ?thesis by auto
    next
      case False
      with Cons(1)[OF _ Cons(3,4) c] Cons(2) up show ?thesis by auto
    qed
  qed
qed simp

lemma tick_urgent_called:
  assumes "lp \<in> set lps" "position_view env lp = Some v" "urgent_view v cfg"
    and "lev_tick env cfg now ds (Some lps) d = (d', Some calls)"
  shows "CRebalance lp \<in> set calls \<or> (\<exists>r. CProtect lp r \<in> set calls)"
proof -
  obtain pr ur re dd where c: "classify_position env cfg now ds lps d = (pr, ur, re, dd)" by (metis prod_cases4)
  from classify_urgent[OF assms(1-3) c] assms(4) c show ?thesis by (force simp: lev_tick_def)
qed

lemma tick_total: "\<exists>d' calls. lev_tick env cfg now ds (Some lps) d = (d', Some calls)"
  by (cases "classify_position env cfg now ds lps d") (simp add: lev_tick_def)

text \<open>Protective redemptions go out before urgent rebalances, and those before the lazy ones.\<close>

lemma tick_order:
  assumes "lev_tick env cfg now ds (Some lps) d = (d', Some calls)"
  shows "\<exists>protect urgent lazy. calls = protect @ urgent @ lazy
    \<and> (\<forall>c \<in> set protect. (\<exists>lp r. c = CProtect lp r) \<or> (\<exists>lp. c = CSync lp))
    \<and> (\<forall>lp r. CProtect lp r \<notin> set urgent \<union> set lazy) \<and> (\<forall>c \<in> set lazy. \<exists>lp. c = CRebalance lp)
    \<and> (\<forall>lp v. CRebalance lp \<in> set urgent \<longrightarrow> position_view env lp = Some v \<longrightarrow> urgent_view v cfg)"
proof -
  obtain pr ur re dd where c: "classify_position env cfg now ds lps d = (pr, ur, re, dd)" by (metis prod_cases4)
  let ?p = "concat (map (\<lambda>(lp, repay). CProtect lp repay # (if protect_ok env lp then [CSync lp] else [])) pr)"
  let ?u = "concat (map (\<lambda>lp. CRebalance lp # (if rebalance_ok env lp then [CSync lp] else [])) ur)"
  have calls: "calls = ?p @ ?u @ map CRebalance re" using assms c by (simp add: lev_tick_def)
  have u: "lp \<in> set ur \<Longrightarrow> position_view env lp = Some v \<Longrightarrow> urgent_view v cfg" for lp v
    using c
  proof (induction lps arbitrary: d pr ur re dd)
    case (Cons x lps)
    show ?case
    proof (cases "position_view env x")
      case (Some w)
      obtain d1 p where d1: "persisted d x (out_of_range w cfg) now ds = (d1, p)" by fastforce
      obtain a b e f where cl: "classify_position env cfg now ds lps d1 = (a, b, e, f)" by (metis prod_cases4)
      from Cons(4) Some d1 cl have "lp \<in> set b \<or> lp = x \<and> (\<exists>t. keeper_decide (w\<lparr>move_persisted := p\<rparr>) cfg = DeLever t True)"
        using Cons(2) by (auto split: KeeperAction.splits bool.splits)
      with Cons(1)[OF _ Cons(3) cl] Some Cons(3) decide_urgent_iff[of "w\<lparr>move_persisted := p\<rparr>" cfg]
      show ?thesis by auto
    qed (use Cons in simp)
  qed simp
  show ?thesis
    by (rule exI[of _ ?p], rule exI[of _ ?u], rule exI[of _ "map CRebalance re"])
       (use u in \<open>auto simp: calls split: if_splits prod.splits\<close>)
qed

text \<open>
  The pool can be in danger while the position itself is below its own target. The call is then
  named a de-lever, but its target lies above the position's LTV.
\<close>

lemma urgent_upwards:
  assumes "venue_liq_ltv_bps v - safety_margin_bps cfg \<le> pool_ltv_bps v" "current_ltv_bps v < target_ltv_bps v"
  shows "keeper_decide v cfg = DeLever (target_ltv_bps v) True"
  using assms by (simp add: keeper_decide_def repay_to_target_usd_def Let_def max_def)

subsection \<open>The dwell timer\<close>

fun watch :: "bytes \<Rightarrow> nat \<Rightarrow> (nat \<times> bool) list \<Rightarrow> dwell \<Rightarrow> dwell \<times> bool" where
  "watch lp ds [] d = (d, False)"
| "watch lp ds [(now, out)] d = persisted d lp out now ds"
| "watch lp ds ((now, out) # o2 # obs) d = watch lp ds (o2 # obs) (fst (persisted d lp out now ds))"

lemma watch_first_out:
  assumes "obs \<noteq> []" "\<forall>t. d lp = Some t \<longrightarrow> (\<exists>pre post. seen = pre @ (t, True) # post \<and> (\<forall>x \<in> set post. snd x))"
    and "watch lp ds obs d = (d', p)"
  shows "(\<forall>t. d' lp = Some t \<longrightarrow> (\<exists>pre post. seen @ obs = pre @ (t, True) # post \<and> (\<forall>x \<in> set post. snd x)))
    \<and> (p \<longrightarrow> (\<exists>t. d' lp = Some t \<and> fst (last obs) - t \<ge> ds))"
  using assms
proof (induction lp ds obs d arbitrary: seen rule: watch.induct)
  case (2 lp ds now out d)
  show ?case
  proof (cases out)
    case True
    show ?thesis
    proof (cases "d lp")
      case None
      with 2 True show ?thesis by (force simp: persisted_def Let_def)
    next
      case (Some t)
      with 2(2) obtain pre post where s: "seen = pre @ (t, True) # post" "\<forall>x \<in> set post. snd x" by blast
      then have "seen @ [(now, out)] = pre @ (t, True) # (post @ [(now, out)])" "\<forall>x \<in> set (post @ [(now, out)]). snd x"
        using True by auto
      with 2(3) True Some show ?thesis by (force simp: persisted_def Let_def)
    qed
  next
    case False
    with 2(3) show ?thesis by (auto simp: persisted_def)
  qed
next
  case (3 lp ds now out o2 obs d)
  let ?d1 = "fst (persisted d lp out now ds)"
  have "\<forall>t. ?d1 lp = Some t \<longrightarrow>
      (\<exists>pre post. seen @ [(now, out)] = pre @ (t, True) # post \<and> (\<forall>x \<in> set post. snd x))"
  proof (intro allI impI)
    fix t assume t: "?d1 lp = Some t"
    then have out by (auto simp: persisted_def split: if_splits)
    show "\<exists>pre post. seen @ [(now, out)] = pre @ (t, True) # post \<and> (\<forall>x \<in> set post. snd x)"
    proof (cases "d lp")
      case None
      with t \<open>out\<close> show ?thesis by (force simp: persisted_def Let_def)
    next
      case (Some t')
      with 3(3) obtain pre post where "seen = pre @ (t', True) # post" "\<forall>x \<in> set post. snd x" by blast
      then have "seen @ [(now, out)] = pre @ (t', True) # (post @ [(now, out)])" "\<forall>x \<in> set (post @ [(now, out)]). snd x"
        using \<open>out\<close> by auto
      moreover have "t = t'" using t Some \<open>out\<close> by (simp add: persisted_def Let_def)
      ultimately show ?thesis by blast
    qed
  qed
  with 3(1)[of "seen @ [(now, out)]"] 3(4) show ?case by simp
qed simp

lemma watch_persisted:
  assumes "watch lp ds obs Map.empty = (d', True)"
  shows "\<exists>pre t post. obs = pre @ (t, True) # post \<and> (\<forall>x \<in> set post. snd x) \<and> ds \<le> fst (last obs) - t"
proof -
  have "obs \<noteq> []" using assms by auto
  from watch_first_out[OF this, of Map.empty lp "[]" ds d' True] assms show ?thesis by fastforce
qed

subsection \<open>The cheapest venue\<close>

definition cheaper_eq :: "nat \<Rightarrow> nat \<Rightarrow> nat \<Rightarrow> nat \<Rightarrow> bool" where
  "cheaper_eq s c s' c' \<longleftrightarrow> s < s' \<or> s = s' \<and> c \<le> c'"

lemma pick_loop_keeps:
  "pick_loop h qs (Some (v0, s0, c0)) = r \<Longrightarrow> \<exists>v s c. r = Some (v, s, c) \<and> cheaper_eq s c s0 c0"
proof (induction qs arbitrary: v0 s0 c0)
  case (Cons q qs)
  show ?case
  proof (cases "score_bps q h")
    case (Some s)
    show ?thesis
    proof (cases "s < s0 \<or> s = s0 \<and> route_cost_bps q < c0")
      case True
      with Cons(2) Some have "pick_loop h qs (Some (venue q, s, route_cost_bps q)) = r" by simp
      from Cons(1)[OF this] True show ?thesis by (auto simp: cheaper_eq_def)
    next
      case False
      with Cons(2) Some have "pick_loop h qs (Some (v0, s0, c0)) = r" by auto
      from Cons(1)[OF this] show ?thesis .
    qed
  qed (use Cons in simp)
qed (auto simp: cheaper_eq_def)

lemma pick_loop_best:
  assumes "pick_loop h qs best = Some (v, s, c)"
  shows "(best = Some (v, s, c) \<or> (\<exists>q \<in> set qs. venue q = v \<and> score_bps q h = Some s \<and> route_cost_bps q = c))
    \<and> (\<forall>q \<in> set qs. \<forall>s'. score_bps q h = Some s' \<longrightarrow> cheaper_eq s c s' (route_cost_bps q))"
  using assms
proof (induction h qs best rule: pick_loop.induct)
  case (2 h q qs best)
  show ?case
  proof (cases "score_bps q h")
    case None
    with 2 show ?thesis by auto
  next
    case (Some s1)
    let ?better = "case best of None \<Rightarrow> True | Some (_, bs, brc) \<Rightarrow> s1 < bs \<or> s1 = bs \<and> route_cost_bps q < brc"
    let ?b = "if ?better then Some (venue q, s1, route_cost_bps q) else best"
    have r: "pick_loop h qs ?b = Some (v, s, c)" using 2(3) Some by simp
    have "cheaper_eq s c s1 (route_cost_bps q)"
    proof (cases ?better)
      case True
      with pick_loop_keeps[of h qs "venue q" s1 "route_cost_bps q" "Some (v, s, c)"] r show ?thesis by simp
    next
      case False
      then obtain v0 s0 c0 where b: "best = Some (v0, s0, c0)" "\<not> (s1 < s0 \<or> s1 = s0 \<and> route_cost_bps q < c0)"
        by (cases best) auto
      with pick_loop_keeps[of h qs v0 s0 c0 "Some (v, s, c)"] r False show ?thesis
        by (auto simp: cheaper_eq_def)
    qed
    moreover have ih: "(?b = Some (v, s, c) \<or> (\<exists>q \<in> set qs. venue q = v \<and> score_bps q h = Some s \<and> route_cost_bps q = c))
      \<and> (\<forall>q \<in> set qs. \<forall>s'. score_bps q h = Some s' \<longrightarrow> cheaper_eq s c s' (route_cost_bps q))"
      by (rule 2(2)[OF Some refl r])
    moreover have "?b = Some (v, s, c) \<Longrightarrow> best = Some (v, s, c) \<or> venue q = v \<and> s1 = s \<and> route_cost_bps q = c"
      by (auto split: if_splits)
    ultimately show ?thesis using Some by auto
  qed
qed auto

lemma pick_loop_None: "pick_loop h qs best = None \<longleftrightarrow> best = None \<and> (\<forall>q \<in> set qs. score_bps q h = None)"
  by (induction h qs best rule: pick_loop.induct) (auto split: option.splits if_splits)

lemma pick_cheapest_min:
  assumes "pick_cheapest qs h = Some (v, s)"
  shows "\<exists>q \<in> set qs. venue q = v \<and> score_bps q h = Some s \<and>
    (\<forall>q' \<in> set qs. \<forall>s'. score_bps q' h = Some s' \<longrightarrow> s < s' \<or> s = s' \<and> route_cost_bps q \<le> route_cost_bps q')"
proof -
  from assms obtain c where "pick_loop h qs None = Some (v, s, c)" by (auto simp: pick_cheapest_def)
  from pick_loop_best[OF this] show ?thesis by (auto simp: cheaper_eq_def)
qed

text \<open>A route of three hops has no encoding.\<close>

lemma three_hops_empty: "length (hops p) = 3 \<Longrightarrow> fetched p = [] \<Longrightarrow> route_bytes p = []"
  by (simp add: route_bytes_def)

end
