(* ===== verification/Seed_Shares.thy ===== *)
theory Seed_Shares
  imports Evm_Calls Hex
begin

section \<open>Seed shares (quid-common/src/seed_shares.rs)\<close>

text \<open>
  A root seed split into shares of which a threshold recovers it, and the line of text a share is
  written down as. The Shamir scheme of the sharks crate, SHA-256 and the BIP39 sentences are
  parameters: the dealer hands out \<open>x\<close> followed by the y-values, recovery takes a threshold and
  such shares, a payload has a sentence and a sentence may parse. Text is ASCII, so its white
  space is that of ASCII. Zeroization is not modelled.
\<close>

datatype share_error =
    ThresholdTooSmall | CountBelowThreshold | BadShareWidth
  | NoShares | ThresholdsDisagree | CommitmentsDisagree | DuplicateIndex | TooFewShares | MalformedShare
  | RecoveryFailed | BadSeedLength | CommitmentMismatch
  | NoTag | NoPosition | NoCommitment | WordCount | NoSlash | BadIndex | BadThreshold | BadHex | BadSentence
  | BadPayload | NoShareLines

record SeedShare =
  index :: nat
  threshold :: nat
  commitment :: bytes
  payload :: bytes

definition SHARE_TAG :: string where "SHARE_TAG = ''quid-seed-share''"
definition COMMITMENT_LABEL :: bytes where "COMMITMENT_LABEL = ascii ''QUID-REALM::SeedShare::commitment''"
definition SEED_LENGTH :: nat where "SEED_LENGTH = 32"

record share_lib =
  sha256 :: "bytes \<Rightarrow> bytes"
  dealer :: "nat \<Rightarrow> bytes \<Rightarrow> nat \<Rightarrow> bytes"
  share_parses :: "bytes \<Rightarrow> bool"
  recover :: "nat \<Rightarrow> bytes list \<Rightarrow> bytes option"
  to_words :: "bytes \<Rightarrow> string list"
  parse_words :: "string list \<Rightarrow> bytes option"

definition commit_to :: "share_lib \<Rightarrow> bytes \<Rightarrow> bytes" where
  "commit_to lib seed = take 4 (sha256 lib (COMMITMENT_LABEL @ seed))"

fun deal :: "share_lib \<Rightarrow> nat \<Rightarrow> bytes \<Rightarrow> nat list \<Rightarrow> share_error + SeedShare list" where
  "deal lib k seed [] = Inr []"
| "deal lib k seed (i # is) =
    (let bs = dealer lib k seed i
     in if length bs \<noteq> SEED_LENGTH + 1 then Inl BadShareWidth
        else case deal lib k seed is of Inl e \<Rightarrow> Inl e
          | Inr out \<Rightarrow> Inr (\<lparr>index = unat (hd bs), threshold = k, commitment = commit_to lib seed,
                            payload = tl bs\<rparr> # out))"

definition split_seed :: "share_lib \<Rightarrow> bytes \<Rightarrow> nat \<Rightarrow> nat \<Rightarrow> share_error + SeedShare list" where
  "split_seed lib seed k count =
    (if k < 2 then Inl ThresholdTooSmall
     else if count < k then Inl CountBelowThreshold
     else deal lib k seed [0..<count])"

fun dedup :: "nat list \<Rightarrow> nat list" where
  "dedup [] = []"
| "dedup [x] = [x]"
| "dedup (x # y # xs) = (if x = y then dedup (y # xs) else x # dedup (y # xs))"

definition share_bytes :: "SeedShare \<Rightarrow> bytes" where
  "share_bytes s = word_of_nat (index s) # payload s"

definition combine :: "share_lib \<Rightarrow> SeedShare list \<Rightarrow> share_error + bytes" where
  "combine lib shares =
    (case shares of [] \<Rightarrow> Inl NoShares
     | first # _ \<Rightarrow>
         if \<not> list_all (\<lambda>s. threshold s = threshold first) shares then Inl ThresholdsDisagree
         else if \<not> list_all (\<lambda>s. commitment s = commitment first) shares then Inl CommitmentsDisagree
         else let distinct_count = length (dedup (sort (map index shares)))
           in if distinct_count \<noteq> length shares then Inl DuplicateIndex
         else if distinct_count < threshold first then Inl TooFewShares
         else if \<not> list_all (\<lambda>s. share_parses lib (share_bytes s)) shares then Inl MalformedShare
         else case recover lib (threshold first) (map share_bytes shares) of None \<Rightarrow> Inl RecoveryFailed
         | Some seed \<Rightarrow>
             if length seed \<noteq> SEED_LENGTH then Inl BadSeedLength
             else if commit_to lib seed \<noteq> commitment first then Inl CommitmentMismatch
             else Inr seed)"

subsection \<open>Written form\<close>

definition is_ws :: "char \<Rightarrow> bool" where
  "is_ws c \<longleftrightarrow> (of_char c :: nat) \<in> {9, 10, 11, 12, 13, 32}"

definition trim_ws :: "string \<Rightarrow> string" where
  "trim_ws s = rev (dropWhile is_ws (rev (dropWhile is_ws s)))"

function split_whitespace :: "string \<Rightarrow> string list" where
  "split_whitespace s =
    (let r = dropWhile is_ws s
     in if r = [] then [] else takeWhile (\<lambda>c. \<not> is_ws c) r # split_whitespace (dropWhile (\<lambda>c. \<not> is_ws c) r))"
  by auto
termination
proof (relation "measure length", simp)
  fix s r assume r: "r = dropWhile is_ws s" "r \<noteq> []"
  have "\<not> is_ws (hd r)" using r hd_dropWhile by blast
  then have "length (dropWhile (\<lambda>c. \<not> is_ws c) r) < length r"
    using r(2) by (cases r) (auto simp: le_imp_less_Suc length_dropWhile_le)
  also have "\<dots> \<le> length s" by (simp add: r(1) length_dropWhile_le)
  finally show "(dropWhile (\<lambda>c. \<not> is_ws c) r, s) \<in> measure length" by simp
qed

declare split_whitespace.simps [simp del]

fun join_words :: "string list \<Rightarrow> string" where
  "join_words [] = []"
| "join_words [w] = w"
| "join_words (w # v # ws) = w @ '' '' @ join_words (v # ws)"

definition digit :: "nat \<Rightarrow> char" where "digit d = char_of (48 + d)"

fun show_nat :: "nat \<Rightarrow> string" where
  "show_nat n = (if n < 10 then [digit n] else show_nat (n div 10) @ [digit (n mod 10)])"

declare show_nat.simps [simp del]

definition is_digit :: "char \<Rightarrow> bool" where
  "is_digit c \<longleftrightarrow> 48 \<le> (of_char c :: nat) \<and> (of_char c :: nat) \<le> 57"

definition dec_value :: "string \<Rightarrow> nat" where
  "dec_value s = foldl (\<lambda>n c. 10 * n + (of_char c - 48)) 0 s"

text \<open>\<open>str::parse::<u8>\<close>: a plus sign is allowed in front.\<close>

definition parse_u8 :: "string \<Rightarrow> nat option" where
  "parse_u8 s =
    (let ds = (case s of CHR ''+'' # d # r \<Rightarrow> d # r | _ \<Rightarrow> s)
     in if ds \<noteq> [] \<and> list_all is_digit ds \<and> dec_value ds < 256 then Some (dec_value ds) else None)"

definition split_once :: "char \<Rightarrow> string \<Rightarrow> (string \<times> string) option" where
  "split_once c s = (if c \<in> set s then Some (takeWhile (\<lambda>x. x \<noteq> c) s, tl (dropWhile (\<lambda>x. x \<noteq> c) s)) else None)"

definition strip_prefix :: "string \<Rightarrow> string \<Rightarrow> string option" where
  "strip_prefix p s = (if take (length p) s = p then Some (drop (length p) s) else None)"

definition text_of :: "bytes \<Rightarrow> string" where
  "text_of bs = map (\<lambda>b. char_of (unat b)) bs"

definition share_to_string :: "share_lib \<Rightarrow> SeedShare \<Rightarrow> string" where
  "share_to_string lib s =
    SHARE_TAG @ '' '' @ show_nat (index s) @ ''/'' @ show_nat (threshold s) @ '' ''
      @ text_of (hex_encode (commitment s)) @ '' '' @ join_words (to_words lib (payload s))"

definition share_from_str :: "share_lib \<Rightarrow> string \<Rightarrow> share_error + SeedShare" where
  "share_from_str lib line =
    (case strip_prefix SHARE_TAG (trim_ws line) of None \<Rightarrow> Inl NoTag
     | Some rest \<Rightarrow> (case split_whitespace rest of
         [] \<Rightarrow> Inl NoPosition
       | [_] \<Rightarrow> Inl NoCommitment
       | pos # commitment_hex # words \<Rightarrow>
           if length words \<noteq> 24 then Inl WordCount
           else (case split_once (CHR ''/'') pos of None \<Rightarrow> Inl NoSlash
           | Some (i, k) \<Rightarrow> (case parse_u8 i of None \<Rightarrow> Inl BadIndex
             | Some i \<Rightarrow> (case parse_u8 k of None \<Rightarrow> Inl BadThreshold
               | Some k \<Rightarrow> (case decode_to_slice (ascii commitment_hex) 4 of Inl e \<Rightarrow> Inl BadHex
                 | Inr com \<Rightarrow> (case parse_words lib words of None \<Rightarrow> Inl BadSentence
                   | Some entropy \<Rightarrow>
                       if length entropy \<noteq> SEED_LENGTH then Inl BadPayload
                       else Inr \<lparr>index = i, threshold = k, commitment = com, payload = entropy\<rparr>)))))))"

text \<open>\<open>str::lines\<close>\<close>

function text_lines :: "string \<Rightarrow> string list" where
  "text_lines s =
    (if s = [] then []
     else let l = takeWhile (\<lambda>c. c \<noteq> CHR 0x0A) s
          in (if l \<noteq> [] \<and> last l = CHR 0x0D then butlast l else l)
             # text_lines (drop 1 (dropWhile (\<lambda>c. c \<noteq> CHR 0x0A) s)))"
  by auto
termination
proof (relation "measure length", simp)
  fix s :: string and l assume "s \<noteq> []"
  have "length (drop 1 (dropWhile (\<lambda>c. c \<noteq> CHR 0x0A) s)) < length s"
  proof (cases "dropWhile (\<lambda>c. c \<noteq> CHR 0x0A) s")
    case Nil
    show ?thesis unfolding Nil using \<open>s \<noteq> []\<close> by simp
  next
    case (Cons c cs)
    then have "length (c # cs) \<le> length s" by (metis length_dropWhile_le)
    with Cons show ?thesis by simp
  qed
  then show "(drop 1 (dropWhile (\<lambda>c. c \<noteq> CHR 0x0A) s), s) \<in> measure length" by simp
qed

declare text_lines.simps [simp del]

fun parse_lines :: "share_lib \<Rightarrow> string list \<Rightarrow> share_error + SeedShare list" where
  "parse_lines lib [] = Inr []"
| "parse_lines lib (line # ls) =
    (let line = trim_ws line
     in if line = [] \<or> hd line = CHR ''#'' then parse_lines lib ls
        else case share_from_str lib line of Inl e \<Rightarrow> Inl e
          | Inr s \<Rightarrow> (case parse_lines lib ls of Inl e \<Rightarrow> Inl e | Inr out \<Rightarrow> Inr (s # out)))"

definition parse_share_set :: "share_lib \<Rightarrow> string \<Rightarrow> share_error + SeedShare list" where
  "parse_share_set lib text =
    (case parse_lines lib (text_lines text) of Inl e \<Rightarrow> Inl e
     | Inr out \<Rightarrow> if out = [] then Inl NoShareLines else Inr out)"

subsection \<open>Recovery\<close>

lemma set_dedup [simp]: "set (dedup xs) = set xs"
  by (induction xs rule: dedup.induct) auto

lemma dedup_sorted: "sorted xs \<Longrightarrow> distinct (dedup xs)"
proof (induction xs rule: dedup.induct)
  case (3 x y xs)
  then show ?case by (cases "x = y") auto
qed auto

lemma dedup_count: "length (dedup (sort xs)) = card (set xs)"
  using distinct_card[of "dedup (sort xs)"] dedup_sorted[of "sort xs"] by simp

lemma dedup_distinct: "length (dedup (sort xs)) = length xs \<longleftrightarrow> distinct xs"
  by (simp add: dedup_count card_distinct distinct_card) (metis card_distinct distinct_card)

text \<open>What a recovered seed has behind it, whatever the scheme returned.\<close>

lemma combine_sound:
  assumes "combine lib shares = Inr seed"
  shows "shares \<noteq> [] \<and> length seed = SEED_LENGTH \<and> distinct (map index shares) \<and>
    (\<forall>s \<in> set shares. commitment s = commit_to lib seed \<and> threshold s \<le> length shares \<and>
       recover lib (threshold s) (map share_bytes shares) = Some seed)"
proof (cases shares)
  case (Cons f rest)
  let ?n = "length (dedup (sort (map index shares)))"
  from assms Cons have
    c: "list_all (\<lambda>s. threshold s = threshold f) shares" "list_all (\<lambda>s. commitment s = commitment f) shares"
       "?n = length shares" "threshold f \<le> ?n" "recover lib (threshold f) (map share_bytes shares) = Some seed"
       "length seed = SEED_LENGTH" "commit_to lib seed = commitment f"
    unfolding combine_def Let_def by (auto split: if_splits option.splits)
  moreover have "distinct (map index shares)" using c(3) dedup_distinct[of "map index shares"] by simp
  ultimately show ?thesis using Cons by (auto simp: list_all_iff)
qed (use assms in \<open>simp add: combine_def\<close>)

text \<open>The shares a split hands out.\<close>

lemma deal_shares:
  assumes "deal lib k seed is = Inr out"
  shows "length out = length is \<and> (\<forall>s \<in> set out. threshold s = k \<and> commitment s = commit_to lib seed
    \<and> length (payload s) = SEED_LENGTH \<and> index s < 256 \<and> (\<exists>i \<in> set is. share_bytes s = dealer lib k seed i))"
  using assms
proof (induction "is" arbitrary: out)
  case (Cons i "is")
  let ?b = "dealer lib k seed i"
  from Cons(2) obtain r where r: "length ?b = SEED_LENGTH + 1" "deal lib k seed is = Inr r"
    "out = \<lparr>index = unat (hd ?b), threshold = k, commitment = commit_to lib seed, payload = tl ?b\<rparr> # r"
    by (auto simp: Let_def split: if_splits sum.splits)
  moreover have "hd ?b # tl ?b = ?b" using r(1) by (cases ?b) auto
  ultimately show ?case using Cons(1)[OF r(2)] by (auto simp: share_bytes_def)
qed simp

text \<open>
  The documented behaviour of the scheme: any set of distinct points of one deal, at least as many
  as the threshold, recovers the secret; a dealt point is well formed.
\<close>

definition scheme_recovers :: "share_lib \<Rightarrow> bool" where
  "scheme_recovers lib \<longleftrightarrow> (\<forall>k seed is. 2 \<le> k \<longrightarrow> length seed = SEED_LENGTH \<longrightarrow> k \<le> length is \<longrightarrow>
     distinct (map (\<lambda>i. hd (dealer lib k seed i)) is) \<longrightarrow>
     recover lib k (map (dealer lib k seed) is) = Some seed)
   \<and> (\<forall>k seed i. share_parses lib (dealer lib k seed i))"

lemma shares_of_deal:
  assumes "\<forall>s \<in> set shares. \<exists>i. share_bytes s = dealer lib k seed i"
  shows "\<exists>is. map share_bytes shares = map (dealer lib k seed) is"
  using assms
proof (induction shares)
  case (Cons s shares)
  then obtain i "is" where "share_bytes s = dealer lib k seed i" "map share_bytes shares = map (dealer lib k seed) is" by auto
  then show ?case by (intro exI[of _ "i # is"]) simp
qed simp

lemma split_combine:
  assumes "scheme_recovers lib" "split_seed lib seed k count = Inr out" "length seed = SEED_LENGTH"
    and "set shares \<subseteq> set out" "distinct (map index shares)" "k \<le> length shares"
  shows "combine lib shares = Inr seed"
proof -
  from assms(2) have k: "2 \<le> k" and d: "deal lib k seed [0..<count] = Inr out"
    by (auto simp: split_seed_def split: if_splits)
  have s: "threshold s = k \<and> commitment s = commit_to lib seed \<and> index s < 256 \<and> (\<exists>i. share_bytes s = dealer lib k seed i)"
    if "s \<in> set shares" for s using deal_shares[OF d] that assms(4) by blast
  have w: "distinct (map (\<lambda>s. word_of_nat (index s) :: byte) shares)"
  proof -
    have "inj_on (\<lambda>i. word_of_nat i :: byte) (index ` set shares)"
      by (rule inj_on_inverseI[where g = unat]) (use s in auto)
    with assms(5) have "distinct (map (\<lambda>i. word_of_nat i :: byte) (map index shares))"
      by (simp add: distinct_map del: map_map)
    then show ?thesis by (simp add: comp_def)
  qed
  from s obtain "is" where i: "map share_bytes shares = map (dealer lib k seed) is" using shares_of_deal by blast
  have "map (\<lambda>i. hd (dealer lib k seed i)) is = map hd (map (dealer lib k seed) is)" by simp
  also have "\<dots> = map (\<lambda>s. word_of_nat (index s)) shares" unfolding i[symmetric] by (simp add: share_bytes_def)
  finally have h: "map (\<lambda>i. hd (dealer lib k seed i)) is = map (\<lambda>s. word_of_nat (index s)) shares" .
  have "length is = length shares" using arg_cong[OF i, of length] by simp
  then have "recover lib k (map share_bytes shares) = Some seed"
    unfolding i using assms(1)[unfolded scheme_recovers_def, THEN conjunct1, rule_format, of k seed "is"] assms(3,6) w k h
    by simp
  moreover have "share_parses lib (share_bytes s)" if "s \<in> set shares" for s
    using s[OF that] assms(1) by (auto simp: scheme_recovers_def)
  moreover obtain f rest where "shares = f # rest" using assms(6) k by (cases shares) auto
  ultimately show ?thesis
    using s assms(3,5,6) dedup_distinct[of "map index shares"]
    by (auto simp: combine_def Let_def list_all_iff)
qed

subsection \<open>A share read back from its line\<close>

definition plain_word :: "string \<Rightarrow> bool" where
  "plain_word w \<longleftrightarrow> w \<noteq> [] \<and> list_all (\<lambda>c. \<not> is_ws c) w"

lemma ws_space [simp]: "is_ws (CHR '' '')"
  by code_simp

lemma takeWhile_plain:
  "plain_word w \<Longrightarrow> takeWhile (\<lambda>c. \<not> is_ws c) (w @ CHR '' '' # r) = w"
  "plain_word w \<Longrightarrow> dropWhile (\<lambda>c. \<not> is_ws c) (w @ CHR '' '' # r) = CHR '' '' # r"
  "plain_word w \<Longrightarrow> takeWhile (\<lambda>c. \<not> is_ws c) w = w"
  "plain_word w \<Longrightarrow> dropWhile (\<lambda>c. \<not> is_ws c) w = []"
  by (auto simp: plain_word_def list_all_iff takeWhile_append2 dropWhile_append2)

lemma dropWhile_plain: "plain_word w \<Longrightarrow> dropWhile is_ws (w @ r) = w @ r"
  by (cases w) (auto simp: plain_word_def)

lemma split_space: "split_whitespace (CHR '' '' # r) = split_whitespace r"
  by (subst (1 2) split_whitespace.simps) simp

lemma split_word: "plain_word w \<Longrightarrow> split_whitespace (w @ CHR '' '' # r) = w # split_whitespace r"
  by (subst split_whitespace.simps)
     (simp add: Let_def dropWhile_plain takeWhile_plain split_space plain_word_def[of w])

lemma split_last: "plain_word w \<Longrightarrow> split_whitespace w = [w]"
  using dropWhile_plain[of w "[]"]
  by (subst split_whitespace.simps) (simp add: takeWhile_plain split_whitespace.simps[of "[]"] plain_word_def[of w])

lemma split_join: "list_all plain_word ws \<Longrightarrow> split_whitespace (join_words ws) = ws"
proof (induction ws rule: join_words.induct)
  case 1
  show ?case by (simp add: split_whitespace.simps)
next
  case (3 w v ws)
  then show ?case by (simp add: split_word)
qed (simp add: split_last)

lemma of_char_digit: "d < 10 \<Longrightarrow> (of_char (digit d) :: nat) = 48 + d"
  by (simp add: digit_def)

lemma is_digit_digit: "d < 10 \<Longrightarrow> is_digit (digit d)"
  by (simp add: is_digit_def of_char_digit)

lemma show_nat_digits: "show_nat n \<noteq> [] \<and> list_all is_digit (show_nat n) \<and> dec_value (show_nat n) = n"
proof (induction n rule: show_nat.induct)
  case (1 n)
  show ?case
  proof (cases "n < 10")
    case True
    then show ?thesis by (subst (1 2 3) show_nat.simps) (simp add: is_digit_digit dec_value_def of_char_digit)
  next
    case False
    with 1 show ?thesis
      by (subst (1 2 3) show_nat.simps) (simp add: is_digit_digit dec_value_def of_char_digit)
  qed
qed

lemma digit_not: "is_digit c \<Longrightarrow> \<not> is_ws c \<and> c \<noteq> CHR ''/'' \<and> c \<noteq> CHR ''+''"
  by (auto simp: is_digit_def is_ws_def)

lemma parse_show: "n < 256 \<Longrightarrow> parse_u8 (show_nat n) = Some n"
proof -
  assume n: "n < 256"
  obtain c cs where s: "show_nat n = c # cs" "is_digit c" "list_all is_digit cs"
    using show_nat_digits[of n] by (cases "show_nat n") auto
  then have "c \<noteq> CHR ''+''" using digit_not by blast
  then have "(case show_nat n of CHR ''+'' # d # r \<Rightarrow> d # r | _ \<Rightarrow> show_nat n) = show_nat n"
    by (auto simp: s(1) split: char.splits bool.splits list.splits)
  then show ?thesis using show_nat_digits[of n] n by (simp add: parse_u8_def)
qed

lemma split_once_show: "split_once (CHR ''/'') (show_nat i @ CHR ''/'' # r) = Some (show_nat i, r)"
proof -
  have "list_all (\<lambda>c. c \<noteq> CHR ''/'') (show_nat i)"
    using show_nat_digits[of i] digit_not by (auto simp: list_all_iff)
  then show ?thesis by (auto simp: split_once_def list_all_iff takeWhile_append2 dropWhile_append2)
qed

lemma ascii_text_of: "ascii (text_of bs) = bs"
proof -
  have "of_char (char_of (unat b)) = b" for b :: byte
  proof -
    have "(of_char (char_of (unat b)) :: byte) = of_nat (of_char (char_of (unat b) :: char))"
      by (simp only: of_nat_of_char)
    also have "\<dots> = of_nat (unat b mod 256)" by (simp only: of_char_of)
    finally show ?thesis by simp
  qed
  then show ?thesis by (simp add: ascii_def text_of_def comp_def)
qed

lemma hex_text_plain: "bs \<noteq> [] \<Longrightarrow> plain_word (text_of (hex_encode bs))"
proof -
  assume "bs \<noteq> []"
  then have "hex_encode bs \<noteq> []" by (cases bs) auto
  moreover have "\<not> is_ws (char_of (unat c))" if "c \<in> set (hex_encode bs)" for c
  proof -
    have "is_hex_char c" using hex_encode_chars[OF that] .
    then have "48 \<le> unat c" by (auto simp: is_hex_char_def word_le_nat_alt)
    then show ?thesis by (auto simp: is_ws_def)
  qed
  ultimately show ?thesis by (auto simp: plain_word_def text_of_def list_all_iff)
qed

text \<open>
  The documented behaviour of BIP39 that a line relies on: a 32-byte payload has a sentence of 24
  words without white space, and the sentence parses back.
\<close>

definition sentences_parse :: "share_lib \<Rightarrow> bool" where
  "sentences_parse lib \<longleftrightarrow> (\<forall>p. length p = SEED_LENGTH \<longrightarrow> length (to_words lib p) = 24
    \<and> list_all plain_word (to_words lib p) \<and> parse_words lib (to_words lib p) = Some p)"

definition wf_share :: "SeedShare \<Rightarrow> bool" where
  "wf_share s \<longleftrightarrow> index s < 256 \<and> threshold s < 256 \<and> length (commitment s) = 4 \<and> length (payload s) = SEED_LENGTH"

lemma split_seed_wf:
  assumes "split_seed lib seed k count = Inr out" "\<And>m. length (sha256 lib m) = 32" "k < 256" "s \<in> set out"
  shows "wf_share s"
proof -
  from assms(1) have "deal lib k seed [0..<count] = Inr out" by (auto simp: split_seed_def split: if_splits)
  from deal_shares[OF this] assms(2-4) show ?thesis by (auto simp: wf_share_def commit_to_def)
qed

lemma wf_share_hex: "wf_share s \<Longrightarrow> plain_word (text_of (hex_encode (commitment s)))"
  by (rule hex_text_plain) (auto simp: wf_share_def)

lemma trim_id:
  assumes "s \<noteq> []" "\<not> is_ws (hd s)" "\<not> is_ws (last s)"
  shows "trim_ws s = s"
proof -
  have "dropWhile is_ws s = s" using assms(1,2) by (cases s) auto
  moreover have "dropWhile is_ws (rev s) = rev s" using assms(1,3) by (cases "rev s") (auto simp: last_rev hd_rev dest: arg_cong[of _ _ rev])
  ultimately show ?thesis by (simp add: trim_ws_def)
qed

lemma last_join: "list_all plain_word ws \<Longrightarrow> ws \<noteq> [] \<Longrightarrow> join_words ws \<noteq> [] \<and> \<not> is_ws (last (join_words ws))"
  by (induction ws rule: join_words.induct) (auto simp: plain_word_def list_all_iff)

lemma position_plain: "plain_word (show_nat i @ CHR ''/'' # show_nat k)"
  using show_nat_digits[of i] show_nat_digits[of k] digit_not
  by (auto simp: plain_word_def list_all_iff is_ws_def)

lemma share_line:
  assumes "sentences_parse lib" "wf_share s"
  shows "share_to_string lib s = SHARE_TAG @ CHR '' '' #
      join_words ((show_nat (index s) @ CHR ''/'' # show_nat (threshold s)) # text_of (hex_encode (commitment s)) # to_words lib (payload s))"
    and "trim_ws (share_to_string lib s) = share_to_string lib s"
proof -
  have w: "length (to_words lib (payload s)) = 24" "list_all plain_word (to_words lib (payload s))"
    using assms by (auto simp: sentences_parse_def wf_share_def)
  then obtain x xs where x: "to_words lib (payload s) = x # xs" by (cases "to_words lib (payload s)") auto
  show e: "share_to_string lib s = SHARE_TAG @ CHR '' '' #
      join_words ((show_nat (index s) @ CHR ''/'' # show_nat (threshold s)) # text_of (hex_encode (commitment s)) # to_words lib (payload s))"
    by (simp add: share_to_string_def x)
  have "list_all plain_word ((show_nat (index s) @ CHR ''/'' # show_nat (threshold s)) # text_of (hex_encode (commitment s)) # to_words lib (payload s))"
    using w position_plain wf_share_hex[OF assms(2)] by simp
  from last_join[OF this] show "trim_ws (share_to_string lib s) = share_to_string lib s"
    unfolding e by (intro trim_id) (auto simp: SHARE_TAG_def is_ws_def)
qed

lemma share_round_trip:
  assumes "sentences_parse lib" "wf_share s"
  shows "share_from_str lib (share_to_string lib s) = Inr s"
proof -
  let ?w = "(show_nat (index s) @ CHR ''/'' # show_nat (threshold s)) # text_of (hex_encode (commitment s)) # to_words lib (payload s)"
  have w: "length (to_words lib (payload s)) = 24" "list_all plain_word (to_words lib (payload s))"
    "parse_words lib (to_words lib (payload s)) = Some (payload s)"
    using assms by (auto simp: sentences_parse_def wf_share_def)
  have "list_all plain_word ?w"
    using w position_plain wf_share_hex[OF assms(2)] by simp
  then have sp: "split_whitespace (CHR '' '' # join_words ?w) = ?w" by (simp only: split_space split_join)
  have st: "strip_prefix SHARE_TAG (share_to_string lib s) = Some (CHR '' '' # join_words ?w)"
    unfolding share_line(1)[OF assms] by (simp add: strip_prefix_def)
  have h: "decode_to_slice (hex_encode (commitment s)) 4 = Inr (commitment s)"
    using assms(2) by (simp add: decode_to_slice_iff wf_share_def)
  show ?thesis
    unfolding share_from_str_def share_line(2)[OF assms] st option.case sp
    using assms(2) w by (simp add: split_once_show parse_show ascii_text_of h wf_share_def)
qed

subsection \<open>A set of shares read back from text\<close>

text \<open>Lines joined by line feeds, with a comment line after each.\<close>

definition share_text :: "share_lib \<Rightarrow> string \<Rightarrow> SeedShare list \<Rightarrow> string" where
  "share_text lib remark shares = concat (map (\<lambda>s. share_to_string lib s @ CHR 0x0A # CHR ''#'' # remark @ [CHR 0x0A]) shares)"

lemma lines_cons:
  assumes "CHR 0x0A \<notin> set l" "l = [] \<or> last l \<noteq> CHR 0x0D"
  shows "text_lines (l @ CHR 0x0A # r) = l # text_lines r"
proof -
  have "\<And>c. c \<in> set l \<Longrightarrow> c \<noteq> CHR 0x0A" using assms(1) by auto
  then have "takeWhile (\<lambda>c. c \<noteq> CHR 0x0A) (l @ CHR 0x0A # r) = l" "dropWhile (\<lambda>c. c \<noteq> CHR 0x0A) (l @ CHR 0x0A # r) = CHR 0x0A # r"
    by (simp_all add: takeWhile_append2 dropWhile_append2)
  then show ?thesis using assms(2) by (subst text_lines.simps) (auto simp: Let_def)
qed

lemma join_no_newline: "list_all plain_word ws \<Longrightarrow> CHR 0x0A \<notin> set (join_words ws)"
proof (induction ws rule: join_words.induct)
  case (2 w)
  then show ?case by (auto simp: plain_word_def list_all_iff is_ws_def)
next
  case (3 w v ws)
  then show ?case by (auto simp: plain_word_def list_all_iff is_ws_def)
qed simp

lemma share_line_plain:
  assumes "sentences_parse lib" "wf_share s"
  shows "CHR 0x0A \<notin> set (share_to_string lib s)" "last (share_to_string lib s) \<noteq> CHR 0x0D"
    "share_to_string lib s \<noteq> []" "hd (share_to_string lib s) \<noteq> CHR ''#''"
proof -
  let ?w = "(show_nat (index s) @ CHR ''/'' # show_nat (threshold s)) # text_of (hex_encode (commitment s)) # to_words lib (payload s)"
  have p: "list_all plain_word ?w"
    using assms position_plain wf_share_hex[OF assms(2)] by (auto simp: sentences_parse_def wf_share_def)
  note e = share_line(1)[OF assms]
  show "CHR 0x0A \<notin> set (share_to_string lib s)" using join_no_newline[OF p] unfolding e by (auto simp: SHARE_TAG_def)
  have "\<not> is_ws (last (join_words ?w))" "join_words ?w \<noteq> []" using last_join[OF p] by auto
  then show "last (share_to_string lib s) \<noteq> CHR 0x0D" unfolding e by (auto simp: is_ws_def)
  show "share_to_string lib s \<noteq> []" "hd (share_to_string lib s) \<noteq> CHR ''#''" unfolding e by (auto simp: SHARE_TAG_def)
qed

lemma trim_comment: "\<exists>r. trim_ws (CHR ''#'' # remark) = CHR ''#'' # r"
proof -
  have "rev (dropWhile is_ws (rev (CHR ''#'' # remark))) \<noteq> [] \<and> hd (rev (dropWhile is_ws (rev (CHR ''#'' # remark)))) = CHR ''#''"
  proof -
    have "dropWhile is_ws (rev remark @ [CHR ''#'']) = dropWhile is_ws (rev remark) @ [CHR ''#'']"
      by (induction "rev remark" arbitrary: remark) (auto simp: dropWhile_append is_ws_def dropWhile_append3)
    then show ?thesis by simp
  qed
  then obtain r where "rev (dropWhile is_ws (rev (CHR ''#'' # remark))) = CHR ''#'' # r"
    by (metis list.exhaust_sel)
  then show ?thesis by (auto simp: trim_ws_def is_ws_def)
qed

lemma parse_share_text:
  assumes "sentences_parse lib" "\<forall>s \<in> set shares. wf_share s" "CHR 0x0A \<notin> set remark" "remark = [] \<or> last remark \<noteq> CHR 0x0D"
  shows "parse_lines lib (text_lines (share_text lib remark shares)) = Inr shares"
  using assms(2)
proof (induction shares)
  case Nil
  show ?case by (simp add: share_text_def text_lines.simps)
next
  case (Cons s shares)
  then have wf: "wf_share s" by simp
  note p = share_line_plain[OF assms(1) wf]
  obtain r where r: "trim_ws (CHR ''#'' # remark) = CHR ''#'' # r" using trim_comment by blast
  have "share_text lib remark (s # shares) =
      share_to_string lib s @ CHR 0x0A # (CHR ''#'' # remark) @ CHR 0x0A # share_text lib remark shares"
    by (simp add: share_text_def)
  moreover have "text_lines ((CHR ''#'' # remark) @ CHR 0x0A # share_text lib remark shares)
      = (CHR ''#'' # remark) # text_lines (share_text lib remark shares)"
    by (rule lines_cons) (use assms(3,4) in auto)
  ultimately have "text_lines (share_text lib remark (s # shares)) =
      share_to_string lib s # (CHR ''#'' # remark) # text_lines (share_text lib remark shares)"
    using p lines_cons[of "share_to_string lib s"] by simp
  then show ?case
    using Cons share_line(2)[OF assms(1) wf] share_round_trip[OF assms(1) wf] p r by simp
qed

end
