(* ===== verification/Taproot_Signer.thy ===== *)
theory Taproot_Signer
  imports Evm_Calls
begin

section \<open>MuSig2 sessions on the funding key (quid-ln/src/taproot_signer.rs)\<close>

text \<open>
  How a channel half derives the secret nonce of a signing session and produces its partial
  signature. The hashes and the musig2 crate are the parameter record \<open>musig_lib\<close>; a key
  aggregation context is an opaque value of that crate, and a first round is what it was built
  from, since the crate's round is a function of it. Three kinds of session exist: the untagged
  one of the holder, the counterparty's and the dead-man exit's.
\<close>

type_synonym KeyAggContext = bytes

record spices =
  spice_message :: "bytes option"
  spice_extra :: "bytes option"

definition no_spices :: spices where
  "no_spices = \<lparr>spice_message = None, spice_extra = None\<rparr>"

record FirstRound =
  fr_ctx :: KeyAggContext
  fr_seed :: bytes
  fr_index :: nat
  fr_spices :: spices

record musig_lib =
  m_sha256 :: "bytes \<Rightarrow> bytes"
  m_hmac :: "bytes \<Rightarrow> bytes \<Rightarrow> bytes"
  pubkey_parses :: "bytes \<Rightarrow> bool"
  key_agg_new :: "bytes \<Rightarrow> bytes \<Rightarrow> KeyAggContext option"
  taproot_tweak :: "KeyAggContext \<Rightarrow> KeyAggContext option"
  xonly_of :: "KeyAggContext \<Rightarrow> bytes"
  round_sets_up :: "FirstRound \<Rightarrow> bool"
  public_nonce :: "FirstRound \<Rightarrow> bytes"
  takes_nonce :: "FirstRound \<Rightarrow> nat \<Rightarrow> bytes \<Rightarrow> bool"
  finalize_round :: "FirstRound \<Rightarrow> nat \<Rightarrow> bytes \<Rightarrow> bytes \<Rightarrow> bytes \<Rightarrow> bytes option"
  nonce_sum :: "bytes \<Rightarrow> bytes \<Rightarrow> bytes"
  aggregate_partial_signatures :: "KeyAggContext \<Rightarrow> bytes \<Rightarrow> bytes list \<Rightarrow> bytes \<Rightarrow> bytes option"

datatype KeyAggError = BadPubkey | Aggregate | Tweak | NotAParticipant
datatype SignError = RoundSetup | NonceError | FinalizeError | PartialVerify | AggregateError

subsection \<open>Nonce seeds\<close>

definition COUNTERPARTY_COMMITMENT_NONCE_TAG :: bytes where
  "COUNTERPARTY_COMMITMENT_NONCE_TAG = ascii ''quid/musig2/counterparty-commitment''"

definition DEAD_MAN_EXIT_NONCE_TAG :: bytes where
  "DEAD_MAN_EXIT_NONCE_TAG = ascii ''quid/musig2/dead-man-exit''"

definition musig2_shachain_root :: "musig_lib \<Rightarrow> bytes \<Rightarrow> bytes" where
  "musig2_shachain_root lib shachain_root = m_sha256 lib shachain_root"

definition derive_secnonce_seed :: "musig_lib \<Rightarrow> bytes \<Rightarrow> nat \<Rightarrow> bytes" where
  "derive_secnonce_seed lib shachain_root ht =
    m_hmac lib (musig2_shachain_root lib shachain_root) (be_octets 8 ht)"

definition derive_secnonce_seed_domain :: "musig_lib \<Rightarrow> bytes \<Rightarrow> nat \<Rightarrow> bytes \<Rightarrow> bytes" where
  "derive_secnonce_seed_domain lib shachain_root ht domain =
    m_hmac lib (musig2_shachain_root lib shachain_root) (domain @ be_octets 8 ht)"

subsection \<open>Key aggregation\<close>

definition channel_key_agg_ctx ::
    "musig_lib \<Rightarrow> bytes \<Rightarrow> bytes \<Rightarrow> bytes \<Rightarrow> KeyAggError + KeyAggContext \<times> nat" where
  "channel_key_agg_ctx lib lp hop my_funding_pubkey =
    (let (lo, hi) = (if \<not> bytes_le hop lp then (lp, hop) else (hop, lp))
     in if \<not> pubkey_parses lib lo \<or> \<not> pubkey_parses lib hi then Inl BadPubkey
        else case key_agg_new lib lo hi of None \<Rightarrow> Inl Aggregate
        | Some plain \<Rightarrow> (case taproot_tweak lib plain of None \<Rightarrow> Inl Tweak
          | Some ctx \<Rightarrow>
              if my_funding_pubkey = lo then Inr (ctx, 0)
              else if my_funding_pubkey = hi then Inr (ctx, 1)
              else Inl NotAParticipant))"

subsection \<open>Sessions\<close>

definition first_round_new :: "musig_lib \<Rightarrow> FirstRound \<Rightarrow> SignError + FirstRound" where
  "first_round_new lib fr = (if round_sets_up lib fr then Inr fr else Inl RoundSetup)"

definition round_new :: "musig_lib \<Rightarrow> KeyAggContext \<Rightarrow> nat \<Rightarrow> bytes \<Rightarrow> nat \<Rightarrow> SignError + FirstRound" where
  "round_new lib ctx signer_index shachain_root ht =
    first_round_new lib \<lparr>fr_ctx = ctx, fr_seed = derive_secnonce_seed lib shachain_root ht,
      fr_index = signer_index, fr_spices = no_spices\<rparr>"

definition round_new_counterparty ::
    "musig_lib \<Rightarrow> KeyAggContext \<Rightarrow> nat \<Rightarrow> bytes \<Rightarrow> nat \<Rightarrow> bytes \<Rightarrow> bytes \<Rightarrow> SignError + FirstRound" where
  "round_new_counterparty lib ctx signer_index shachain_root ht counterparty_nonce message =
    first_round_new lib \<lparr>fr_ctx = ctx,
      fr_seed = derive_secnonce_seed_domain lib shachain_root ht COUNTERPARTY_COMMITMENT_NONCE_TAG,
      fr_index = signer_index, fr_spices = \<lparr>spice_message = Some message, spice_extra = Some counterparty_nonce\<rparr>\<rparr>"

definition round_new_deadman ::
    "musig_lib \<Rightarrow> KeyAggContext \<Rightarrow> nat \<Rightarrow> bytes \<Rightarrow> nat \<Rightarrow> bytes \<Rightarrow> SignError + FirstRound" where
  "round_new_deadman lib ctx signer_index shachain_root ht message =
    first_round_new lib \<lparr>fr_ctx = ctx,
      fr_seed = derive_secnonce_seed_domain lib shachain_root ht DEAD_MAN_EXIT_NONCE_TAG,
      fr_index = signer_index, fr_spices = \<lparr>spice_message = Some message, spice_extra = None\<rparr>\<rparr>"

definition receive_nonce_and_sign ::
    "musig_lib \<Rightarrow> FirstRound \<Rightarrow> nat \<Rightarrow> bytes \<Rightarrow> bytes \<Rightarrow> bytes \<Rightarrow> SignError + bytes" where
  "receive_nonce_and_sign lib fr counterparty_index counterparty_nonce seckey message =
    (if \<not> takes_nonce lib fr counterparty_index counterparty_nonce then Inl NonceError
     else case finalize_round lib fr counterparty_index counterparty_nonce seckey message of
       None \<Rightarrow> Inl FinalizeError | Some partial \<Rightarrow> Inr partial)"

text \<open>The half of a session one signer runs: its partial signature and its public nonce.\<close>

definition run_round ::
    "musig_lib \<Rightarrow> SignError + FirstRound \<Rightarrow> nat \<Rightarrow> bytes \<Rightarrow> bytes \<Rightarrow> bytes \<Rightarrow> SignError + bytes \<times> bytes" where
  "run_round lib r1 counterparty_index counterparty_nonce seckey message =
    (case r1 of Inl e \<Rightarrow> Inl e
     | Inr fr \<Rightarrow> (case receive_nonce_and_sign lib fr counterparty_index counterparty_nonce seckey message of
         Inl e \<Rightarrow> Inl e | Inr partial \<Rightarrow> Inr (partial, public_nonce lib fr)))"

definition local_pubnonce :: "musig_lib \<Rightarrow> KeyAggContext \<Rightarrow> nat \<Rightarrow> bytes \<Rightarrow> nat \<Rightarrow> SignError + bytes" where
  "local_pubnonce lib ctx our_index shachain_root ht =
    (case round_new lib ctx our_index shachain_root ht of Inl e \<Rightarrow> Inl e | Inr fr \<Rightarrow> Inr (public_nonce lib fr))"

definition our_key_path_partial_holder_local ::
    "musig_lib \<Rightarrow> KeyAggContext \<Rightarrow> nat \<Rightarrow> nat \<Rightarrow> bytes \<Rightarrow> bytes \<Rightarrow> nat \<Rightarrow> bytes \<Rightarrow> bytes \<Rightarrow> SignError + bytes \<times> bytes" where
  "our_key_path_partial_holder_local lib ctx our_index cp_index seckey root ht cp_nonce message =
    run_round lib (round_new lib ctx our_index root ht) cp_index cp_nonce seckey message"

definition our_key_path_partial_counterparty ::
    "musig_lib \<Rightarrow> KeyAggContext \<Rightarrow> nat \<Rightarrow> nat \<Rightarrow> bytes \<Rightarrow> bytes \<Rightarrow> nat \<Rightarrow> bytes \<Rightarrow> bytes \<Rightarrow> SignError + bytes \<times> bytes" where
  "our_key_path_partial_counterparty lib ctx our_index cp_index seckey root ht cp_nonce message =
    run_round lib (round_new_counterparty lib ctx our_index root ht cp_nonce message) cp_index cp_nonce seckey message"

definition local_pubnonce_deadman ::
    "musig_lib \<Rightarrow> KeyAggContext \<Rightarrow> nat \<Rightarrow> bytes \<Rightarrow> nat \<Rightarrow> bytes \<Rightarrow> SignError + bytes" where
  "local_pubnonce_deadman lib ctx our_index shachain_root ht message =
    (case round_new_deadman lib ctx our_index shachain_root ht message of
       Inl e \<Rightarrow> Inl e | Inr fr \<Rightarrow> Inr (public_nonce lib fr))"

definition our_key_path_partial_deadman ::
    "musig_lib \<Rightarrow> KeyAggContext \<Rightarrow> nat \<Rightarrow> nat \<Rightarrow> bytes \<Rightarrow> bytes \<Rightarrow> nat \<Rightarrow> bytes \<Rightarrow> bytes \<Rightarrow> SignError + bytes \<times> bytes" where
  "our_key_path_partial_deadman lib ctx our_index cp_index seckey root ht cp_nonce message =
    run_round lib (round_new_deadman lib ctx our_index root ht message) cp_index cp_nonce seckey message"

text \<open>The partials go into an array by slot; a slot beyond it panics, the outer \<^const>\<open>None\<close>.\<close>

definition aggregate_key_path_partials ::
    "musig_lib \<Rightarrow> KeyAggContext \<Rightarrow> bytes \<Rightarrow> nat \<Rightarrow> bytes \<Rightarrow> bytes \<Rightarrow> nat \<Rightarrow> bytes \<Rightarrow> bytes \<Rightarrow> (SignError + bytes) option" where
  "aggregate_key_path_partials lib ctx message our_index our_pubnonce our_partial cp_index cp_pubnonce cp_partial =
    (if our_index < 2 \<and> cp_index < 2 then
       let partials = (replicate 2 [])[our_index := our_partial, cp_index := cp_partial]
       in Some (case aggregate_partial_signatures lib ctx (nonce_sum lib our_pubnonce cp_pubnonce) partials message of
            None \<Rightarrow> Inl AggregateError | Some s \<Rightarrow> Inr s)
     else None)"

subsection \<open>Both halves build one context\<close>

text \<open>Whoever is named first, the two halves aggregate to one context and take different slots.\<close>

lemma key_agg_halves:
  assumes "length lp = length hop" "lp \<noteq> hop" "channel_key_agg_ctx lib lp hop lp = Inr (ctx, i)"
  shows "channel_key_agg_ctx lib hop lp hop = Inr (ctx, 1 - i) \<and> i < 2 \<and> channel_key_agg_ctx lib hop lp lp = Inr (ctx, i)"
proof -
  have "bytes_le hop lp \<noteq> bytes_le lp hop"
    using bytes_le_total[of lp hop] bytes_le_antisym[of lp hop] assms(1,2) by auto
  with assms(2,3) show ?thesis
    by (cases "bytes_le hop lp") (auto simp: channel_key_agg_ctx_def split: if_splits option.splits)
qed

subsection \<open>What is advertised is what signs\<close>

lemma advertised_nonce_signs:
  "our_key_path_partial_holder_local lib ctx i j sk root h cp_nonce m = Inr (p, n) \<Longrightarrow>
    local_pubnonce lib ctx i root h = Inr n"
  "our_key_path_partial_deadman lib ctx i j sk root h cp_nonce m = Inr (p, n) \<Longrightarrow>
    local_pubnonce_deadman lib ctx i root h m = Inr n"
  by (auto simp: our_key_path_partial_holder_local_def our_key_path_partial_deadman_def local_pubnonce_def
      local_pubnonce_deadman_def run_round_def split: sum.splits)

subsection \<open>Sessions do not share a secret nonce\<close>

text \<open>
  What a session feeds into the derivation of its secret nonce, apart from the channel's root and
  context: the text that is authenticated, and the spices.
\<close>

datatype session = Holder nat | Counterparty nat bytes bytes | Deadman nat bytes

fun nonce_input :: "session \<Rightarrow> bytes \<times> spices" where
  "nonce_input (Holder h) = (be_octets 8 h, no_spices)"
| "nonce_input (Counterparty h n m) =
    (COUNTERPARTY_COMMITMENT_NONCE_TAG @ be_octets 8 h, \<lparr>spice_message = Some m, spice_extra = Some n\<rparr>)"
| "nonce_input (Deadman h m) = (DEAD_MAN_EXIT_NONCE_TAG @ be_octets 8 h, \<lparr>spice_message = Some m, spice_extra = None\<rparr>)"

fun session_height :: "session \<Rightarrow> nat" where
  "session_height (Holder h) = h"
| "session_height (Counterparty h n m) = h"
| "session_height (Deadman h m) = h"

fun session_round :: "musig_lib \<Rightarrow> KeyAggContext \<Rightarrow> nat \<Rightarrow> bytes \<Rightarrow> session \<Rightarrow> SignError + FirstRound" where
  "session_round lib ctx i root (Holder h) = round_new lib ctx i root h"
| "session_round lib ctx i root (Counterparty h n m) = round_new_counterparty lib ctx i root h n m"
| "session_round lib ctx i root (Deadman h m) = round_new_deadman lib ctx i root h m"

lemma session_round_input:
  "session_round lib ctx i root s = first_round_new lib \<lparr>fr_ctx = ctx,
     fr_seed = m_hmac lib (musig2_shachain_root lib root) (fst (nonce_input s)), fr_index = i,
     fr_spices = snd (nonce_input s)\<rparr>"
  by (cases s) (simp_all add: round_new_def round_new_counterparty_def round_new_deadman_def
      derive_secnonce_seed_def derive_secnonce_seed_domain_def)

lemma be_octets_u64:
  "a < 18446744073709551616 \<Longrightarrow> b < 18446744073709551616 \<Longrightarrow> be_octets 8 a = be_octets 8 b \<longleftrightarrow> a = b"
  using be_bytes_inj[of 8 a b] by (intro iffI) simp_all

lemma nonce_input_inj:
  assumes "nonce_input s = nonce_input t" "session_height s < 2 ^ 64" "session_height t < 2 ^ 64"
  shows "s = t"
  using assms by (cases s; cases t) (auto simp: no_spices_def be_octets_u64)

text \<open>
  Two sessions of one half whose rounds are the same are the same session, or their seeds are a
  collision of the keyed hash.
\<close>

lemma same_round_same_session:
  assumes "session_round lib ctx i root s = Inr fr" "session_round lib ctx i root t = Inr fr"
    and "session_height s < 2 ^ 64" "session_height t < 2 ^ 64"
  shows "s = t \<or> (fst (nonce_input s) \<noteq> fst (nonce_input t) \<and>
    m_hmac lib (musig2_shachain_root lib root) (fst (nonce_input s)) =
    m_hmac lib (musig2_shachain_root lib root) (fst (nonce_input t)))"
proof -
  have "snd (nonce_input s) = snd (nonce_input t)"
    "m_hmac lib (musig2_shachain_root lib root) (fst (nonce_input s)) =
     m_hmac lib (musig2_shachain_root lib root) (fst (nonce_input t))"
    using assms(1,2) by (auto simp: session_round_input first_round_new_def split: if_splits)
  with nonce_input_inj[OF _ assms(3,4)] show ?thesis by (auto simp: prod_eq_iff)
qed

end
