(* ===== verification/Channel_Truth.thy ===== *)
theory Channel_Truth
  imports Evm_Calls
begin

section \<open>On-chain comparand of the channel signer (quid-bridge/src/channel_truth.rs)\<close>

text \<open>
  A signer compares the keys and the size of its channel with the record of \<open>BTCChannels\<close>. The
  read is the parameter \<open>read\<close>: an error, a channel whose id is not known yet, or the returned
  bytes. \<^const>\<open>None\<close> is the error of the source, on which nothing is signed.
\<close>

datatype TruthVerdict = NotRecorded | Mismatch | Match

definition CHANNELS_WORDS :: nat where "CHANNELS_WORDS = 6"
definition W_AMOUNT_SATS :: nat where "W_AMOUNT_SATS = 0"
definition W_KEYS_HASH :: nat where "W_KEYS_HASH = 5"

definition word_at :: "bytes \<Rightarrow> nat \<Rightarrow> bytes option" where
  "word_at bs i = subrange bs (i * 32) ((i + 1) * 32)"

text \<open>\<open>read\<close>: the raw return, refused unless it has the six words.\<close>

definition truth_read :: "bytes option \<Rightarrow> (bytes \<Rightarrow> bytes option) \<Rightarrow> bytes option option" where
  "truth_read cid eth_call =
    (case cid of None \<Rightarrow> Some None
     | Some cid \<Rightarrow> (case eth_call cid of None \<Rightarrow> None
       | Some bs \<Rightarrow> if length bs < CHANNELS_WORDS * 32 then None else Some (Some bs)))"

definition truth_verify ::
    "keccak_fn \<Rightarrow> bytes option \<Rightarrow> (bytes \<Rightarrow> bytes option) \<Rightarrow> bytes \<Rightarrow> bytes \<Rightarrow> nat \<Rightarrow> TruthVerdict option" where
  "truth_verify keccak cid eth_call lp_key hop_key funding_value_sat =
    (case truth_read cid eth_call of None \<Rightarrow> None
     | Some None \<Rightarrow> Some NotRecorded
     | Some (Some bs) \<Rightarrow> do {
         kh \<leftarrow> word_at bs W_KEYS_HASH;
         if list_all (\<lambda>b. b = 0) kh then Some NotRecorded
         else do {
           h \<leftarrow> keys_hash keccak lp_key hop_key;
           if kh \<noteq> h then Some Mismatch
           else do {
             w \<leftarrow> word_at bs W_AMOUNT_SATS;
             if list_ex (\<lambda>b. b \<noteq> 0) (take 24 w) then None
             else if be_nat (drop 24 w) \<noteq> funding_value_sat then Some Mismatch
             else Some Match
           }
         }
       })"

text \<open>What the contract records at open, as the view returns it: six static words.\<close>

definition channel_record :: "keccak_fn \<Rightarrow> nat \<Rightarrow> bytes \<Rightarrow> bytes \<Rightarrow> bytes list \<Rightarrow> bytes option" where
  "channel_record keccak amount lp hop others =
    map_option (\<lambda>kh. word_u64 amount @ concat others @ kh) (keys_hash keccak lp hop)"

definition keys_preimage :: "bytes \<Rightarrow> bytes \<Rightarrow> bytes option" where
  "keys_preimage lp hop = encode_tuple [Bytes lp, Bytes hop]"

lemma keys_preimage_eq: "keys_preimage lp hop =
    Some (word_u64 64 @ word_u64 (64 + length (encode_bytes lp)) @ encode_bytes lp @ encode_bytes hop)"
  by (simp add: keys_preimage_def)

lemma keys_hash_preimage: "keys_hash keccak lp hop = map_option keccak (keys_preimage lp hop)"
  by (simp add: keys_hash_def keys_preimage_def del: encode_tuple.simps)

lemma keys_preimage_inj:
  assumes "keys_preimage lp hop = keys_preimage lp' hop'" "length lp < 2 ^ 32" "length hop < 2 ^ 32"
  shows "lp = lp' \<and> hop = hop'"
proof -
  obtain bs where bs: "keys_preimage lp hop = Some bs" "length bs < 2 ^ 64"
    using encode_bytes_length[of lp] encode_bytes_length[of hop] assms(2,3) by (simp add: keys_preimage_eq)
  have "[Bytes lp, Bytes hop] = [Bytes lp', Bytes hop']"
    by (rule encode_tuple_inj[where tys = "[TBytes, TBytes]" and bs = bs])
       (use assms(1) bs in \<open>simp_all add: keys_preimage_def del: encode_tuple.simps\<close>)
  then show ?thesis by simp
qed

lemma record_words:
  assumes "channel_record keccak amount lp hop others = Some bs" "list_all (\<lambda>w. length w = 32) others"
    and "length others = 4" "\<And>x. length (keccak x) = 32"
  shows "length bs = 192" "word_at bs W_AMOUNT_SATS = Some (word_u64 amount)"
    "word_at bs W_KEYS_HASH = keys_hash keccak lp hop"
proof -
  obtain p where p: "keys_preimage lp hop = Some p" by (simp add: keys_preimage_eq)
  have l: "length (concat others) = 128" using length_concat_words[OF assms(2)] assms(3) by simp
  have bs: "bs = word_u64 amount @ concat others @ keccak p"
    using assms(1) by (simp add: channel_record_def keys_hash_preimage p)
  show "length bs = 192" unfolding bs using l assms(4) by simp
  show "word_at bs W_AMOUNT_SATS = Some (word_u64 amount)"
    unfolding bs by (simp add: word_at_def W_AMOUNT_SATS_def subrange_def)
  show "word_at bs W_KEYS_HASH = keys_hash keccak lp hop"
    unfolding bs using l assms(4) by (simp add: word_at_def W_KEYS_HASH_def subrange_def keys_hash_preimage p)
qed

text \<open>
  On a channel the contract has recorded, the check says Match exactly for the recorded keys and
  size, unless the two key pairs are a collision of the hash.
\<close>

lemma truth_recorded:
  assumes "eth_call cid = channel_record keccak amount lp hop others" "list_all (\<lambda>w. length w = 32) others"
    and "length others = 4" "\<And>x. length (keccak x) = 32" "amount < 2 ^ 64"
    and "keys_hash keccak lp hop = Some kh" "\<exists>b \<in> set kh. b \<noteq> 0"
  shows "truth_verify keccak (Some cid) eth_call lp2 hop2 amt =
    Some (if keys_hash keccak lp2 hop2 = Some kh \<and> amt = amount then Match else Mismatch)"
proof -
  obtain bs where bs: "eth_call cid = Some bs" "channel_record keccak amount lp hop others = Some bs"
    using assms(1,6) by (auto simp: channel_record_def)
  note w = record_words[OF bs(2) assms(2-4)]
  obtain p2 where p2: "keys_preimage lp2 hop2 = Some p2" by (simp add: keys_preimage_eq)
  have "\<not> list_all (\<lambda>b. b = 0) kh" using assms(7) by (auto simp: list_all_iff)
  moreover have "take 24 (word_u64 amount) = replicate 24 0" "drop 24 (word_u64 amount) = be_octets 8 amount"
    by (simp_all add: word_u64_def)
  moreover have "be_nat (be_octets 8 amount) = amount" using assms(5) by (simp add: be_value_exact)
  ultimately show ?thesis
    using w bs(1) assms(6)
    by (auto simp: truth_verify_def truth_read_def CHANNELS_WORDS_def keys_hash_preimage p2 list_ex_iff)
qed

lemma truth_match_keys:
  assumes "keys_hash keccak lp hop = keys_hash keccak lp2 hop2" "length lp = 33" "length hop = 33"
  shows "lp = lp2 \<and> hop = hop2 \<or>
    (\<exists>a b. keys_preimage lp hop = Some a \<and> keys_preimage lp2 hop2 = Some b \<and> a \<noteq> b \<and> keccak a = keccak b)"
  using assms keys_preimage_inj[of lp hop lp2 hop2]
  by (auto simp: keys_hash_preimage keys_preimage_eq)

section \<open>Backoff (quid-std/src/backoff.rs)\<close>

record Backoff =
  initial_wait_ms :: nat
  max_wait_ms :: nat
  attempts :: nat

definition default_backoff :: Backoff where
  "default_backoff = \<lparr>initial_wait_ms = 250, max_wait_ms = 32000, attempts = 0\<rparr>"

definition next_delay :: "Backoff \<Rightarrow> Backoff \<times> nat" where
  "next_delay b =
    (let factor = sat64 (2 ^ attempts b); wait_ms = sat64 (initial_wait_ms b * factor)
     in (b\<lparr>attempts := sat32 (attempts b + 1)\<rparr>, min wait_ms (max_wait_ms b)))"

text \<open>Delays never shrink, stay below the cap, and reach it.\<close>

lemma delay_mono:
  assumes that: "attempts b < 2 ^ 32 - 1"
  shows "snd (next_delay b) \<le> snd (next_delay (fst (next_delay b)))"
proof -
  have m: "sat64 x \<le> sat64 y" if "x \<le> y" for x y using that by (auto simp: sat64_def min_def)
  have "sat64 (2 ^ attempts b) \<le> sat64 (2 ^ (attempts b + 1))" by (rule m) simp
  then have "initial_wait_ms b * sat64 (2 ^ attempts b) \<le> initial_wait_ms b * sat64 (2 ^ (attempts b + 1))"
    by (rule mult_le_mono2)
  then have "sat64 (initial_wait_ms b * sat64 (2 ^ attempts b)) \<le> sat64 (initial_wait_ms b * sat64 (2 ^ (attempts b + 1)))"
    by (rule m)
  moreover have "sat32 (attempts b + 1) = attempts b + 1" using that by (simp add: sat32_def)
  ultimately show ?thesis unfolding next_delay_def Let_def by simp
qed

lemma delay_capped: "snd (next_delay b) \<le> max_wait_ms b"
  by (simp add: next_delay_def)

lemma delay_reaches_cap:
  assumes "max_wait_ms b \<le> initial_wait_ms b * 2 ^ attempts b" "attempts b < 64" "max_wait_ms b < 2 ^ 64"
  shows "snd (next_delay b) = max_wait_ms b"
proof -
  have "(2::nat) ^ attempts b \<le> 2 ^ 63" using assms(2) by (intro power_increasing) auto
  then have "sat64 (2 ^ attempts b) = 2 ^ attempts b" by (simp add: sat64_def)
  with assms(1,3) show ?thesis by (auto simp: next_delay_def sat64_def)
qed

end
