(* ===== verification/Validating_Signer.thy ===== *)
theory Validating_Signer
  imports Taproot_Signer Channel_Truth
begin

section \<open>The validating channel signer (quid-ln/src/validating_signer.rs)\<close>

text \<open>
  The signer of one channel half: every request that can move funds passes the policy first. The
  state is the record \<open>signer\<close>: the committed close script, the monotonic indices and the nonce
  bindings of the policy, the taproot context in force with its latch, the write-once source of
  truth and the outputs that splices must re-create. Mutexes are not modelled: a poisoned one is
  the result of a panic elsewhere.

  The in-memory signer of the Lightning library is the parameter record \<open>inner_signer\<close>: its keys,
  its own answers and the sighashes of transactions. A transaction is given by what the policy
  reads of it, the outpoints it spends and its outputs. What the source of truth answers at the
  time of a request is an argument of the request.
\<close>

subsection \<open>State\<close>

definition INITIAL_COMMITMENT_NUMBER :: nat where
  "INITIAL_COMMITMENT_NUMBER = 2 ^ 48 - 1"

record MonotonicState =
  highest_holder_commitment_signed :: "nat option"
  highest_counterparty_commitment_signed :: "nat option"
  lowest_secret_released :: "nat option"
  nonce_bindings :: "bytes \<rightharpoonup> bytes"

record TaprootSignerContext =
  counterparty_funding_pubkey :: bytes
  funding_value_sat :: nat
  counterparty_closing_nonce :: "bytes option"
  closing_round :: nat
  splice_parent_funding_txid :: "bytes option"

record TxOut =
  out_value :: nat
  script_pubkey :: bytes

record Transaction =
  tx_inputs :: "bytes list"
  tx_outputs :: "TxOut list"

record CommitmentTransaction =
  commitment_number :: nat
  commitment_built :: Transaction

record ClosingTransaction =
  to_holder_value_sat :: nat
  to_holder_script :: bytes
  closing_built :: Transaction

record HTLCDescriptor =
  htlc_outpoint :: bytes
  htlc_tx_output :: TxOut

datatype FundingRole = Lp | Hop

record 't signer =
  expected_holder_close_script :: bytes
  policy_state :: MonotonicState
  taproot_ctx :: "TaprootSignerContext option"
  ctx_poisoned :: bool
  truth :: "('t \<times> FundingRole) option"
  truth_recorded :: bool
  splice_continuation :: "bytes \<rightharpoonup> TxOut"

record inner_signer =
  musig :: musig_lib
  commitment_seed :: bytes
  funding_pubkey_for :: "bytes option \<Rightarrow> bytes"
  funding_seckey_for :: "bytes option \<Rightarrow> bytes"
  inner_secret :: "nat \<Rightarrow> bytes option"
  inner_validates :: "CommitmentTransaction \<Rightarrow> bool"
  inner_signs_counterparty :: "CommitmentTransaction \<Rightarrow> bytes option"
  inner_signs_holder :: "CommitmentTransaction \<Rightarrow> bytes option"
  inner_signs_htlc :: "Transaction \<Rightarrow> nat \<Rightarrow> HTLCDescriptor \<Rightarrow> bytes option"
  inner_signs_close :: "ClosingTransaction \<Rightarrow> bytes option"
  keyspend_sighash :: "Transaction \<Rightarrow> nat \<Rightarrow> bytes \<Rightarrow> bytes option"
  splice_sighash :: "Transaction \<Rightarrow> nat \<Rightarrow> TxOut list \<Rightarrow> bytes option"
  htlc_sigs :: "CommitmentTransaction \<Rightarrow> bytes list option"

subsection \<open>The policy\<close>

text \<open>A check returns whether it passes; \<^const>\<open>None\<close> below is \<open>Err(())\<close>, with the state unchanged.\<close>

definition check_no_regression :: "nat option \<Rightarrow> nat \<Rightarrow> bool" where
  "check_no_regression reached idx = (case reached of Some r \<Rightarrow> \<not> idx > r | None \<Rightarrow> True)"

definition check_not_revoked :: "nat option \<Rightarrow> nat \<Rightarrow> bool" where
  "check_not_revoked lowest idx = (case lowest of Some released \<Rightarrow> \<not> idx \<ge> released | None \<Rightarrow> True)"

definition advance :: "nat option \<Rightarrow> nat \<Rightarrow> nat" where
  "advance reached idx = (case reached of Some r \<Rightarrow> min r idx | None \<Rightarrow> idx)"

definition record_holder_commitment :: "MonotonicState \<Rightarrow> nat \<Rightarrow> MonotonicState option" where
  "record_holder_commitment st idx =
    (if \<not> check_no_regression (highest_holder_commitment_signed st) idx then None
     else if \<not> check_not_revoked (lowest_secret_released st) idx then None
     else Some (st\<lparr>highest_holder_commitment_signed := Some (advance (highest_holder_commitment_signed st) idx)\<rparr>))"

definition record_counterparty_commitment :: "MonotonicState \<Rightarrow> nat \<Rightarrow> MonotonicState option" where
  "record_counterparty_commitment st idx =
    (if \<not> check_no_regression (highest_counterparty_commitment_signed st) idx then None
     else Some (st\<lparr>highest_counterparty_commitment_signed :=
       Some (advance (highest_counterparty_commitment_signed st) idx)\<rparr>))"

definition bind_nonce :: "inner_signer \<Rightarrow> MonotonicState \<Rightarrow> bytes \<Rightarrow> bytes \<Rightarrow> bytes \<Rightarrow> MonotonicState option" where
  "bind_nonce inner st our_pubnonce cp_nonce message =
    (let agg = m_sha256 (musig inner) (cp_nonce @ message)
     in case nonce_bindings st our_pubnonce of
          Some prev \<Rightarrow> if prev \<noteq> agg then None
            else Some (st\<lparr>nonce_bindings := (nonce_bindings st)(our_pubnonce \<mapsto> agg)\<rparr>)
        | None \<Rightarrow> Some (st\<lparr>nonce_bindings := (nonce_bindings st)(our_pubnonce \<mapsto> agg)\<rparr>))"

definition record_secret_release :: "MonotonicState \<Rightarrow> nat \<Rightarrow> MonotonicState option" where
  "record_secret_release st idx =
    (case lowest_secret_released st of
       Some prev \<Rightarrow> if idx > prev then None
         else Some (st\<lparr>lowest_secret_released := Some (advance (lowest_secret_released st) idx)\<rparr>)
     | None \<Rightarrow> Some (st\<lparr>lowest_secret_released := Some (advance (lowest_secret_released st) idx)\<rparr>))"

definition check_closing_payout_script :: "ClosingTransaction \<Rightarrow> bytes \<Rightarrow> bool" where
  "check_closing_payout_script closing_tx expected =
    (if to_holder_value_sat closing_tx = 0 then True else to_holder_script closing_tx = expected)"

definition signer_new :: "bytes \<Rightarrow> 't signer" where
  "signer_new close_script =
    \<lparr>expected_holder_close_script = close_script,
     policy_state = \<lparr>highest_holder_commitment_signed = None, highest_counterparty_commitment_signed = None,
       lowest_secret_released = None, nonce_bindings = Map.empty\<rparr>,
     taproot_ctx = None, ctx_poisoned = False, truth = None, truth_recorded = False,
     splice_continuation = Map.empty\<rparr>"

definition set_truth_source :: "'t \<Rightarrow> FundingRole \<Rightarrow> 't signer \<Rightarrow> 't signer \<times> bool" where
  "set_truth_source t role s = (case truth s of None \<Rightarrow> (s\<lparr>truth := Some (t, role)\<rparr>, True) | Some _ \<Rightarrow> (s, False))"

subsection \<open>The taproot context\<close>

type_synonym 't chain_read = "'t \<Rightarrow> bytes \<Rightarrow> bytes \<Rightarrow> nat \<Rightarrow> TruthVerdict option"

definition ask_chain :: "inner_signer \<Rightarrow> 't chain_read \<Rightarrow> 't \<Rightarrow> TaprootSignerContext \<Rightarrow> TruthVerdict option" where
  "ask_chain inner chain t ctx =
    (let ours = funding_pubkey_for inner (splice_parent_funding_txid ctx);
         theirs = counterparty_funding_pubkey ctx;
         (k0, k1) = (if bytes_le ours theirs then (ours, theirs) else (theirs, ours))
     in chain t k0 k1 (funding_value_sat ctx))"

definition check_against_chain ::
    "inner_signer \<Rightarrow> 't chain_read \<Rightarrow> TaprootSignerContext \<Rightarrow> TaprootSignerContext option \<Rightarrow> 't signer \<Rightarrow> 't signer \<times> bool" where
  "check_against_chain inner chain ctx prev s =
    (case truth s of None \<Rightarrow> (s, True)
     | Some (t, role) \<Rightarrow> (case ask_chain inner chain t ctx of
         None \<Rightarrow> (s, False)
       | Some Match \<Rightarrow> (s\<lparr>truth_recorded := True\<rparr>, True)
       | Some Mismatch \<Rightarrow> (case prev of None \<Rightarrow> (s, False)
           | Some p \<Rightarrow>
               if splice_parent_funding_txid p = splice_parent_funding_txid ctx then (s, False)
               else (case ask_chain inner chain t p of
                   Some Match \<Rightarrow> (s\<lparr>truth_recorded := True\<rparr>, True)
                 | _ \<Rightarrow> (s, False)))
       | Some NotRecorded \<Rightarrow> (s, \<not> truth_recorded s)))"

text \<open>\<open>0x5120\<close> and the x-only aggregate\<close>

definition p2tr_script :: "bytes \<Rightarrow> bytes" where
  "p2tr_script q = [0x51, 0x20] @ q"

definition key_agg_for ::
    "inner_signer \<Rightarrow> TaprootSignerContext \<Rightarrow> (KeyAggContext \<times> nat \<times> nat \<times> nat \<times> bytes) option" where
  "key_agg_for inner ctx =
    (let holder = funding_pubkey_for inner (splice_parent_funding_txid ctx);
         cp = counterparty_funding_pubkey ctx
     in case channel_key_agg_ctx (musig inner) holder cp holder of Inl e \<Rightarrow> None
        | Inr (key_agg, our_index) \<Rightarrow>
            Some (key_agg, our_index, 1 - our_index, funding_value_sat ctx,
              p2tr_script (xonly_of (musig inner) key_agg)))"

definition taproot_key_agg ::
    "inner_signer \<Rightarrow> 't signer \<Rightarrow> (KeyAggContext \<times> nat \<times> nat \<times> nat \<times> bytes) option" where
  "taproot_key_agg inner s =
    (if ctx_poisoned s then None
     else case taproot_ctx s of None \<Rightarrow> None | Some ctx \<Rightarrow> key_agg_for inner ctx)"

definition provide_taproot_context ::
    "inner_signer \<Rightarrow> 't chain_read \<Rightarrow> TaprootSignerContext \<Rightarrow> 't signer \<Rightarrow> 't signer" where
  "provide_taproot_context inner chain ctx s =
    (let contradicts = (case taproot_ctx s of None \<Rightarrow> False
           | Some prev \<Rightarrow>
               let splice_rotated = splice_parent_funding_txid prev \<noteq> splice_parent_funding_txid ctx;
                   regressed_round = closing_round ctx < closing_round prev;
                   rebound_identity = \<not> splice_rotated \<and>
                     (counterparty_funding_pubkey ctx \<noteq> counterparty_funding_pubkey prev
                      \<or> funding_value_sat ctx \<noteq> funding_value_sat prev)
               in regressed_round \<or> rebound_identity)
     in if contradicts then s\<lparr>ctx_poisoned := True\<rparr>
        else let (s, agrees) = check_against_chain inner chain ctx (taproot_ctx s) s
             in if \<not> agrees then s\<lparr>ctx_poisoned := True\<rparr>
                else let s = (case splice_parent_funding_txid ctx of None \<Rightarrow> s
                       | Some parent \<Rightarrow> (case key_agg_for inner ctx of None \<Rightarrow> s
                         | Some (key_agg, our_index, cp_index, value_sat, spk) \<Rightarrow>
                             s\<lparr>splice_continuation := (splice_continuation s)(parent \<mapsto>
                               \<lparr>out_value = value_sat, script_pubkey = spk\<rparr>)\<rparr>))
                     in s\<lparr>taproot_ctx := Some ctx\<rparr>)"

definition check_holder_htlc_tx :: "Transaction \<Rightarrow> nat \<Rightarrow> HTLCDescriptor \<Rightarrow> bool" where
  "check_holder_htlc_tx htlc_tx input descriptor =
    (if input < length (tx_inputs htlc_tx) then
       if tx_inputs htlc_tx ! input \<noteq> htlc_outpoint descriptor then False
       else htlc_tx_output descriptor \<in> set (tx_outputs htlc_tx)
     else False)"

definition check_splice_continues_funding :: "Transaction \<Rightarrow> bytes \<Rightarrow> 't signer \<Rightarrow> bool" where
  "check_splice_continues_funding tx prev_funding_txid s =
    (case splice_continuation s prev_funding_txid of None \<Rightarrow> False
     | Some expected \<Rightarrow> length (filter (\<lambda>out. out = expected) (tx_outputs tx)) = 1)"

definition taproot_holder_funding_key :: "inner_signer \<Rightarrow> 't signer \<Rightarrow> bytes" where
  "taproot_holder_funding_key inner s =
    funding_seckey_for inner (case taproot_ctx s of None \<Rightarrow> None | Some c \<Rightarrow> splice_parent_funding_txid c)"

subsection \<open>Nonce heights\<close>

text \<open>The height of a splice is in \<open>[2 ^ 48, 2 ^ 48 + 2 ^ 56)\<close> whatever the hash gives.\<close>

definition splice_nonce_height :: "inner_signer \<Rightarrow> bytes \<Rightarrow> nat \<Rightarrow> nat" where
  "splice_nonce_height inner prev_funding_txid candidate_index =
    (let h = m_sha256 (musig inner)
           (ascii ''quid-taproot-splice-nonce'' @ prev_funding_txid @ be_octets 8 candidate_index);
         raw = be_nat (take 8 h)
     in (2 ^ 48 + raw mod 2 ^ 56) mod 2 ^ 64)"

definition CLOSING_NONCE_BASE :: nat where
  "CLOSING_NONCE_BASE = 2 ^ 64 - 1"

definition closing_nonce_height :: "nat \<Rightarrow> nat" where
  "closing_nonce_height round = CLOSING_NONCE_BASE - round"

subsection \<open>Requests\<close>

text \<open>A policy step that refuses ends the request; one that records goes on with the new state.\<close>

definition with_policy ::
    "(MonotonicState \<Rightarrow> MonotonicState option) \<Rightarrow> ('t signer \<Rightarrow> 't signer \<times> 'a option) \<Rightarrow> 't signer \<Rightarrow> 't signer \<times> 'a option" where
  "with_policy check k s =
    (case check (policy_state s) of None \<Rightarrow> (s, None) | Some st \<Rightarrow> k (s\<lparr>policy_state := st\<rparr>))"

text \<open>The nonce guard runs on every partial before it is returned.\<close>

definition guarded_partial ::
    "inner_signer \<Rightarrow> SignError + bytes \<times> bytes \<Rightarrow> bytes \<Rightarrow> bytes \<Rightarrow> 't signer \<Rightarrow> 't signer \<times> (bytes \<times> bytes) option" where
  "guarded_partial inner result cp_nonce message s =
    (case result of Inl e \<Rightarrow> (s, None)
     | Inr (partial, our_pubnonce) \<Rightarrow>
         with_policy (\<lambda>st. bind_nonce inner st our_pubnonce cp_nonce message) (\<lambda>s. (s, Some (partial, our_pubnonce))) s)"

definition release_commitment_secret :: "inner_signer \<Rightarrow> nat \<Rightarrow> 't signer \<Rightarrow> 't signer \<times> bytes option" where
  "release_commitment_secret inner idx =
    with_policy (\<lambda>st. record_secret_release st idx) (\<lambda>s. (s, inner_secret inner idx))"

definition validate_holder_commitment :: "inner_signer \<Rightarrow> CommitmentTransaction \<Rightarrow> 't signer \<Rightarrow> 't signer \<times> unit option" where
  "validate_holder_commitment inner holder_tx =
    with_policy (\<lambda>st. record_holder_commitment st (commitment_number holder_tx))
      (\<lambda>s. (s, if inner_validates inner holder_tx then Some () else None))"

definition sign_counterparty_commitment :: "inner_signer \<Rightarrow> CommitmentTransaction \<Rightarrow> 't signer \<Rightarrow> 't signer \<times> bytes option" where
  "sign_counterparty_commitment inner commitment_tx =
    with_policy (\<lambda>st. record_counterparty_commitment st (commitment_number commitment_tx))
      (\<lambda>s. (s, inner_signs_counterparty inner commitment_tx))"

definition sign_holder_commitment :: "inner_signer \<Rightarrow> CommitmentTransaction \<Rightarrow> 't signer \<Rightarrow> 't signer \<times> bytes option" where
  "sign_holder_commitment inner commitment_tx =
    with_policy (\<lambda>st. record_holder_commitment st (commitment_number commitment_tx))
      (\<lambda>s. (s, inner_signs_holder inner commitment_tx))"

definition sign_holder_htlc_transaction :: "inner_signer \<Rightarrow> Transaction \<Rightarrow> nat \<Rightarrow> HTLCDescriptor \<Rightarrow> bytes option" where
  "sign_holder_htlc_transaction inner htlc_tx input descriptor =
    (if check_holder_htlc_tx htlc_tx input descriptor then inner_signs_htlc inner htlc_tx input descriptor else None)"

definition sign_closing_transaction :: "inner_signer \<Rightarrow> ClosingTransaction \<Rightarrow> 't signer \<Rightarrow> bytes option" where
  "sign_closing_transaction inner closing_tx s =
    (if check_closing_payout_script closing_tx (expected_holder_close_script s) then inner_signs_close inner closing_tx
     else None)"

text \<open>\<open>expect\<close> on the context: a panic is \<^const>\<open>None\<close>.\<close>

definition generate_local_nonce_pair :: "inner_signer \<Rightarrow> nat \<Rightarrow> 't signer \<Rightarrow> bytes option" where
  "generate_local_nonce_pair inner number s =
    (case taproot_key_agg inner s of None \<Rightarrow> None
     | Some (key_agg, our_index, _, _, _) \<Rightarrow>
         (case local_pubnonce (musig inner) key_agg our_index (commitment_seed inner) number of
            Inl e \<Rightarrow> None | Inr n \<Rightarrow> Some n))"

definition partially_sign_counterparty_commitment ::
    "inner_signer \<Rightarrow> bytes \<Rightarrow> CommitmentTransaction \<Rightarrow> 't signer \<Rightarrow> 't signer \<times> (bytes \<times> bytes \<times> bytes \<times> bytes list) option" where
  "partially_sign_counterparty_commitment inner cp_nonce commitment_tx =
    with_policy (\<lambda>st. record_counterparty_commitment st (commitment_number commitment_tx)) (\<lambda>s.
      case taproot_key_agg inner s of None \<Rightarrow> (s, None)
      | Some (key_agg, our_index, cp_index, value_sat, spk) \<Rightarrow>
          (case keyspend_sighash inner (commitment_built commitment_tx) value_sat spk of None \<Rightarrow> (s, None)
           | Some message \<Rightarrow>
               (case guarded_partial inner (our_key_path_partial_counterparty (musig inner) key_agg our_index cp_index
                    (taproot_holder_funding_key inner s) (commitment_seed inner) (commitment_number commitment_tx)
                    cp_nonce message) cp_nonce message s of
                  (s, None) \<Rightarrow> (s, None)
                | (s, Some (partial, our_pubnonce)) \<Rightarrow>
                    (s, map_option (\<lambda>sigs. (partial, our_pubnonce, message, sigs)) (htlc_sigs inner commitment_tx)))))"

definition finalize_holder_commitment ::
    "inner_signer \<Rightarrow> CommitmentTransaction \<Rightarrow> bytes \<Rightarrow> 't signer \<Rightarrow> 't signer \<times> (bytes \<times> bytes \<times> bytes) option" where
  "finalize_holder_commitment inner commitment_tx cp_nonce =
    with_policy (\<lambda>st. record_holder_commitment st (commitment_number commitment_tx)) (\<lambda>s.
      case taproot_key_agg inner s of None \<Rightarrow> (s, None)
      | Some (key_agg, our_index, cp_index, value_sat, spk) \<Rightarrow>
          (case keyspend_sighash inner (commitment_built commitment_tx) value_sat spk of None \<Rightarrow> (s, None)
           | Some message \<Rightarrow>
               (case guarded_partial inner (our_key_path_partial_holder_local (musig inner) key_agg our_index cp_index
                    (taproot_holder_funding_key inner s) (commitment_seed inner) (commitment_number commitment_tx)
                    cp_nonce message) cp_nonce message s of
                  (s, None) \<Rightarrow> (s, None)
                | (s, Some (partial, our_pubnonce)) \<Rightarrow> (s, Some (partial, our_pubnonce, message)))))"

definition partially_sign_closing_transaction ::
    "inner_signer \<Rightarrow> ClosingTransaction \<Rightarrow> 't signer \<Rightarrow> 't signer \<times> (bytes \<times> bytes \<times> bytes \<times> bytes) option" where
  "partially_sign_closing_transaction inner closing_tx s =
    (if \<not> check_closing_payout_script closing_tx (expected_holder_close_script s) then (s, None)
     else case taproot_key_agg inner s of None \<Rightarrow> (s, None)
      | Some (key_agg, our_index, cp_index, value_sat, spk) \<Rightarrow>
          (case taproot_ctx s of None \<Rightarrow> (s, None)
           | Some ctx \<Rightarrow> (case counterparty_closing_nonce ctx of None \<Rightarrow> (s, None)
             | Some cp_nonce \<Rightarrow>
                 (case keyspend_sighash inner (closing_built closing_tx) value_sat spk of None \<Rightarrow> (s, None)
                  | Some message \<Rightarrow>
                      (case guarded_partial inner (our_key_path_partial_holder_local (musig inner) key_agg our_index
                           cp_index (taproot_holder_funding_key inner s) (commitment_seed inner)
                           (closing_nonce_height (closing_round ctx)) cp_nonce message) cp_nonce message s of
                         (s, None) \<Rightarrow> (s, None)
                       | (s, Some (partial, our_pubnonce)) \<Rightarrow> (s, Some (partial, our_pubnonce, cp_nonce, message)))))))"

definition generate_splice_nonce :: "inner_signer \<Rightarrow> bytes \<Rightarrow> nat \<Rightarrow> 't signer \<Rightarrow> bytes option" where
  "generate_splice_nonce inner prev_funding_txid candidate_index s =
    (case taproot_key_agg inner s of None \<Rightarrow> None
     | Some (key_agg, our_index, _, _, _) \<Rightarrow>
         (case local_pubnonce (musig inner) key_agg our_index (commitment_seed inner)
            (splice_nonce_height inner prev_funding_txid candidate_index) of Inl e \<Rightarrow> None | Inr n \<Rightarrow> Some n))"

definition partially_sign_splice_shared_input ::
    "inner_signer \<Rightarrow> Transaction \<Rightarrow> nat \<Rightarrow> TxOut list \<Rightarrow> bytes \<Rightarrow> bytes \<Rightarrow> nat \<Rightarrow> 't signer \<Rightarrow>
      't signer \<times> (bytes \<times> bytes \<times> bytes) option" where
  "partially_sign_splice_shared_input inner tx input_index all_prevouts cp_nonce prev_funding_txid candidate_index s =
    (if \<not> check_splice_continues_funding tx prev_funding_txid s then (s, None)
     else case taproot_key_agg inner s of None \<Rightarrow> (s, None)
      | Some (key_agg, our_index, cp_index, value_sat, spk) \<Rightarrow>
          (case splice_sighash inner tx input_index all_prevouts of None \<Rightarrow> (s, None)
           | Some message \<Rightarrow>
               (case guarded_partial inner (our_key_path_partial_holder_local (musig inner) key_agg our_index cp_index
                    (taproot_holder_funding_key inner s) (commitment_seed inner)
                    (splice_nonce_height inner prev_funding_txid candidate_index) cp_nonce message) cp_nonce message s of
                  (s, None) \<Rightarrow> (s, None)
                | (s, Some (partial, our_pubnonce)) \<Rightarrow> (s, Some (partial, our_pubnonce, message)))))"

definition deadman_exit_pubnonce :: "inner_signer \<Rightarrow> nat \<Rightarrow> bytes \<Rightarrow> 't signer \<Rightarrow> bytes option" where
  "deadman_exit_pubnonce inner ht message s =
    (case taproot_key_agg inner s of None \<Rightarrow> None
     | Some (key_agg, our_index, _, _, _) \<Rightarrow>
         (case local_pubnonce_deadman (musig inner) key_agg our_index (commitment_seed inner) ht message of
            Inl e \<Rightarrow> None | Inr n \<Rightarrow> Some n))"

definition deadman_exit_partial ::
    "inner_signer \<Rightarrow> bytes \<Rightarrow> nat \<Rightarrow> bytes \<Rightarrow> 't signer \<Rightarrow> 't signer \<times> (bytes \<times> bytes) option" where
  "deadman_exit_partial inner cp_nonce ht message s =
    (case taproot_key_agg inner s of None \<Rightarrow> (s, None)
     | Some (key_agg, our_index, cp_index, _, _) \<Rightarrow>
         guarded_partial inner (our_key_path_partial_deadman (musig inner) key_agg our_index cp_index
           (taproot_holder_funding_key inner s) (commitment_seed inner) ht cp_nonce message) cp_nonce message s)"

subsection \<open>Sessions of requests\<close>

text \<open>
  What the node may ask, in any order and with any arguments, and what leaves the signer. A partial
  signature is recorded with the public nonce it was made under, the counterparty's nonce and the
  message.
\<close>

datatype 't request =
    ProvideContext "'t chain_read" TaprootSignerContext
  | SetTruth 't FundingRole
  | ReleaseSecret nat
  | ValidateHolder CommitmentTransaction
  | SignCounterparty CommitmentTransaction
  | SignHolder CommitmentTransaction
  | SignHtlc Transaction nat HTLCDescriptor
  | SignClosing ClosingTransaction
  | PartialCounterparty bytes CommitmentTransaction
  | FinalizeHolder CommitmentTransaction bytes
  | PartialClosing ClosingTransaction
  | PartialSplice Transaction nat "TxOut list" bytes bytes nat
  | DeadmanExit bytes nat bytes

datatype event =
    SecretOut nat
  | HolderUsed nat
  | CounterpartySigned nat
  | PartialOut bytes bytes bytes
  | ClosingSigned ClosingTransaction
  | SpliceSigned Transaction bytes
  | HtlcSigned Transaction nat HTLCDescriptor

definition emits :: "'s \<times> 'a option \<Rightarrow> ('a \<Rightarrow> event list) \<Rightarrow> 's \<times> event list" where
  "emits r f = (fst r, case snd r of None \<Rightarrow> [] | Some x \<Rightarrow> f x)"

fun serve :: "inner_signer \<Rightarrow> 't request \<Rightarrow> 't signer \<Rightarrow> 't signer \<times> event list" where
  "serve inner (ProvideContext chain ctx) s = (provide_taproot_context inner chain ctx s, [])"
| "serve inner (SetTruth t role) s = (fst (set_truth_source t role s), [])"
| "serve inner (ReleaseSecret idx) s = emits (release_commitment_secret inner idx s) (\<lambda>_. [SecretOut idx])"
| "serve inner (ValidateHolder c) s = emits (validate_holder_commitment inner c s) (\<lambda>_. [HolderUsed (commitment_number c)])"
| "serve inner (SignCounterparty c) s =
    emits (sign_counterparty_commitment inner c s) (\<lambda>_. [CounterpartySigned (commitment_number c)])"
| "serve inner (SignHolder c) s = emits (sign_holder_commitment inner c s) (\<lambda>_. [HolderUsed (commitment_number c)])"
| "serve inner (SignHtlc tx i d) s = emits (s, sign_holder_htlc_transaction inner tx i d) (\<lambda>_. [HtlcSigned tx i d])"
| "serve inner (SignClosing c) s = emits (s, sign_closing_transaction inner c s) (\<lambda>_. [ClosingSigned c])"
| "serve inner (PartialCounterparty cp c) s = emits (partially_sign_counterparty_commitment inner cp c s)
    (\<lambda>(p, n, m, sigs). [CounterpartySigned (commitment_number c), PartialOut n cp m])"
| "serve inner (FinalizeHolder c cp) s = emits (finalize_holder_commitment inner c cp s)
    (\<lambda>(p, n, m). [HolderUsed (commitment_number c), PartialOut n cp m])"
| "serve inner (PartialClosing c) s = emits (partially_sign_closing_transaction inner c s)
    (\<lambda>(p, n, cp, m). [ClosingSigned c, PartialOut n cp m])"
| "serve inner (PartialSplice tx i prevouts cp prev cand) s =
    emits (partially_sign_splice_shared_input inner tx i prevouts cp prev cand s)
      (\<lambda>(p, n, m). [SpliceSigned tx prev, PartialOut n cp m])"
| "serve inner (DeadmanExit cp ht m) s = emits (deadman_exit_partial inner cp ht m s) (\<lambda>(p, n). [PartialOut n cp m])"

fun serve_all :: "inner_signer \<Rightarrow> 't request list \<Rightarrow> 't signer \<Rightarrow> 't signer \<times> event list" where
  "serve_all inner [] s = (s, [])"
| "serve_all inner (r # rs) s =
    (let (s, es) = serve inner r s; (s, fs) = serve_all inner rs s in (s, es @ fs))"

subsection \<open>What every request keeps\<close>

definition deeper :: "nat option \<Rightarrow> nat option \<Rightarrow> bool" where
  "deeper a b \<longleftrightarrow> (\<forall>l. a = Some l \<longrightarrow> (\<exists>l'\<le>l. b = Some l'))"

lemma deeper_refl [simp, intro]: "deeper a a"
  by (auto simp: deeper_def)

lemma deeper_trans: "deeper a b \<Longrightarrow> deeper b c \<Longrightarrow> deeper a c"
  by (fastforce simp: deeper_def)

lemma deeper_advance: "deeper a (Some (advance a i))"
  by (auto simp: deeper_def advance_def)

text \<open>The policy only moves forward: indices go down and a bound nonce stays bound.\<close>

definition policy_le :: "MonotonicState \<Rightarrow> MonotonicState \<Rightarrow> bool" where
  "policy_le st st' \<longleftrightarrow> nonce_bindings st \<subseteq>\<^sub>m nonce_bindings st'
    \<and> deeper (highest_holder_commitment_signed st) (highest_holder_commitment_signed st')
    \<and> deeper (highest_counterparty_commitment_signed st) (highest_counterparty_commitment_signed st')
    \<and> deeper (lowest_secret_released st) (lowest_secret_released st')"

lemma policy_le_refl [simp, intro]: "policy_le st st"
  by (simp add: policy_le_def)

lemma policy_le_trans: "policy_le a b \<Longrightarrow> policy_le b c \<Longrightarrow> policy_le a c"
  unfolding policy_le_def by (meson deeper_trans map_le_trans)

lemma policy_steps:
  "record_holder_commitment st i = Some st' \<Longrightarrow> policy_le st st'"
  "record_counterparty_commitment st i = Some st' \<Longrightarrow> policy_le st st'"
  "record_secret_release st i = Some st' \<Longrightarrow> policy_le st st'"
  "bind_nonce inner st n c m = Some st' \<Longrightarrow> policy_le st st'"
  by (auto simp: policy_le_def record_holder_commitment_def record_counterparty_commitment_def
      record_secret_release_def bind_nonce_def map_le_def deeper_advance Let_def split: if_splits option.splits)

lemma policy_records:
  "record_holder_commitment st i = Some st' \<Longrightarrow> (\<forall>l. lowest_secret_released st = Some l \<longrightarrow> i < l)
    \<and> (\<forall>h. highest_holder_commitment_signed st = Some h \<longrightarrow> i \<le> h) \<and> highest_holder_commitment_signed st' = Some i"
  "record_counterparty_commitment st i = Some st' \<Longrightarrow>
    (\<forall>h. highest_counterparty_commitment_signed st = Some h \<longrightarrow> i \<le> h) \<and> highest_counterparty_commitment_signed st' = Some i"
  "record_secret_release st i = Some st' \<Longrightarrow>
    (\<forall>l. lowest_secret_released st = Some l \<longrightarrow> i \<le> l) \<and> lowest_secret_released st' = Some i"
  "bind_nonce inner st n c m = Some st' \<Longrightarrow> nonce_bindings st' n = Some (m_sha256 (musig inner) (c @ m))"
  by (auto simp: record_holder_commitment_def record_counterparty_commitment_def record_secret_release_def
      bind_nonce_def check_no_regression_def check_not_revoked_def advance_def Let_def split: if_splits option.splits)

text \<open>What a request does beside the policy: everything else of the state stays, or is listed here.\<close>

definition keeps :: "'t signer \<Rightarrow> 't signer \<Rightarrow> bool" where
  "keeps s s' \<longleftrightarrow> policy_le (policy_state s) (policy_state s') \<and> (\<exists>st. s' = s\<lparr>policy_state := st\<rparr>)"

lemma keeps_refl [simp, intro]: "keeps s s"
  by (simp add: keeps_def exI[of _ "policy_state s"])

lemma keeps_trans: "keeps a b \<Longrightarrow> keeps b c \<Longrightarrow> keeps a c"
  by (auto simp: keeps_def intro: policy_le_trans)

lemma keeps_fields:
  assumes "keeps s s'"
  shows "expected_holder_close_script s' = expected_holder_close_script s" "taproot_ctx s' = taproot_ctx s"
    "ctx_poisoned s' = ctx_poisoned s" "truth s' = truth s" "truth_recorded s' = truth_recorded s"
    "splice_continuation s' = splice_continuation s" "taproot_key_agg inner s' = taproot_key_agg inner s"
    "policy_le (policy_state s) (policy_state s')"
  using assms by (auto simp: keeps_def taproot_key_agg_def)

lemma with_policy_result:
  assumes "with_policy check k s = (s', r)" "\<And>st. check (policy_state s) = Some st \<Longrightarrow> policy_le (policy_state s) st"
    and "\<And>t t' x. k t = (t', x) \<Longrightarrow> keeps t t'"
  shows "keeps s s' \<and> (\<forall>x. r = Some x \<longrightarrow>
    (\<exists>st. check (policy_state s) = Some st \<and> k (s\<lparr>policy_state := st\<rparr>) = (s', Some x)))"
proof (cases "check (policy_state s)")
  case (Some st)
  have "keeps s (s\<lparr>policy_state := st\<rparr>)" using assms(2)[OF Some] by (auto simp: keeps_def)
  moreover have "keeps (s\<lparr>policy_state := st\<rparr>) s'" using assms(1,3) Some by (auto simp: with_policy_def)
  ultimately show ?thesis using assms(1) Some keeps_trans by (auto simp: with_policy_def)
qed (use assms in \<open>auto simp: with_policy_def\<close>)

lemma guarded_result:
  assumes "guarded_partial inner res c m s = (s', r)"
  shows "keeps s s' \<and> (\<forall>p n. r = Some (p, n) \<longrightarrow> res = Inr (p, n)
    \<and> nonce_bindings (policy_state s') n = Some (m_sha256 (musig inner) (c @ m)))"
proof (cases res)
  case (Inr pn)
  obtain p n where pn: "pn = (p, n)" by (cases pn)
  from assms Inr pn have "with_policy (\<lambda>st. bind_nonce inner st n c m) (\<lambda>s. (s, Some (p, n))) s = (s', r)"
    by (simp add: guarded_partial_def)
  from with_policy_result[OF this] policy_steps(4) policy_records(4) Inr pn show ?thesis by fastforce
qed (use assms in \<open>auto simp: guarded_partial_def\<close>)

text \<open>What the state before and after a request tells about an event it emitted.\<close>

fun event_ok :: "inner_signer \<Rightarrow> 't signer \<Rightarrow> 't signer \<Rightarrow> event \<Rightarrow> bool" where
  "event_ok inner s s' (SecretOut i) \<longleftrightarrow>
    (\<exists>st. record_secret_release (policy_state s) i = Some st \<and> policy_le st (policy_state s'))"
| "event_ok inner s s' (HolderUsed i) \<longleftrightarrow>
    (\<exists>st. record_holder_commitment (policy_state s) i = Some st \<and> policy_le st (policy_state s'))"
| "event_ok inner s s' (CounterpartySigned i) \<longleftrightarrow>
    (\<exists>st. record_counterparty_commitment (policy_state s) i = Some st \<and> policy_le st (policy_state s'))"
| "event_ok inner s s' (PartialOut n c m) \<longleftrightarrow>
    \<not> ctx_poisoned s \<and> nonce_bindings (policy_state s') n = Some (m_sha256 (musig inner) (c @ m))"
| "event_ok inner s s' (ClosingSigned c) \<longleftrightarrow> check_closing_payout_script c (expected_holder_close_script s)"
| "event_ok inner s s' (SpliceSigned tx prev) \<longleftrightarrow> check_splice_continues_funding tx prev s \<and> \<not> ctx_poisoned s"
| "event_ok inner s s' (HtlcSigned tx i d) \<longleftrightarrow> check_holder_htlc_tx tx i d"

lemma key_agg_unpoisoned: "taproot_key_agg inner s = Some k \<Longrightarrow> \<not> ctx_poisoned s"
  by (simp add: taproot_key_agg_def split: if_splits)

lemma policy_update_fields [simp]:
  "taproot_key_agg inner (s\<lparr>policy_state := st\<rparr>) = taproot_key_agg inner s"
  "taproot_holder_funding_key inner (s\<lparr>policy_state := st\<rparr>) = taproot_holder_funding_key inner s"
  by (simp_all add: taproot_key_agg_def taproot_holder_funding_key_def)

lemma keeps_policy: "policy_le (policy_state s) st \<Longrightarrow> keeps s (s\<lparr>policy_state := st\<rparr>)"
  by (auto simp: keeps_def)

lemma simple_requests:
  "release_commitment_secret inner i s = (s', r) \<Longrightarrow> keeps s s' \<and> (\<forall>x. r = Some x \<longrightarrow> event_ok inner s s' (SecretOut i))"
  "validate_holder_commitment inner c s = (s', v) \<Longrightarrow>
    keeps s s' \<and> (\<forall>x. v = Some x \<longrightarrow> event_ok inner s s' (HolderUsed (commitment_number c)))"
  "sign_holder_commitment inner c s = (s', r) \<Longrightarrow>
    keeps s s' \<and> (\<forall>x. r = Some x \<longrightarrow> event_ok inner s s' (HolderUsed (commitment_number c)))"
  "sign_counterparty_commitment inner c s = (s', r) \<Longrightarrow>
    keeps s s' \<and> (\<forall>x. r = Some x \<longrightarrow> event_ok inner s s' (CounterpartySigned (commitment_number c)))"
  by (auto simp: release_commitment_secret_def validate_holder_commitment_def sign_holder_commitment_def
      sign_counterparty_commitment_def with_policy_def keeps_policy policy_steps split: option.splits)

lemma partial_counterparty_facts:
  assumes "partially_sign_counterparty_commitment inner cp c s = (s', r)"
  shows "keeps s s' \<and> (\<forall>p n m sigs. r = Some (p, n, m, sigs) \<longrightarrow>
    event_ok inner s s' (CounterpartySigned (commitment_number c)) \<and> event_ok inner s s' (PartialOut n cp m))"
proof (cases "record_counterparty_commitment (policy_state s) (commitment_number c)")
  case (Some st)
  let ?t = "s\<lparr>policy_state := st\<rparr>"
  have t: "keeps s ?t" by (rule keeps_policy[OF policy_steps(2)[OF Some]])
  show ?thesis
  proof (cases "keeps ?t s' \<and> (\<forall>p n m sigs. r = Some (p, n, m, sigs) \<longrightarrow> \<not> ctx_poisoned s \<and>
      nonce_bindings (policy_state s') n = Some (m_sha256 (musig inner) (cp @ m)))")
    case True
    with keeps_trans[OF t] Some show ?thesis by (auto dest: keeps_fields(8))
  next
    case False
    with assms Some show ?thesis
      by (auto simp: partially_sign_counterparty_commitment_def with_policy_def split: option.splits prod.splits
          dest!: guarded_result key_agg_unpoisoned)
  qed
qed (use assms in \<open>auto simp: partially_sign_counterparty_commitment_def with_policy_def\<close>)

lemma finalize_holder_facts:
  assumes "finalize_holder_commitment inner c cp s = (s', r)"
  shows "keeps s s' \<and> (\<forall>p n m. r = Some (p, n, m) \<longrightarrow>
    event_ok inner s s' (HolderUsed (commitment_number c)) \<and> event_ok inner s s' (PartialOut n cp m))"
proof (cases "record_holder_commitment (policy_state s) (commitment_number c)")
  case (Some st)
  let ?t = "s\<lparr>policy_state := st\<rparr>"
  have t: "keeps s ?t" by (rule keeps_policy[OF policy_steps(1)[OF Some]])
  show ?thesis
  proof (cases "keeps ?t s' \<and> (\<forall>p n m. r = Some (p, n, m) \<longrightarrow> \<not> ctx_poisoned s \<and>
      nonce_bindings (policy_state s') n = Some (m_sha256 (musig inner) (cp @ m)))")
    case True
    with keeps_trans[OF t] Some show ?thesis by (auto dest: keeps_fields(8))
  next
    case False
    with assms Some show ?thesis
      by (auto simp: finalize_holder_commitment_def with_policy_def split: option.splits prod.splits
          dest!: guarded_result key_agg_unpoisoned)
  qed
qed (use assms in \<open>auto simp: finalize_holder_commitment_def with_policy_def\<close>)

lemma partial_closing_facts:
  assumes "partially_sign_closing_transaction inner c s = (s', r)"
  shows "keeps s s' \<and> (\<forall>p n cp m. r = Some (p, n, cp, m) \<longrightarrow>
    event_ok inner s s' (ClosingSigned c) \<and> event_ok inner s s' (PartialOut n cp m))"
  using assms
  by (auto simp: partially_sign_closing_transaction_def split: if_splits option.splits prod.splits
      dest!: guarded_result key_agg_unpoisoned)

lemma partial_splice_facts:
  assumes "partially_sign_splice_shared_input inner tx i prevouts cp prev cand s = (s', r)"
  shows "keeps s s' \<and> (\<forall>p n m. r = Some (p, n, m) \<longrightarrow>
    event_ok inner s s' (SpliceSigned tx prev) \<and> event_ok inner s s' (PartialOut n cp m))"
  using assms
  by (auto simp: partially_sign_splice_shared_input_def split: if_splits option.splits prod.splits
      dest!: guarded_result key_agg_unpoisoned)

lemma deadman_facts:
  assumes "deadman_exit_partial inner cp ht m s = (s', r)"
  shows "keeps s s' \<and> (\<forall>p n. r = Some (p, n) \<longrightarrow> event_ok inner s s' (PartialOut n cp m))"
  using assms
  by (auto simp: deadman_exit_partial_def split: option.splits prod.splits dest!: guarded_result key_agg_unpoisoned)

lemmas request_facts = simple_requests partial_counterparty_facts finalize_holder_facts partial_closing_facts
  partial_splice_facts deadman_facts

lemmas request_keeps = request_facts[OF surjective_pairing, THEN conjunct1]
lemmas request_events = request_facts[OF surjective_pairing, THEN conjunct2, rule_format]

fun sets_up :: "'t request \<Rightarrow> bool" where
  "sets_up (ProvideContext chain ctx) = True"
| "sets_up (SetTruth t role) = True"
| "sets_up _ = False"

lemma serve_facts:
  assumes "serve inner r s = (s', es)"
  shows "(sets_up r \<or> keeps s s') \<and> (\<forall>e \<in> set es. event_ok inner s s' e)"
proof (cases r)
  case (SignHtlc tx i d)
  with assms show ?thesis
    by (auto simp: emits_def sign_holder_htlc_transaction_def split: option.splits if_splits)
next
  case (SignClosing c)
  with assms show ?thesis
    by (auto simp: emits_def sign_closing_transaction_def split: option.splits if_splits)
qed (use assms in \<open>auto simp: emits_def request_keeps simp del: event_ok.simps split: option.splits
      dest: request_events\<close>)

subsection \<open>Contexts\<close>

lemma check_chain_facts:
  assumes "check_against_chain inner chain ctx prev s = (s', b)"
  shows "\<exists>r. s' = s\<lparr>truth_recorded := r\<rparr> \<and> (truth_recorded s \<longrightarrow> r)"
proof -
  have "\<exists>r. s = s\<lparr>truth_recorded := r\<rparr> \<and> (truth_recorded s \<longrightarrow> r)" by (intro exI[of _ "truth_recorded s"]) simp
  with assms show ?thesis
    by (auto simp: check_against_chain_def split: option.splits prod.splits TruthVerdict.splits if_splits)
qed

definition continues :: "inner_signer \<Rightarrow> TaprootSignerContext \<Rightarrow> bytes \<Rightarrow> TxOut \<Rightarrow> bool" where
  "continues inner ctx prev out \<longleftrightarrow> splice_parent_funding_txid ctx = Some prev
    \<and> (\<exists>k i j spk. key_agg_for inner ctx = Some (k, i, j, funding_value_sat ctx, spk)
        \<and> out = \<lparr>out_value = funding_value_sat ctx, script_pubkey = spk\<rparr>)"

lemma key_agg_value: "key_agg_for inner ctx = Some (k, i, j, v, spk) \<Longrightarrow> v = funding_value_sat ctx"
  by (auto simp: key_agg_for_def Let_def split: sum.splits)

definition contradicts :: "TaprootSignerContext \<Rightarrow> TaprootSignerContext \<Rightarrow> bool" where
  "contradicts prev ctx \<longleftrightarrow> closing_round ctx < closing_round prev
    \<or> splice_parent_funding_txid prev = splice_parent_funding_txid ctx \<and>
      (counterparty_funding_pubkey ctx \<noteq> counterparty_funding_pubkey prev \<or> funding_value_sat ctx \<noteq> funding_value_sat prev)"

definition contradicted :: "TaprootSignerContext \<Rightarrow> 't signer \<Rightarrow> bool" where
  "contradicted ctx s \<longleftrightarrow> (\<exists>prev. taproot_ctx s = Some prev \<and> contradicts prev ctx)"

text \<open>The three ways a context is received: refused for a contradiction, refused by the chain, in force.\<close>

lemma provide_cases:
  obtains (contradiction) "contradicted ctx s" "provide_taproot_context inner chain ctx s = s\<lparr>ctx_poisoned := True\<rparr>"
  | (unsupported) t where "\<not> contradicted ctx s" "check_against_chain inner chain ctx (taproot_ctx s) s = (t, False)"
      "provide_taproot_context inner chain ctx s = t\<lparr>ctx_poisoned := True\<rparr>"
  | (in_force) t c where "\<not> contradicted ctx s" "check_against_chain inner chain ctx (taproot_ctx s) s = (t, True)"
      "provide_taproot_context inner chain ctx s = t\<lparr>splice_continuation := c, taproot_ctx := Some ctx\<rparr>"
      "\<And>prev out. c prev = Some out \<Longrightarrow> splice_continuation s prev = Some out \<or> continues inner ctx prev out"
proof -
  obtain t b where t: "check_against_chain inner chain ctx (taproot_ctx s) s = (t, b)" by fastforce
  from check_chain_facts[OF t] have c: "splice_continuation t = splice_continuation s" by auto
  have p: "provide_taproot_context inner chain ctx s = (if contradicted ctx s then s\<lparr>ctx_poisoned := True\<rparr>
      else if \<not> b then t\<lparr>ctx_poisoned := True\<rparr>
      else (case splice_parent_funding_txid ctx of None \<Rightarrow> t
         | Some parent \<Rightarrow> (case key_agg_for inner ctx of None \<Rightarrow> t
           | Some (k, i, j, v, spk) \<Rightarrow> t\<lparr>splice_continuation := (splice_continuation t)(parent \<mapsto>
               \<lparr>out_value = v, script_pubkey = spk\<rparr>)\<rparr>))\<lparr>taproot_ctx := Some ctx\<rparr>)"
    by (auto simp: provide_taproot_context_def contradicted_def contradicts_def t Let_def split: option.splits)
  let ?c = "case splice_parent_funding_txid ctx of None \<Rightarrow> splice_continuation t
    | Some parent \<Rightarrow> (case key_agg_for inner ctx of None \<Rightarrow> splice_continuation t
      | Some (k, i, j, v, spk) \<Rightarrow> (splice_continuation t)(parent \<mapsto> \<lparr>out_value = v, script_pubkey = spk\<rparr>))"
  have "?c prev = Some out \<Longrightarrow> splice_continuation s prev = Some out \<or> continues inner ctx prev out" for prev out
    by (auto simp: c continues_def split: option.splits if_splits dest: key_agg_value)
  moreover have "b \<Longrightarrow> \<not> contradicted ctx s \<Longrightarrow>
      provide_taproot_context inner chain ctx s = t\<lparr>splice_continuation := ?c, taproot_ctx := Some ctx\<rparr>"
    unfolding p by (auto split: option.splits)
  ultimately show thesis
    using that(1) that(2)[of t] that(3)[of t ?c] t p by (cases "contradicted ctx s"; cases b) auto
qed

subsection \<open>Runs\<close>

lemma serve_latches:
  assumes "serve inner r s = (s', es)"
  shows "policy_le (policy_state s) (policy_state s')" "ctx_poisoned s \<Longrightarrow> ctx_poisoned s'"
    "expected_holder_close_script s' = expected_holder_close_script s" "truth s = Some t \<Longrightarrow> truth s' = Some t"
    "truth_recorded s \<Longrightarrow> truth_recorded s'"
proof -
  have "policy_le (policy_state s) (policy_state s') \<and> (ctx_poisoned s \<longrightarrow> ctx_poisoned s')
    \<and> expected_holder_close_script s' = expected_holder_close_script s
    \<and> (truth s = Some t \<longrightarrow> truth s' = Some t) \<and> (truth_recorded s \<longrightarrow> truth_recorded s')"
  proof (cases r)
    case (ProvideContext chain ctx)
    with assms have s': "s' = provide_taproot_context inner chain ctx s" by simp
    show ?thesis
    proof (cases rule: provide_cases[of ctx s inner chain])
      case contradiction
      then show ?thesis by (simp add: s')
    next
      case (unsupported u)
      from check_chain_facts[OF unsupported(2)] unsupported(3) show ?thesis by (auto simp: s')
    next
      case (in_force u c)
      from check_chain_facts[OF in_force(2)] in_force(3) show ?thesis by (auto simp: s')
    qed
  qed (use assms serve_facts[OF assms] in \<open>auto simp: keeps_fields set_truth_source_def split: option.splits\<close>)
  then show "policy_le (policy_state s) (policy_state s')" "ctx_poisoned s \<Longrightarrow> ctx_poisoned s'"
    "expected_holder_close_script s' = expected_holder_close_script s" "truth s = Some t \<Longrightarrow> truth s' = Some t"
    "truth_recorded s \<Longrightarrow> truth_recorded s'" by auto
qed

lemma serve_all_latches:
  assumes "serve_all inner rs s = (s', es)"
  shows "policy_le (policy_state s) (policy_state s')" "ctx_poisoned s \<Longrightarrow> ctx_poisoned s'"
    "expected_holder_close_script s' = expected_holder_close_script s" "truth s = Some t \<Longrightarrow> truth s' = Some t"
    "truth_recorded s \<Longrightarrow> truth_recorded s'"
proof -
  have "policy_le (policy_state s) (policy_state s') \<and> (ctx_poisoned s \<longrightarrow> ctx_poisoned s')
    \<and> expected_holder_close_script s' = expected_holder_close_script s
    \<and> (truth s = Some t \<longrightarrow> truth s' = Some t) \<and> (truth_recorded s \<longrightarrow> truth_recorded s')"
    using assms
  proof (induction rs arbitrary: s es)
    case (Cons r rs)
    obtain s1 es1 es2 where r: "serve inner r s = (s1, es1)" "serve_all inner rs s1 = (s', es2)"
      using Cons(2) by (auto split: prod.splits)
    from serve_latches[OF r(1)] Cons(1)[OF r(2)] show ?case by (auto intro: policy_le_trans)
  qed auto
  then show "policy_le (policy_state s) (policy_state s')" "ctx_poisoned s \<Longrightarrow> ctx_poisoned s'"
    "expected_holder_close_script s' = expected_holder_close_script s" "truth s = Some t \<Longrightarrow> truth s' = Some t"
    "truth_recorded s \<Longrightarrow> truth_recorded s'" by auto
qed


text \<open>An event of a run comes from one request, and the rest of the run starts after it.\<close>

lemma serve_all_event:
  assumes "serve_all inner rs s = (s', xs @ e # ys)"
  shows "\<exists>rs1 r rs2 s1 s2 es pre post zs. rs = rs1 @ r # rs2 \<and> serve_all inner rs1 s = (s1, es)
    \<and> serve inner r s1 = (s2, pre @ e # post) \<and> serve_all inner rs2 s2 = (s', zs) \<and> ys = post @ zs"
  using assms
proof (induction rs arbitrary: s xs)
  case (Cons r rs)
  obtain s1 es fs where r: "serve inner r s = (s1, es)" "serve_all inner rs s1 = (s', fs)" "es @ fs = xs @ e # ys"
    using Cons(2) by (auto split: prod.splits)
  from r(3) consider (here) us where "es = xs @ e # us" "ys = us @ fs" | (later) us where "fs = us @ e # ys"
    by (auto simp: append_eq_append_conv2 append_eq_Cons_conv)
  then show ?case
  proof cases
    case here
    then have "r # rs = [] @ r # rs \<and> serve_all inner [] s = (s, []) \<and> serve inner r s = (s1, xs @ e # us)
      \<and> serve_all inner rs s1 = (s', fs) \<and> ys = us @ fs" using r by simp
    then show ?thesis by blast
  next
    case later
    with Cons(1)[of s1 us] r(2) obtain rs1 q rs2 t1 t2 gs pre post zs where q:
      "rs = rs1 @ q # rs2" "serve_all inner rs1 s1 = (t1, gs)" "serve inner q t1 = (t2, pre @ e # post)"
      "serve_all inner rs2 t2 = (s', zs)" "ys = post @ zs" by blast
    have "serve_all inner (r # rs1) s = (t1, es @ gs)" using r(1) q(2) by simp
    with q show ?thesis by (metis append_Cons)
  qed
qed simp

lemma serve_all_member:
  assumes "serve_all inner rs s = (s', es)" "e \<in> set es"
  shows "\<exists>rs1 r rs2 s1 s2 fs gs zs. rs = rs1 @ r # rs2 \<and> serve_all inner rs1 s = (s1, fs)
    \<and> serve inner r s1 = (s2, gs) \<and> e \<in> set gs \<and> serve_all inner rs2 s2 = (s', zs) \<and> event_ok inner s1 s2 e"
proof -
  obtain xs ys where "es = xs @ e # ys" using assms(2) split_list by fast
  with assms(1) serve_all_event[of inner rs s s' xs e ys] obtain rs1 r rs2 s1 s2 fs pre post zs where *:
    "rs = rs1 @ r # rs2" "serve_all inner rs1 s = (s1, fs)" "serve inner r s1 = (s2, pre @ e # post)"
    "serve_all inner rs2 s2 = (s', zs)" by blast
  then have "e \<in> set (pre @ e # post)" "event_ok inner s1 s2 e" using serve_facts[OF *(3)] by auto
  with * show ?thesis by blast
qed

subsection \<open>Nonces\<close>

lemma partial_is_bound:
  assumes "serve_all inner rs s = (s', es)" "PartialOut n c m \<in> set es"
  shows "nonce_bindings (policy_state s') n = Some (m_sha256 (musig inner) (c @ m))"
proof -
  from serve_all_member[OF assms] obtain rs2 s2 zs where *: "serve_all inner rs2 s2 = (s', zs)"
    "nonce_bindings (policy_state s2) n = Some (m_sha256 (musig inner) (c @ m))" by auto
  then show ?thesis using serve_all_latches(1)[OF *(1)] by (metis domI map_le_def policy_le_def)
qed

subsection \<open>Commitment numbers\<close>

text \<open>
  Commitment numbers count down: after a secret has left the signer, no holder commitment at or
  above its number is used, and no number goes back up.
\<close>

fun in_order :: "event \<Rightarrow> event \<Rightarrow> bool" where
  "in_order (SecretOut i) (HolderUsed j) = (j < i)"
| "in_order (SecretOut i) (SecretOut j) = (j \<le> i)"
| "in_order (HolderUsed i) (HolderUsed j) = (j \<le> i)"
| "in_order (CounterpartySigned i) (CounterpartySigned j) = (j \<le> i)"
| "in_order _ _ = True"

lemma in_order_later:
  assumes "event_ok inner s1 s2 e" "policy_le (policy_state s2) (policy_state s3)" "event_ok inner s3 s4 f"
  shows "in_order e f"
  using assms
  by (cases "(e, f)" rule: in_order.cases)
     (fastforce simp: policy_le_def deeper_def dest!: policy_records)+

lemma in_order_same_request: "serve inner r s = (s', pre @ e # post) \<Longrightarrow> f \<in> set post \<Longrightarrow> in_order e f"
  by (cases r) (auto simp: emits_def append_eq_Cons_conv Cons_eq_append_conv split: option.splits prod.splits)

lemma run_in_order:
  assumes "serve_all inner rs s = (s', xs @ e # ys)" "f \<in> set ys"
  shows "in_order e f"
proof -
  from serve_all_event[OF assms(1)] obtain r rs2 s1 s2 pre post zs where *:
    "serve inner r s1 = (s2, pre @ e # post)" "serve_all inner rs2 s2 = (s', zs)" "ys = post @ zs" by blast
  show ?thesis
  proof (cases "f \<in> set post")
    case True
    then show ?thesis by (rule in_order_same_request[OF *(1)])
  next
    case False
    with assms(2) *(3) have "f \<in> set zs" by simp
    from serve_all_member[OF *(2) this] obtain rs1 s3 s4 fs where
      "serve_all inner rs1 s2 = (s3, fs)" "event_ok inner s3 s4 f" by blast
    moreover have "event_ok inner s1 s2 e" using serve_facts[OF *(1)] by simp
    ultimately show ?thesis using in_order_later serve_all_latches(1) by blast
  qed
qed

subsection \<open>Refused contexts\<close>

lemma poisoned_is_silent:
  assumes "serve_all inner rs s = (s', es)" "ctx_poisoned s"
  shows "ctx_poisoned s' \<and> PartialOut n c m \<notin> set es \<and> SpliceSigned tx prev \<notin> set es"
proof -
  have "\<not> ctx_poisoned s1" if "event_ok inner s1 s2 (PartialOut n c m) \<or> event_ok inner s1 s2 (SpliceSigned tx prev)" for s1 s2
    using that by auto
  with serve_all_member[OF assms(1)] serve_all_latches(2)[OF _ assms(2)] have
    "PartialOut n c m \<notin> set es" "SpliceSigned tx prev \<notin> set es" by blast+
  with serve_all_latches(2)[OF assms] show ?thesis by blast
qed

lemma poisoned_no_nonce:
  "ctx_poisoned s \<Longrightarrow> generate_local_nonce_pair inner i s = None"
  "ctx_poisoned s \<Longrightarrow> generate_splice_nonce inner txid k s = None"
  "ctx_poisoned s \<Longrightarrow> deadman_exit_pubnonce inner h m s = None"
  by (simp_all add: generate_local_nonce_pair_def generate_splice_nonce_def deadman_exit_pubnonce_def taproot_key_agg_def)

lemma contradiction_poisons:
  "contradicted ctx s \<Longrightarrow> ctx_poisoned (provide_taproot_context inner chain ctx s)"
  by (cases rule: provide_cases[of ctx s inner chain]) auto

subsection \<open>Where the context in force and the outputs of splices come from\<close>

lemma serve_provenance:
  assumes "serve inner r s = (s', es)"
  shows "taproot_ctx s' = Some p \<Longrightarrow> taproot_ctx s = Some p \<or> (\<exists>chain. r = ProvideContext chain p)"
    "splice_continuation s' prev = Some out \<Longrightarrow> splice_continuation s prev = Some out
      \<or> (\<exists>chain ctx. r = ProvideContext chain ctx \<and> continues inner ctx prev out)"
proof -
  have "(taproot_ctx s' = Some p \<longrightarrow> taproot_ctx s = Some p \<or> (\<exists>chain. r = ProvideContext chain p))
    \<and> (splice_continuation s' prev = Some out \<longrightarrow> splice_continuation s prev = Some out
      \<or> (\<exists>chain ctx. r = ProvideContext chain ctx \<and> continues inner ctx prev out))"
  proof (cases r)
    case (ProvideContext chain ctx)
    with assms have s': "s' = provide_taproot_context inner chain ctx s" by simp
    show ?thesis
    proof (cases rule: provide_cases[of ctx s inner chain])
      case contradiction
      then show ?thesis by (simp add: s')
    next
      case (unsupported u)
      from check_chain_facts[OF unsupported(2)] unsupported(3) show ?thesis by (auto simp: s')
    next
      case (in_force u c)
      from in_force(3,4) ProvideContext show ?thesis by (auto simp: s')
    qed
  qed (use assms serve_facts[OF assms] in \<open>auto simp: keeps_fields set_truth_source_def split: option.splits\<close>)
  then show "taproot_ctx s' = Some p \<Longrightarrow> taproot_ctx s = Some p \<or> (\<exists>chain. r = ProvideContext chain p)"
    "splice_continuation s' prev = Some out \<Longrightarrow> splice_continuation s prev = Some out
      \<or> (\<exists>chain ctx. r = ProvideContext chain ctx \<and> continues inner ctx prev out)" by auto
qed

lemma serve_all_provenance:
  assumes "serve_all inner rs s = (s', es)"
  shows "taproot_ctx s' = Some p \<Longrightarrow> taproot_ctx s = Some p \<or> (\<exists>chain. ProvideContext chain p \<in> set rs)"
    "splice_continuation s' prev = Some out \<Longrightarrow> splice_continuation s prev = Some out
      \<or> (\<exists>chain ctx. ProvideContext chain ctx \<in> set rs \<and> continues inner ctx prev out)"
proof -
  have "(taproot_ctx s' = Some p \<longrightarrow> taproot_ctx s = Some p \<or> (\<exists>chain. ProvideContext chain p \<in> set rs))
    \<and> (splice_continuation s' prev = Some out \<longrightarrow> splice_continuation s prev = Some out
      \<or> (\<exists>chain ctx. ProvideContext chain ctx \<in> set rs \<and> continues inner ctx prev out))"
    using assms
  proof (induction rs arbitrary: s es)
    case (Cons r rs)
    obtain s1 es1 es2 where r: "serve inner r s = (s1, es1)" "serve_all inner rs s1 = (s', es2)"
      using Cons(2) by (auto split: prod.splits)
    from serve_provenance(1)[OF r(1), of p] serve_provenance(2)[OF r(1), of prev out] Cons(1)[OF r(2)]
    show ?case by auto
  qed auto
  then show "taproot_ctx s' = Some p \<Longrightarrow> taproot_ctx s = Some p \<or> (\<exists>chain. ProvideContext chain p \<in> set rs)"
    "splice_continuation s' prev = Some out \<Longrightarrow> splice_continuation s prev = Some out
      \<or> (\<exists>chain ctx. ProvideContext chain ctx \<in> set rs \<and> continues inner ctx prev out)" by auto
qed

lemma serve_all_append:
  assumes "serve_all inner (rs1 @ rs2) s = (s', es)"
  shows "\<exists>s1 xs ys. serve_all inner rs1 s = (s1, xs) \<and> serve_all inner rs2 s1 = (s', ys) \<and> es = xs @ ys"
  using assms by (induction rs1 arbitrary: s es) (fastforce split: prod.splits)+

lemma spliced_output:
  assumes "serve_all inner rs (signer_new script) = (s', es)" "SpliceSigned tx prev \<in> set es"
  shows "\<exists>chain ctx out. ProvideContext chain ctx \<in> set rs \<and> continues inner ctx prev out
    \<and> length (filter (\<lambda>o'. o' = out) (tx_outputs tx)) = 1"
proof -
  from serve_all_member[OF assms] obtain rs1 r rs2 s1 fs where *: "rs = rs1 @ r # rs2"
    "serve_all inner rs1 (signer_new script) = (s1, fs)" "check_splice_continues_funding tx prev s1" by auto
  from *(3) obtain out where out: "splice_continuation s1 prev = Some out"
    "length (filter (\<lambda>o'. o' = out) (tx_outputs tx)) = 1"
    by (auto simp: check_splice_continues_funding_def split: option.splits)
  with serve_all_provenance(2)[OF *(2) out(1)] *(1) show ?thesis by (auto simp: signer_new_def)
qed

subsection \<open>Contexts of a recorded channel\<close>

definition supported :: "inner_signer \<Rightarrow> 't chain_read \<Rightarrow> 't \<Rightarrow> TaprootSignerContext option \<Rightarrow> TaprootSignerContext \<Rightarrow> bool" where
  "supported inner chain t prev ctx \<longleftrightarrow> ask_chain inner chain t ctx = Some Match
    \<or> ask_chain inner chain t ctx = Some Mismatch \<and> (\<exists>p. prev = Some p
        \<and> splice_parent_funding_txid p \<noteq> splice_parent_funding_txid ctx \<and> ask_chain inner chain t p = Some Match)"

lemma check_recorded:
  assumes "truth s = Some (t, role)" "truth_recorded s"
  shows "check_against_chain inner chain ctx prev s = (s, supported inner chain t prev ctx)"
proof -
  have [simp]: "s\<lparr>truth_recorded := True\<rparr> = s" using assms(2) by simp
  show ?thesis using assms
    by (auto simp: check_against_chain_def supported_def split: option.splits TruthVerdict.splits)
qed

lemma recorded_context_supported:
  assumes "serve_all inner rs s = (s', es)" "truth s = Some (t, role)" "truth_recorded s" "\<not> ctx_poisoned s'"
    and "ProvideContext chain ctx \<in> set rs"
  shows "\<exists>prev. supported inner chain t prev ctx
    \<and> (\<forall>p. prev = Some p \<longrightarrow> taproot_ctx s = Some p \<or> (\<exists>chain. ProvideContext chain p \<in> set rs))"
proof -
  obtain rs1 rs2 where rs: "rs = rs1 @ ProvideContext chain ctx # rs2" using assms(5) split_list by fast
  with serve_all_append[of inner rs1 "ProvideContext chain ctx # rs2"] assms(1) obtain s1 fs gs where *:
    "serve_all inner rs1 s = (s1, fs)" "serve_all inner rs2 (provide_taproot_context inner chain ctx s1) = (s', gs)"
    by (fastforce split: prod.splits)
  have t: "truth s1 = Some (t, role)" "truth_recorded s1"
    using serve_all_latches(4,5)[OF *(1)] assms(2,3) by auto
  have unp: "\<not> ctx_poisoned (provide_taproot_context inner chain ctx s1)"
    using serve_all_latches(2)[OF *(2)] assms(4) by blast
  show ?thesis
  proof (cases rule: provide_cases[of ctx s1 inner chain])
    case (in_force u c)
    from in_force(2) have "supported inner chain t (taproot_ctx s1) ctx" by (auto simp: check_recorded[OF t])
    moreover have "taproot_ctx s1 = Some p \<longrightarrow> taproot_ctx s = Some p \<or> (\<exists>chain. ProvideContext chain p \<in> set rs)" for p
      using serve_all_provenance(1)[OF *(1)] rs by auto
    ultimately show ?thesis by blast
  qed (use unp in auto)
qed

subsection \<open>A scope left and entered again\<close>

lemma provide_without_truth:
  assumes "truth s = None" "\<not> contradicted ctx s"
  shows "taproot_ctx (provide_taproot_context inner chain ctx s) = Some ctx
    \<and> truth (provide_taproot_context inner chain ctx s) = None
    \<and> ctx_poisoned (provide_taproot_context inner chain ctx s) = ctx_poisoned s"
proof (cases rule: provide_cases[of ctx s inner chain])
  case (in_force u c)
  from in_force(2,3) assms(1) show ?thesis by (auto simp: check_against_chain_def)
qed (use assms in \<open>auto simp: check_against_chain_def\<close>)

lemma scope_rotated_back:
  assumes "taproot_ctx s = Some ctx" "truth s = None" "\<not> ctx_poisoned s"
    and "splice_parent_funding_txid other \<noteq> splice_parent_funding_txid ctx" "closing_round other = closing_round ctx"
    and "key \<noteq> counterparty_funding_pubkey ctx"
  defines "rebound \<equiv> ctx\<lparr>counterparty_funding_pubkey := key\<rparr>"
  shows "ctx_poisoned (provide_taproot_context inner chain rebound s)
    \<and> (\<exists>s'. provide_taproot_context inner chain rebound (provide_taproot_context inner chain other s) = s'
        \<and> \<not> ctx_poisoned s' \<and> taproot_ctx s' = Some rebound)"
proof -
  let ?t = "provide_taproot_context inner chain other s"
  have "contradicted rebound s" using assms(1,6) by (simp add: contradicted_def contradicts_def rebound_def)
  moreover have t: "taproot_ctx ?t = Some other \<and> truth ?t = None \<and> ctx_poisoned ?t = ctx_poisoned s"
    by (rule provide_without_truth[OF assms(2)]) (use assms(1,4,5) in \<open>auto simp: contradicted_def contradicts_def\<close>)
  moreover have "\<not> contradicted rebound ?t"
    using t assms(4,5) by (auto simp: contradicted_def contradicts_def rebound_def)
  ultimately show ?thesis
    using provide_without_truth[of ?t rebound inner chain] assms(3) contradiction_poisons by blast
qed

subsection \<open>Nonce heights\<close>

text \<open>
  Commitment numbers have 48 bits. The heights of splices are above them, and those of closes
  above both, as long as the closing round leaves room.
\<close>

lemma splice_height_range:
  "2 ^ 48 \<le> splice_nonce_height inner txid k \<and> splice_nonce_height inner txid k < 2 ^ 48 + 2 ^ 56"
proof -
  have "(2::nat) ^ 48 + r mod 2 ^ 56 < 2 ^ 64" for r :: nat
    using mod_less_divisor[of "2 ^ 56" r] by simp
  then show ?thesis by (simp add: splice_nonce_height_def Let_def)
qed

lemma heights_disjoint:
  assumes "number \<le> INITIAL_COMMITMENT_NUMBER"
  shows "number < splice_nonce_height inner txid k"
    and "round < 2 ^ 63 \<Longrightarrow> splice_nonce_height inner txid k < closing_nonce_height round"
  using assms splice_height_range[of inner txid k]
  by (auto simp: INITIAL_COMMITMENT_NUMBER_def closing_nonce_height_def CLOSING_NONCE_BASE_def)

lemma closing_round_reaches_commitments:
  assumes "number \<le> INITIAL_COMMITMENT_NUMBER"
  shows "closing_nonce_height (CLOSING_NONCE_BASE - number) = number"
  using assms by (simp add: INITIAL_COMMITMENT_NUMBER_def closing_nonce_height_def CLOSING_NONCE_BASE_def)

subsection \<open>What the policy allows\<close>

text \<open>An honest run is never refused: each state in turn, its secret once the next one is signed.\<close>

lemma next_commitment_accepted:
  assumes "highest_holder_commitment_signed st = Some i" "lowest_secret_released st = None \<or> lowest_secret_released st = Some (Suc i)"
    and "0 < i"
  shows "\<exists>st1 st2. record_holder_commitment st (i - 1) = Some st1 \<and> record_secret_release st1 i = Some st2
    \<and> highest_holder_commitment_signed st2 = Some (i - 1) \<and> lowest_secret_released st2 = Some (Suc (i - 1))"
  using assms by (auto simp: record_holder_commitment_def record_secret_release_def check_no_regression_def
      check_not_revoked_def advance_def)

text \<open>The policy does not ask for a successor: the secret of the state in force is released.\<close>

lemma current_secret_released:
  assumes "highest_holder_commitment_signed st = Some i" "lowest_secret_released st = None"
  shows "record_secret_release st i \<noteq> None"
    and "record_secret_release st i = Some st' \<Longrightarrow> record_holder_commitment st' i = None"
  using assms by (auto simp: record_secret_release_def record_holder_commitment_def check_no_regression_def
      check_not_revoked_def advance_def)

text \<open>A signed close pays the holder at the committed script or not at all; a signed HTLC transaction
  spends the output of its descriptor into the output the descriptor derives.\<close>

lemma run_payouts:
  assumes "serve_all inner rs s = (s', es)"
  shows "ClosingSigned c \<in> set es \<Longrightarrow>
      to_holder_value_sat c = 0 \<or> to_holder_script c = expected_holder_close_script s"
    and "HtlcSigned tx i d \<in> set es \<Longrightarrow>
      i < length (tx_inputs tx) \<and> tx_inputs tx ! i = htlc_outpoint d \<and> htlc_tx_output d \<in> set (tx_outputs tx)"
proof -
  assume "ClosingSigned c \<in> set es"
  from serve_all_member[OF assms this] obtain rs1 s1 fs where
    "serve_all inner rs1 s = (s1, fs)" "check_closing_payout_script c (expected_holder_close_script s1)" by auto
  with serve_all_latches(3)[of inner rs1 s s1 fs] show "to_holder_value_sat c = 0 \<or> to_holder_script c = expected_holder_close_script s"
    by (simp add: check_closing_payout_script_def split: if_splits)
next
  assume "HtlcSigned tx i d \<in> set es"
  from serve_all_member[OF assms this] show
    "i < length (tx_inputs tx) \<and> tx_inputs tx ! i = htlc_outpoint d \<and> htlc_tx_output d \<in> set (tx_outputs tx)"
    by (auto simp: check_holder_htlc_tx_def split: if_splits)
qed

end
