(* ===== verification/Daemons.thy ===== *)
theory Daemons
  imports Swap_Rails Freshness Rebalancer Lev_Keeper Seed_Shares Validating_Signer
begin

text \<open>
  Properties of the off-chain daemons under \<open>src/quid-ln\<close>, over the theories of their components,
  with concrete inputs at which each is exercised.
\<close>

section \<open>Sample values\<close>

text \<open>
  Concrete inputs at which the properties of the daemons are exercised. The hash is a stand-in of
  the right length; none of the definitions of this section models code.
\<close>

definition toy_hash :: "bytes \<Rightarrow> bytes" where
  "toy_hash m = take 32 (rev m @ replicate 32 1)"

definition sample_txids :: "bytes list" where
  "sample_txids = [replicate 32 1, replicate 32 2, replicate 32 3]"

definition sample_client :: esplora where
  "sample_client = \<lparr>get_tx = (\<lambda>t. Some (take 4 t)), get_block_hash = (\<lambda>t. Some (replicate 32 9)),
     get_block_height = (\<lambda>h. Some 800000), get_block_txids = (\<lambda>h. Some sample_txids)\<rparr>"

definition sample_params :: OpenParams where
  "sample_params = \<lparr>funding_block_hash_be = replicate 32 7, funding_block_height = 800000, funding_tx_index = 2,
     lp_pubkey = replicate 33 2, hop_pubkey = replicate 33 3, lp_identity_pubkey = replicate 33 4,
     amount_sats = 5000000, funding_taproot = replicate 32 5\<rparr>"

lemma sample_txids_facts [simp]: "length sample_txids = 3" "sample_txids ! 2 = replicate 32 3"
  by (simp_all add: sample_txids_def)

lemma toy_hash_length [simp]: "length (toy_hash m) = 32"
  by (simp add: toy_hash_def)

section \<open>Inclusion proofs and encodings\<close>

text \<open>
  C20: For every transaction of a block the hop builds a branch: it is computed without a panic,
  it comes with the Merkle root of the block, it is as long as the tree is deep and no longer, and
  the check the contract makes accepts it. An index beyond the block panics.
\<close>

theorem branch_proves_inclusion:
  assumes "i < length txids"
  shows "(\<exists>branch. merkle_branch sha txids i = Some (branch, merkle_root sha txids)
      \<and> verify_branch sha (txids ! i) branch i (merkle_root sha txids)
      \<and> length txids \<le> 2 ^ length branch \<and> 2 ^ length branch < 2 * length txids)
    \<and> merkle_branch sha txids (length txids + k) = None"
proof -
  from merkle_branch_correct[OF assms, of sha] obtain branch where
    b: "merkle_branch sha txids i = Some (branch, merkle_root sha txids)"
       "verify_branch sha (txids ! i) branch i (merkle_root sha txids)" "length txids \<le> 2 ^ length branch"
       "branch \<noteq> [] \<longrightarrow> 2 ^ (length branch - 1) < length txids" by blast
  have "2 ^ length branch < 2 * length txids" using b(4) assms by (cases branch) auto
  with b merkle_branch_panics[of txids "length txids + k" sha] show ?thesis by auto
qed

theorem branch_proves_inclusion_witness:
  "(\<exists>branch. merkle_branch toy_hash sample_txids 2 = Some (branch, merkle_root toy_hash sample_txids)
      \<and> verify_branch toy_hash (replicate 32 3) branch 2 (merkle_root toy_hash sample_txids)
      \<and> 3 \<le> (2 :: nat) ^ length branch \<and> (2 :: nat) ^ length branch < 6)
   \<and> merkle_branch toy_hash sample_txids 3 = None"
  using branch_proves_inclusion[of 2 sample_txids toy_hash 0] by simp

text \<open>
  C21: A forged inclusion proof breaks the hash. If a branch of the tree's depth makes the check
  accept, at some position of the block, an id that is not the one at that position, then two
  different messages with the same hash are computed from the two branches.
\<close>

theorem forged_leaf_is_collision:
  assumes "merkle_branch sha txids i = Some (branch, root)" "verify_branch sha x forged i root"
    and "length forged = length branch" "x \<noteq> txids ! i" "length x = length (txids ! i)" "\<And>m. length (sha m) = 32"
  shows "\<exists>a b. collision sha x forged (txids ! i) branch i = Some (a, b) \<and> a \<noteq> b \<and> sha a = sha b"
proof (rule collision_found[OF assms(4,5,3,6)])
  have "i < length txids" using assms(1) merkle_branch_panics[of txids i sha] by (cases "i < length txids") auto
  from merkle_branch_correct[OF this, of sha] assms(1,2)
  show "fold_branch sha x forged i = fold_branch sha (txids ! i) branch i" by (auto simp: verify_branch_fold)
qed

definition const_hash :: "bytes \<Rightarrow> bytes" where
  "const_hash m = replicate 32 0"

theorem forged_leaf_is_collision_witness:
  "\<exists>a b. collision const_hash (replicate 32 8) [replicate 32 5] (replicate 32 1) [replicate 32 2] 0 = Some (a, b)
    \<and> a \<noteq> b \<and> const_hash a = const_hash b"
  using forged_leaf_is_collision[of const_hash "[replicate 32 1, replicate 32 2]" 0 "[replicate 32 2]" "replicate 32 0"
      "replicate 32 8" "[replicate 32 5]"]
  by (simp add: merkle_branch_def merkle_loop.simps even_layer_def hash_pair_def const_hash_def verify_branch_def
      xor_nat_def)

text \<open>
  The hex codec is exact. A string decodes into an array of \<open>n\<close> bytes only if it is the
  encoding of that array, the three errors are told apart by length and characters, the decoder
  that allocates and the one that runs at compile time agree with it.
\<close>

theorem hex_codec_exact:
  "((decode_to_slice s n = Inr bs) = (s = hex_encode bs \<and> length bs = n))
  \<and> ((decode_to_slice s n = Inl OddInputLength) = odd (length s))
  \<and> ((decode_to_slice s n = Inl BadOutputLength) = (even (length s) \<and> length s \<noteq> 2 * n))
  \<and> ((decode_to_slice s n = Inl InvalidCharacter) = (length s = 2 * n \<and> \<not> list_all is_hex_char s))
  \<and> ((hex_decode s = Inr bs) = (s = hex_encode bs))
  \<and> ((decode_const n s = Some bs) = (s = hex_encode bs \<and> length bs = n))"
proof -
  have "(decode_const n s = Some bs) = (decode_to_slice s n = Inr bs)"
    by (simp add: decode_const_slice split: sum.splits)
  then show ?thesis by (simp add: decode_to_slice_iff decode_to_slice_errors hex_decode_iff)
qed

text \<open>
  C22: The calldata encoder is total and loses nothing: every list of tokens that fits a list of
  ABI types is encoded without reaching an unreachable arm, and, within the range of the length
  words, the decoder of the ABI reads the same tokens back from wherever the encoding is embedded.
\<close>

theorem abi_encoding_decodes:
  assumes "list_all2 has_ty tys toks"
  shows "\<exists>bs. encode_tuple toks = Some bs \<and> (length bs \<ge> 2 ^ 64 \<or> dec_toks tys (bs @ r) (bs @ r) = Some toks)"
proof -
  obtain bs where bs: "encode_tuple toks = Some bs" using encoders_total(2) by blast
  with encoders_round_trip(2)[OF assms bs, of r] show ?thesis by (meson not_le)
qed

theorem abi_encoding_decodes_witness:
  "\<exists>bs. encode_tuple [Uint 7, Bytes [1, 2, 3], Tuple [FixedBytes32Array [replicate 32 9], Uint 5]] = Some bs
    \<and> (length bs \<ge> 2 ^ 64 \<or>
        dec_toks [TUint, TBytes, TTuple [TBytes32Array, TUint]] (bs @ []) (bs @ [])
          = Some [Uint 7, Bytes [1, 2, 3], Tuple [FixedBytes32Array [replicate 32 9], Uint 5]])"
  by (rule abi_encoding_decodes) simp

text \<open>
  C23: A close is recorded with a proof of the transaction that closed: when the hop gathered the
  inclusion of a transaction and encoded the call, the call carries the selector of
  \<open>recordClose\<close>, decodes at the types of its own signature to the channel, the parameters and the
  proof, and the proof verifies at the position the transaction has in its block.
\<close>

theorem close_call_proves_inclusion:
  assumes "tx_inclusion sha client txid = Some inc" "client_hashes client" "\<And>m. length (sha m) = 32"
    and "wf_open_params params" "length cid = 32" "\<And>x. length (keccak x) = 32"
  shows "\<exists>data block_hash txids. encode_record_close keccak cid params (raw inc) (inc_block_hash_be inc)
        (merkle_proof inc) (tx_index inc) = Some data
    \<and> (length data \<ge> 2 ^ 64 \<or> calls_with keccak SIG_RECORD_CLOSE data
         [FixedBytes32 cid, Tuple (open_params_tokens params),
          Tuple (close_proof_tokens (raw inc) (inc_block_hash_be inc) (merkle_proof inc) (tx_index inc))])
    \<and> get_block_hash client txid = Some block_hash \<and> get_block_txids client block_hash = Some txids
    \<and> tx_index inc < length txids \<and> txids ! tx_index inc = txid
    \<and> verify_branch sha txid (merkle_proof inc) (tx_index inc) (merkle_root sha txids)"
proof -
  obtain data where d: "encode_record_close keccak cid params (raw inc) (inc_block_hash_be inc) (merkle_proof inc)
      (tx_index inc) = Some data"
    using encode_call_total unfolding encode_record_close_def by blast
  note w = tx_inclusion_widths[OF assms(1-3)]
  from record_close_calls[OF d assms(4,5) w _ assms(6)] d tx_inclusion_branch[OF assms(1)]
  show ?thesis by (fastforce simp: not_le)
qed

lemma sample_inclusion:
  "tx_inclusion toy_hash sample_client (replicate 32 2) =
    Some \<lparr>raw = replicate 4 2, inc_block_hash_be = replicate 32 9, height = 800000, tx_index = 1,
      merkle_proof = [replicate 32 1, toy_hash (replicate 64 3)]\<rparr>"
proof -
  have "merkle_branch toy_hash sample_txids 1 = Some ([replicate 32 1, toy_hash (replicate 64 3)],
      toy_hash (toy_hash (replicate 32 1 @ replicate 32 2) @ toy_hash (replicate 64 3)))"
    by (simp add: merkle_branch_def merkle_loop.simps sample_txids_def even_layer_def hash_pair_def
        replicate_add[symmetric])
  then show ?thesis
    by (simp add: tx_inclusion_def sample_client_def sample_txids_def block_hash_be_def)
qed

theorem close_call_proves_inclusion_witness:
  "\<exists>data. encode_record_close toy_hash (replicate 32 6) sample_params (replicate 4 2) (replicate 32 9)
      [replicate 32 1, toy_hash (replicate 64 3)] 1 = Some data
    \<and> verify_branch toy_hash (replicate 32 2) [replicate 32 1, toy_hash (replicate 64 3)] 1
        (merkle_root toy_hash sample_txids)"
proof -
  have "client_hashes sample_client" by (auto simp: client_hashes_def sample_client_def sample_txids_def)
  moreover have "wf_open_params sample_params" by (simp add: wf_open_params_def sample_params_def)
  moreover have "get_block_txids sample_client = (\<lambda>h. Some sample_txids)" by (simp add: sample_client_def)
  ultimately show ?thesis
    using close_call_proves_inclusion[OF sample_inclusion, of sample_params "replicate 32 6" toy_hash] by auto
qed

text \<open>
  C24: The call that settles a proven swap-in cannot be read by the contract. Its terms are a
  struct of static fields, which the ABI lays out in place, and the encoder writes an offset for
  them; for every token whose address, as a number, is at least the length of the calldata, the
  decoder at the types of the call's own signature fails.
\<close>

theorem settle_call_malformed:
  assumes "length seller = 20" "length tok = 20" "\<And>x. length (keccak x) = 32"
  shows "\<exists>data tys. encode_settle_swap_in_proven keccak seller tok price bps refund cltv inc = Some data
    \<and> sig_types SIG_SETTLE_SWAP_IN_PROVEN = Some tys
    \<and> (be_nat tok < length data \<or> dec_toks tys (drop 4 data) (drop 4 data) = None)"
proof -
  obtain data where d: "encode_settle_swap_in_proven keccak seller tok price bps refund cltv inc = Some data"
    using encode_call_total unfolding encode_settle_swap_in_proven_def by blast
  obtain tys where t: "sig_types SIG_SETTLE_SWAP_IN_PROVEN = Some tys" using sig_settle by blast
  from settle_undecodable[OF d assms _ t] d t show ?thesis by (meson not_le)
qed

theorem settle_call_malformed_witness:
  "\<exists>data tys. encode_settle_swap_in_proven toy_hash (replicate 20 1) (replicate 20 2) 60000 50 (replicate 32 3) 900000
      \<lparr>raw = [1, 2], inc_block_hash_be = replicate 32 9, height = 800000, tx_index = 1, merkle_proof = [replicate 32 1]\<rparr>
      = Some data
    \<and> sig_types SIG_SETTLE_SWAP_IN_PROVEN = Some tys
    \<and> (be_nat (replicate 20 2) < length data \<or> dec_toks tys (drop 4 data) (drop 4 data) = None)"
  by (rule settle_call_malformed) simp_all

section \<open>Swaps\<close>

text \<open>
  The decoder of swap-out requests reads back what the contract logs, and no log, from
  whichever contract and with whatever data, makes it panic.
\<close>

theorem swap_out_log_decoded:
  assumes "length who = 20" "length tok = 20" "length sid = 32" "n < 2 ^ 64" "length script < 2 ^ 63"
    and "encode_tuple [Uint (of_nat n), Address tok, Bytes script] = Some data"
    and "list_all (\<lambda>t. length t = 32) topics"
  shows "decode_swap_out_requested_onchain keccak [swap_out_requested_onchain_topic keccak, address_word who, sid] data b
      = Some (Some \<lparr>swapper = who, sats = n, token = tok, swap_id = sid, swapper_script = script, request_block = b\<rparr>)
    \<and> (\<exists>r. decode_swap_out_requested_onchain keccak topics any b = Some r)"
  using decode_round_trip[OF assms(1-6)] decode_no_panic[OF assms(7)] by simp

theorem swap_out_log_decoded_witness:
  "\<exists>data. encode_tuple [Uint (of_nat 250000), Address (replicate 20 4), Bytes [0, 20]] = Some data
    \<and> decode_swap_out_requested_onchain toy_hash
        [swap_out_requested_onchain_topic toy_hash, address_word (replicate 20 7), replicate 32 8] data 19
      = Some (Some \<lparr>swapper = replicate 20 7, sats = 250000, token = replicate 20 4, swap_id = replicate 32 8,
          swapper_script = [0, 20], request_block = 19\<rparr>)"
proof -
  obtain data where d: "encode_tuple [Uint (of_nat 250000), Address (replicate 20 4), Bytes [0, 20]] = Some data"
    using encoders_total(2) by blast
  with swap_out_log_decoded[OF _ _ _ _ _ d, of "replicate 20 7" "replicate 32 8" "[]" toy_hash 19 "[]"]
  show ?thesis by auto
qed

text \<open>
  C25: The floor the seller is quoted is the floor the contract enforces: whenever the
  contract's checked arithmetic returns, the wrapping arithmetic of the daemon gives the same
  amount, and it is never above what the price gives.
\<close>

theorem quoted_floor_is_enforced:
  assumes "settleFloorUsd (unat price) bps n = Some f" "n < 2 ^ 64"
  shows "unat (swap_in_floor_usd n price bps) = f \<and> f \<le> n * unat price div 100000000"
  using floor_agrees[OF assms] floor_below_quote[OF assms(1)] by simp

theorem quoted_floor_is_enforced_witness:
  "unat (swap_in_floor_usd 250000 60000000000 100) = 148500000 \<and> (148500000 :: nat) \<le> 250000 * 60000000000 div 100000000"
proof -
  have "settleFloorUsd (unat (60000000000 :: 256 word)) 100 250000 = Some 148500000"
    by (simp add: settleFloorUsd_def Let_def)
  from quoted_floor_is_enforced[OF this] show ?thesis by simp
qed

section \<open>Freshness of the hop's state\<close>


definition sample_ledger_cfg :: ledger_cfg where
  "sample_ledger_cfg = \<lparr>resolver = (\<lambda>m. Inr m), hop_address = replicate 20 1, is_hop = True\<rparr>"

definition sample_chain :: btc_chain where
  "sample_chain = \<lparr>freshnessSeq = (\<lambda>c. 500), managerFreshnessSeq = (\<lambda>h. 0)\<rparr>"

definition sample_outpoint :: bytes where
  "sample_outpoint = replicate 32 0xab"

lemma sample_monitor: "hex32 sample_outpoint \<noteq> MANAGER_FRESHNESS_KEY"
proof
  assume "hex32 sample_outpoint = MANAGER_FRESHNESS_KEY"
  then have "length (hex32 sample_outpoint) = length MANAGER_FRESHNESS_KEY" by simp
  then show False by (simp add: hex32_encode sample_outpoint_def MANAGER_FRESHNESS_KEY_def ascii_def)
qed











text \<open>
  C28: An established node does not survive a restart. The committer's record of what the chain has
  confirmed is empty after a boot, so the first update of a monitor whose id is beyond the allowed
  lag and new to the node is refused, the node shuts itself down, and nothing is queued that could
  fill the record: the next boot is in the same position.
\<close>

theorem restart_refuses_established_channel:
  assumes "boot cfg view ms framed c = Some n" "MAX_UNCONFIRMED_LAG < i" "entry0 (cache (anchor n)) (hex32 oc) < i"
    and "True \<in> set (take 3 writes)"
  shows "\<exists>n'. write_monitor writes (Some oc) i n = (n', InProgress) \<and> shutdown n'
    \<and> node_chain n' = c \<and> queue (ledger (anchor n')) = []"
proof -
  obtain n' st where w: "write_monitor writes (Some oc) i n = (n', st)" by fastforce
  from restart_stalls[OF assms w] w show ?thesis by auto
qed

definition resumed_node :: hop_node where
  "resumed_node = \<lparr>anchor = \<lparr>ledger = queued_spawn sample_chain, cache = [hex32 sample_outpoint \<mapsto> 500]\<rparr>,
     shutdown = False, manager_seq = 0\<rparr>"

lemma resumed_boot:
  "boot sample_ledger_cfg (Some sample_chain) [(Some sample_outpoint, 500)] None sample_chain = Some resumed_node"
proof -
  have "slot_word sample_ledger_cfg sample_chain (hex32 sample_outpoint) = Inr (be_octets 32 500)"
    using sample_monitor by (simp add: slot_word_def sample_ledger_cfg_def sample_chain_def)
  moreover have "counter sample_ledger_cfg sample_chain (hex32 sample_outpoint) = 500"
    using sample_monitor by (simp add: counter_def sample_ledger_cfg_def sample_chain_def)
  ultimately have "ledger_highest sample_ledger_cfg (Some sample_chain) (hex32 sample_outpoint) = Inr (Some 500)"
    using ledger_highest_exact by simp
  then show ?thesis
    by (simp add: boot_def boot_manager_def verify_fresh_def anchor_highest_def resumed_node_def)
qed

theorem restart_refuses_established_channel_witness:
  "\<exists>n'. write_monitor [True] (Some sample_outpoint) 501 resumed_node = (n', InProgress) \<and> shutdown n'
    \<and> node_chain n' = sample_chain \<and> queue (ledger (anchor n')) = []"
  by (rule restart_refuses_established_channel[OF resumed_boot])
     (simp_all add: MAX_UNCONFIRMED_LAG_def resumed_node_def entry0_def)

section \<open>Capacity and leverage\<close>

text \<open>
  C29: The rebalancer splices only within its bounds: an exhausted channel, by at least the least
  economic amount and at most what restores twice the ceiling of a swap, within the cap of the
  channel, and leaving the reserve of the wallet untouched.
\<close>

theorem splice_within_bounds:
  assumes "decide_splice s w cfg cap = Splice g"
  shows "exhausted s \<and> MIN_ECONOMIC_GROW_SATS \<le> g \<and> channel_value_satoshis s + g \<le> cap
    \<and> wallet_reserve_sats cfg + g \<le> w \<and> g \<le> want_grow_sats s"
  using decide_splice_bounds[OF assms] by simp

definition drained_channel :: ChannelSnapshot where
  "drained_channel = \<lparr>channel_value_satoshis = 10000000, next_outbound_htlc_limit_msat = 1000000,
     max_inbound_in_flight_percent = 10, is_usable = True\<rparr>"

lemma drained_splice:
  "decide_splice drained_channel 5000000 default_rebalance_config CHANNEL_MAX_FUNDING_SATS = Splice 1999000"
  by (simp add: decide_splice_def drained_channel_def default_rebalance_config_def CHANNEL_MAX_FUNDING_SATS_def
      per_swap_ceiling_msat_def want_grow_sats_def div_ceil_def MIN_ECONOMIC_GROW_SATS_def
      FORCE_CLOSE_AVOIDANCE_MAX_FEE_SATS_def sat64_def Let_def)

theorem splice_within_bounds_witness:
  "exhausted drained_channel \<and> MIN_ECONOMIC_GROW_SATS \<le> 1999000
    \<and> channel_value_satoshis drained_channel + 1999000 \<le> CHANNEL_MAX_FUNDING_SATS
    \<and> wallet_reserve_sats default_rebalance_config + 1999000 \<le> 5000000 \<and> 1999000 \<le> want_grow_sats drained_channel"
  by (rule splice_within_bounds[OF drained_splice])

text \<open>
  C30: A channel is spliced at most once in the life of the process. Once a pass has initiated a
  splice on a channel whose capacity has not come back by the end of that pass, the channel's slot
  is held through every later pass, whatever they observe, and none of them splices it again.
\<close>

theorem slot_never_released:
  assumes "rebalance_channel cfg cap e active = (active', Some g)" "reread e = Some s" "exhausted s"
    and "rebalance_ticks cfg cap ticks active' = (active'', splices)"
  shows "chan e \<in> active'' \<and> chan e \<notin> fst ` set splices"
  using ticks_keep_slot[OF _ assms(4)] splice_takes_slot[OF assms(1-3)] by blast

definition sample_tick :: tick_env where
  "sample_tick = \<lparr>chan = [1], snap = drained_channel, wallet = 5000000, taken = False, splice_ok = True,
     reread = Some drained_channel\<rparr>"

lemma sample_tick_splices:
  "rebalance_channel default_rebalance_config CHANNEL_MAX_FUNDING_SATS sample_tick {} = ({[1]}, Some 1999000)"
  using drained_splice
  by (simp add: rebalance_channel_def sample_tick_def) (simp add: drained_channel_def per_swap_ceiling_msat_def sat64_def Let_def)

theorem slot_never_released_witness:
  "\<exists>active splices. rebalance_ticks default_rebalance_config CHANNEL_MAX_FUNDING_SATS [[sample_tick], [sample_tick]] {[1]}
      = (active, splices) \<and> [1] \<in> active \<and> [1] \<notin> fst ` set splices"
proof -
  obtain active splices where
    r: "rebalance_ticks default_rebalance_config CHANNEL_MAX_FUNDING_SATS [[sample_tick], [sample_tick]] {[1]} = (active, splices)"
    by fastforce
  have "exhausted drained_channel" using decide_splice_bounds(1)[OF drained_splice] .
  with slot_never_released[OF sample_tick_splices _ _ r, of drained_channel] r show ?thesis
    by (simp add: sample_tick_def)
qed

text \<open>
  C31: No position in danger is passed over. In every pass of the keeper, each position it could
  read and whose loan to value, its own or its pool's, is within the safety margin of liquidation
  is sent a protective redemption or a rebalance, whatever the dwell timers say of it.
\<close>

theorem urgent_position_called:
  assumes "lp \<in> set lps" "position_view env lp = Some v" "urgent_view v cfg"
  shows "\<exists>d' calls. lev_tick env cfg now dwell_secs (Some lps) d = (d', Some calls)
    \<and> (CRebalance lp \<in> set calls \<or> (\<exists>repay. CProtect lp repay \<in> set calls))"
  using tick_total[of env cfg now dwell_secs lps d] tick_urgent_called[OF assms] by blast

definition sample_view :: PositionView where
  "sample_view = \<lparr>current_ltv_bps = 7500, il_ltv_bps = 7400, target_ltv_bps = 5000, pool_ltv_bps = 7000,
     venue_liq_ltv_bps = 8600, lev_collateral_usd = 1000000000, deliverable_floor_ok = True,
     move_persisted = False, mature_quid_usd = 0, wbtc_mode = False\<rparr>"

definition sample_lev_env :: lev_env where
  "sample_lev_env = \<lparr>position_view = (\<lambda>lp. if lp = [7] then Some sample_view else None),
     protect_ok = (\<lambda>lp. True), rebalance_ok = (\<lambda>lp. True)\<rparr>"

theorem urgent_position_called_witness:
  "\<exists>d' calls. lev_tick sample_lev_env default_keeper_config 1000 600 (Some [[6], [7]]) Map.empty = (d', Some calls)
    \<and> (CRebalance [7] \<in> set calls \<or> (\<exists>repay. CProtect [7] repay \<in> set calls))"
  by (rule urgent_position_called[where v = sample_view])
     (simp_all add: sample_lev_env_def urgent_view_def sample_view_def default_keeper_config_def)

section \<open>Custody\<close>

text \<open>
  C32: Written shares bring the seed back. Split a seed, write any shares of the split down, one per
  line and with comments between the lines, read the text back: at least as many distinct shares as
  the threshold recover the seed. This is relative to the secret-sharing scheme and the word list,
  which are libraries.
\<close>

theorem written_shares_recover:
  assumes "scheme_recovers lib" "sentences_parse lib" "\<And>m. length (sha256 lib m) = 32"
    and "split_seed lib seed k count = Inr out" "length seed = SEED_LENGTH" "k < 256"
    and "set shares \<subseteq> set out" "distinct (map index shares)" "k \<le> length shares"
    and "CHR 0x0A \<notin> set remark" "remark = [] \<or> last remark \<noteq> CHR 0x0D"
  shows "parse_share_set lib (share_text lib remark shares) = Inr shares \<and> combine lib shares = Inr seed"
proof -
  have "2 \<le> k" using assms(4) by (auto simp: split_seed_def split: if_splits)
  then have "shares \<noteq> []" using assms(9) by auto
  moreover have "\<forall>s \<in> set shares. wf_share s"
    using split_seed_wf[OF assms(4,3,6)] assms(7) by blast
  ultimately show ?thesis
    using parse_share_text[OF assms(2) _ assms(10,11), of shares] split_combine[OF assms(1,4,5,7,8,9)]
    by (simp add: parse_share_set_def)
qed

definition toy_scheme :: share_lib where
  "toy_scheme = \<lparr>sha256 = toy_hash, dealer = (\<lambda>k seed i. of_nat (i + 1) # seed), share_parses = (\<lambda>bs. True),
     recover = (\<lambda>k bs. case bs of [] \<Rightarrow> None | b # _ \<Rightarrow> Some (tl b)),
     to_words = (\<lambda>p. text_of (hex_encode p) # replicate 23 ''x''),
     parse_words = (\<lambda>ws. case hex_decode (ascii (hd ws)) of Inl e \<Rightarrow> None | Inr p \<Rightarrow> Some p)\<rparr>"

lemma toy_scheme_recovers: "scheme_recovers toy_scheme"
proof -
  have "\<exists>i js. is = i # js" if "(2 :: nat) \<le> k" "k \<le> length is" for k and "is" :: "nat list"
    using that by (cases "is") auto
  then show ?thesis by (fastforce simp: scheme_recovers_def toy_scheme_def)
qed

lemma toy_sentences_parse: "sentences_parse toy_scheme"
proof -
  have "plain_word ''x''" by (simp add: plain_word_def is_ws_def)
  moreover have "hex_decode (hex_encode p) = Inr p" for p by (simp add: hex_decode_iff)
  moreover have "plain_word (text_of (hex_encode p))" if "length p = SEED_LENGTH" for p
    by (rule hex_text_plain) (use that in \<open>auto simp: SEED_LENGTH_def\<close>)
  ultimately show ?thesis
    by (auto simp: sentences_parse_def toy_scheme_def ascii_text_of list_all_iff)
qed

definition toy_share :: "nat \<Rightarrow> SeedShare" where
  "toy_share i = \<lparr>index = i, threshold = 2, commitment = commit_to toy_scheme (replicate 32 6), payload = replicate 32 6\<rparr>"

theorem written_shares_recover_witness:
  "parse_share_set toy_scheme (share_text toy_scheme ''kept in the safe'' [toy_share 3, toy_share 1])
      = Inr [toy_share 3, toy_share 1]
    \<and> combine toy_scheme [toy_share 3, toy_share 1] = Inr (replicate 32 6)"
proof (rule written_shares_recover[OF toy_scheme_recovers toy_sentences_parse, where k = 2 and count = 3])
  show "split_seed toy_scheme (replicate 32 6) 2 3 = Inr [toy_share 1, toy_share 2, toy_share 3]"
    by (simp add: split_seed_def upt_rec toy_scheme_def toy_share_def SEED_LENGTH_def Let_def commit_to_def)
qed (simp_all add: toy_scheme_def toy_share_def SEED_LENGTH_def)

text \<open>
  C33: What is recovered is what was committed to: shares combine only if there are at least as many
  as the threshold they all carry, with distinct indices, and the recovered secret has the length of
  a seed and the commitment printed on every one of them.
\<close>

theorem recovered_seed_is_committed:
  assumes "combine lib shares = Inr seed"
  shows "shares \<noteq> [] \<and> length seed = SEED_LENGTH \<and> distinct (map index shares) \<and>
    (\<forall>s \<in> set shares. commitment s = commit_to lib seed \<and> threshold s \<le> length shares \<and>
       recover lib (threshold s) (map share_bytes shares) = Some seed)"
  by (rule combine_sound[OF assms])

lemma toy_combine: "combine toy_scheme [toy_share 3, toy_share 1] = Inr (replicate 32 6)"
  by (simp add: combine_def toy_share_def toy_scheme_def SEED_LENGTH_def share_bytes_def commit_to_def Let_def)

theorem recovered_seed_is_committed_witness:
  "length (replicate 32 (6 :: byte)) = SEED_LENGTH \<and> commitment (toy_share 1) = commit_to toy_scheme (replicate 32 6)
    \<and> recover toy_scheme 2 (map share_bytes [toy_share 3, toy_share 1]) = Some (replicate 32 6)"
  using recovered_seed_is_committed[OF toy_combine] by (auto simp: toy_share_def)

text \<open>
  C34: The signer's comparison with the chain is exact. For a channel the contract has recorded, the
  verdict is a match only for the recorded size and for the recorded pair of keys in the recorded
  order, unless two different encodings of key pairs have the same hash; anything else is a
  mismatch, never an unrecorded channel or an error.
\<close>

theorem truth_match_is_exact:
  assumes "eth_call cid = channel_record keccak amount lp hop others" "list_all (\<lambda>w. length w = 32) others"
    and "length others = 4" "\<And>x. length (keccak x) = 32" "amount < 2 ^ 64"
    and "keys_hash keccak lp hop = Some kh" "\<exists>b \<in> set kh. b \<noteq> 0"
    and "length lp = 33" "length hop = 33"
  shows "truth_verify keccak (Some cid) eth_call lp2 hop2 amt
      = Some (if keys_hash keccak lp2 hop2 = Some kh \<and> amt = amount then Match else Mismatch)
    \<and> (truth_verify keccak (Some cid) eth_call lp2 hop2 amt = Some Mismatch
      \<or> (amt = amount \<and> lp = lp2 \<and> hop = hop2)
      \<or> (\<exists>a b. keys_preimage lp hop = Some a \<and> keys_preimage lp2 hop2 = Some b \<and> a \<noteq> b \<and> keccak a = keccak b))"
  using truth_recorded[where eth_call = eth_call and cid = cid, OF assms(1-7), of lp2 hop2 amt] truth_match_keys[of keccak lp hop lp2 hop2] assms(6,8,9) by auto

definition sample_eth_call :: "bytes \<Rightarrow> bytes option" where
  "sample_eth_call cid = channel_record toy_hash 5000000 (replicate 33 2) (replicate 33 3) (replicate 4 (replicate 32 0))"

lemma sample_keys_hash: "keys_hash toy_hash (replicate 33 2) (replicate 33 3) = Some (replicate 31 0 @ [3])"
  by (simp add: keys_hash_preimage keys_preimage_eq encode_bytes_def toy_hash_def)

theorem truth_match_is_exact_witness:
  "truth_verify toy_hash (Some (replicate 32 6)) sample_eth_call (replicate 33 2) (replicate 33 3) 5000000 = Some Match
    \<and> truth_verify toy_hash (Some (replicate 32 6)) sample_eth_call (replicate 33 2) (replicate 33 3) 4999999 = Some Mismatch"
proof -
  note t = truth_match_is_exact[where eth_call = sample_eth_call and keccak = toy_hash and amount = 5000000
      and others = "replicate 4 (replicate 32 0)", OF sample_eth_call_def _ _ _ _ sample_keys_hash]
  from t[of "replicate 32 6" "replicate 33 2" "replicate 33 3" 5000000] t[of "replicate 32 6" "replicate 33 2" "replicate 33 3" 4999999]
    sample_keys_hash
  show ?thesis by (simp add: list_all_iff)
qed

section \<open>The channel signer\<close>


definition toy_musig :: musig_lib where
  "toy_musig = \<lparr>m_sha256 = (\<lambda>b. b), m_hmac = (\<lambda>k b. k @ b), pubkey_parses = (\<lambda>k. length k = 33),
     key_agg_new = (\<lambda>a b. Some (a @ b)), taproot_tweak = Some, xonly_of = (\<lambda>k. take 32 (drop 1 k)),
     round_sets_up = (\<lambda>fr. fr_index fr < 2), public_nonce = fr_seed, takes_nonce = (\<lambda>fr i n. i < 2 \<and> i \<noteq> fr_index fr),
     finalize_round = (\<lambda>fr i n sk m. Some (sk @ m)), nonce_sum = (\<lambda>a b. a @ b),
     aggregate_partial_signatures = (\<lambda>k n ps m. Some (concat ps))\<rparr>"

definition toy_inner :: inner_signer where
  "toy_inner = \<lparr>musig = toy_musig, commitment_seed = [7],
     funding_pubkey_for = (\<lambda>p. replicate 33 (case p of None \<Rightarrow> 2 | Some t \<Rightarrow> 3)), funding_seckey_for = (\<lambda>p. [1]),
     inner_secret = (\<lambda>i. Some [9]), inner_validates = (\<lambda>c. True), inner_signs_counterparty = (\<lambda>c. Some [5]),
     inner_signs_holder = (\<lambda>c. Some [6]), inner_signs_htlc = (\<lambda>t i d. Some [8]), inner_signs_close = (\<lambda>c. Some [4]),
     keyspend_sighash = (\<lambda>t v spk. Some [of_nat (length (tx_outputs t)), of_nat v]),
     splice_sighash = (\<lambda>t i ps. Some [of_nat (length (tx_outputs t))]), htlc_sigs = (\<lambda>c. Some [])\<rparr>"

definition toy_ctx :: TaprootSignerContext where
  "toy_ctx = \<lparr>counterparty_funding_pubkey = replicate 33 4, funding_value_sat = 50, counterparty_closing_nonce = None,
     closing_round = 0, splice_parent_funding_txid = None\<rparr>"

definition toy_spliced :: TaprootSignerContext where
  "toy_spliced = toy_ctx\<lparr>funding_value_sat := 80, splice_parent_funding_txid := Some [7, 7]\<rparr>"

definition toy_commitment :: "nat \<Rightarrow> nat \<Rightarrow> CommitmentTransaction" where
  "toy_commitment i k = \<lparr>commitment_number = i, commitment_built = \<lparr>tx_inputs = [[1]],
     tx_outputs = replicate k \<lparr>out_value = 1, script_pubkey = []\<rparr>\<rparr>\<rparr>"

definition toy_chain :: "unit chain_read" where
  "toy_chain t k0 k1 v = Some (if v = 50 then Match else Mismatch)"




text \<open>
  C36: Revocation is final. Commitment numbers count down; in every run, once the secret of a state
  has left the signer no holder commitment with that number or an older one is validated or signed,
  and the numbers of holder commitments, of counterparty commitments and of released secrets each
  never go back.
\<close>

theorem revoked_state_never_signed:
  assumes "serve_all inner rs s = (s', xs @ e # ys)" "f \<in> set ys"
  shows "in_order e f"
  by (rule run_in_order[OF assms])

theorem revoked_state_never_signed_witness:
  "snd (serve_all toy_inner (ReleaseSecret 5 # [SignHolder (toy_commitment 5 1), SignHolder (toy_commitment 4 1)])
      (signer_new [] :: unit signer)) = [] @ SecretOut 5 # [HolderUsed 4]
    \<and> in_order (SecretOut 5) (HolderUsed 4) \<and> \<not> in_order (SecretOut 5) (HolderUsed 5)"
proof -
  let ?r = "serve_all toy_inner (ReleaseSecret 5 # [SignHolder (toy_commitment 5 1), SignHolder (toy_commitment 4 1)])
      (signer_new [] :: unit signer)"
  have e: "snd ?r = [] @ SecretOut 5 # [HolderUsed 4]" by code_simp
  then have "?r = (fst ?r, [] @ SecretOut 5 # [HolderUsed 4])" by (metis prod.collapse)
  from revoked_state_never_signed[OF this, of "HolderUsed 4"] e show ?thesis by simp
qed

text \<open>
  C37: A node that contradicts itself gets no more key-path signatures. If a context lowers the closing round, or
  changes the counterparty's key or the funded amount without a splice, then whatever is asked
  afterwards, further contexts included, no partial signature leaves the signer, not of a splice either, and
  no nonce is advertised.
\<close>

theorem contradiction_stops_signing:
  assumes "contradicted ctx s" "serve_all inner (ProvideContext reads ctx # rs) s = (s', es)"
  shows "PartialOut n c m \<notin> set es \<and> SpliceSigned tx prev \<notin> set es \<and> generate_local_nonce_pair inner i s' = None
    \<and> generate_splice_nonce inner txid k s' = None \<and> deadman_exit_pubnonce inner h d s' = None"
proof -
  obtain fs where "serve_all inner rs (provide_taproot_context inner reads ctx s) = (s', fs)" "es = fs"
    using assms(2) by (auto split: prod.splits)
  from poisoned_is_silent[OF this(1) contradiction_poisons[OF assms(1)]] this(2) poisoned_no_nonce
  show ?thesis by blast
qed

definition toy_started :: "unit signer" where
  "toy_started = (signer_new [])\<lparr>taproot_ctx := Some toy_ctx\<rparr>"

theorem contradiction_stops_signing_witness:
  "snd (serve_all toy_inner [FinalizeHolder (toy_commitment 5 1) [3]] toy_started)
      = [HolderUsed 5, PartialOut [7, 0, 0, 0, 0, 0, 0, 0, 5] [3] [1, 50]]
    \<and> PartialOut [7, 0, 0, 0, 0, 0, 0, 0, 5] [3] [1, 50] \<notin>
      set (snd (serve_all toy_inner (ProvideContext toy_chain (toy_ctx\<lparr>funding_value_sat := 60\<rparr>) #
        [ProvideContext toy_chain toy_ctx, FinalizeHolder (toy_commitment 5 1) [3]]) toy_started))"
proof -
  have c: "contradicted (toy_ctx\<lparr>funding_value_sat := 60\<rparr>) toy_started"
    by (simp add: contradicted_def contradicts_def toy_started_def toy_ctx_def)
  have "snd (serve_all toy_inner [FinalizeHolder (toy_commitment 5 1) [3]] toy_started)
      = [HolderUsed 5, PartialOut [7, 0, 0, 0, 0, 0, 0, 0, 5] [3] [1, 50]]" by code_simp
  with contradiction_stops_signing[OF c surjective_pairing] show ?thesis by blast
qed




text \<open>
  C39: A taproot splice the signer signs re-creates the channel. In every run of a fresh signer, a signed splice
  of a funding transaction has exactly one output with the amount and the aggregate key of a context
  that was supplied for the splice of that very transaction.
\<close>

theorem splice_recreates_funding:
  assumes "serve_all inner rs (signer_new script) = (s', es)" "SpliceSigned tx prev \<in> set es"
  shows "\<exists>reads ctx key i j spk. ProvideContext reads ctx \<in> set rs \<and> splice_parent_funding_txid ctx = Some prev
    \<and> key_agg_for inner ctx = Some (key, i, j, funding_value_sat ctx, spk)
    \<and> length (filter (\<lambda>out. out = \<lparr>out_value = funding_value_sat ctx, script_pubkey = spk\<rparr>) (tx_outputs tx)) = 1"
  using spliced_output[OF assms] unfolding continues_def by blast

definition toy_splice_tx :: Transaction where
  "toy_splice_tx = \<lparr>tx_inputs = [[7, 7]],
     tx_outputs = [\<lparr>out_value = 80, script_pubkey = p2tr_script (replicate 32 3)\<rparr>, \<lparr>out_value = 9, script_pubkey = []\<rparr>]\<rparr>"

definition toy_splice_rs :: "unit request list" where
  "toy_splice_rs = [ProvideContext toy_chain toy_ctx, ProvideContext toy_chain toy_spliced,
     PartialSplice toy_splice_tx 0 [] [3] [7, 7] 0, PartialSplice (toy_splice_tx\<lparr>tx_outputs := []\<rparr>) 0 [] [3] [7, 7] 1]"

lemma toy_spliced_agg:
  "key_agg_for toy_inner toy_spliced = Some (replicate 33 3 @ replicate 33 4, 0, 1, 80, p2tr_script (replicate 32 3))"
  by code_simp

lemma toy_holder_partial:
  "our_key_path_partial_holder_local toy_musig k 0 (Suc 0) sk root h cp m
    = Inr (sk @ m, m_hmac toy_musig (musig2_shachain_root toy_musig root) (be_octets 8 h))"
  by (simp add: our_key_path_partial_holder_local_def run_round_def round_new_def first_round_new_def
      receive_nonce_and_sign_def derive_secnonce_seed_def toy_musig_def)

lemma toy_splice_signed:
  "SpliceSigned toy_splice_tx [7, 7] \<in> set (snd (serve_all toy_inner toy_splice_rs (signer_new [])))"
proof -
  let ?out = "\<lparr>out_value = 80, script_pubkey = p2tr_script (replicate 32 3)\<rparr>"
  have [simp]: "splice_parent_funding_txid toy_ctx = None" "closing_round toy_ctx = 0"
    "splice_parent_funding_txid toy_spliced = Some [7, 7]" "closing_round toy_spliced = 0" "musig toy_inner = toy_musig"
    "splice_sighash toy_inner tx k ps = Some [of_nat (length (tx_outputs tx))]" for tx k ps
    by (simp_all add: toy_ctx_def toy_spliced_def toy_inner_def)
  have "provide_taproot_context toy_inner toy_chain toy_spliced (provide_taproot_context toy_inner toy_chain toy_ctx (signer_new []))
      = (signer_new [])\<lparr>taproot_ctx := Some toy_spliced, splice_continuation := [[7, 7] \<mapsto> ?out]\<rparr>"
    by (simp add: provide_taproot_context_def check_against_chain_def toy_spliced_agg signer_new_def)
  moreover have "length (filter (\<lambda>out. out = ?out) (tx_outputs toy_splice_tx)) = 1" by (simp add: toy_splice_tx_def)
  moreover have "ctx_poisoned (signer_new [] :: unit signer) = False"
    "nonce_bindings (policy_state (signer_new [] :: unit signer)) = Map.empty" by (simp_all add: signer_new_def)
  ultimately show ?thesis
    by (simp add: toy_splice_rs_def partially_sign_splice_shared_input_def check_splice_continues_funding_def
        taproot_key_agg_def guarded_partial_def toy_spliced_agg toy_holder_partial with_policy_def bind_nonce_def emits_def
        split: prod.splits)
qed

theorem splice_recreates_funding_witness:
  "SpliceSigned toy_splice_tx [7, 7] \<in> set (snd (serve_all toy_inner toy_splice_rs (signer_new [])))
    \<and> (\<exists>reads ctx key i j spk. ProvideContext reads ctx \<in> set toy_splice_rs \<and> splice_parent_funding_txid ctx = Some [7, 7]
      \<and> key_agg_for toy_inner ctx = Some (key, i, j, funding_value_sat ctx, spk)
      \<and> length (filter (\<lambda>out. out = \<lparr>out_value = funding_value_sat ctx, script_pubkey = spk\<rparr>) (tx_outputs toy_splice_tx)) = 1)"
  by (rule conjI[OF toy_splice_signed splice_recreates_funding[OF surjective_pairing toy_splice_signed]])

text \<open>
  C40: The counterparty's key of a funding scope can be replaced in two steps. With no source of truth, a
  context of another scope in between makes the signer accept, for the scope it had in force, a key
  it refuses when offered directly: only the context just before is compared.
\<close>

theorem rotation_rebinds_scope:
  assumes "taproot_ctx s = Some ctx" "truth s = None" "\<not> ctx_poisoned s"
    and "splice_parent_funding_txid other \<noteq> splice_parent_funding_txid ctx" "closing_round other = closing_round ctx"
    and "key \<noteq> counterparty_funding_pubkey ctx"
  shows "ctx_poisoned (provide_taproot_context inner reads (ctx\<lparr>counterparty_funding_pubkey := key\<rparr>) s)
    \<and> (\<exists>s'. provide_taproot_context inner reads (ctx\<lparr>counterparty_funding_pubkey := key\<rparr>)
          (provide_taproot_context inner reads other s) = s'
        \<and> \<not> ctx_poisoned s' \<and> taproot_ctx s' = Some (ctx\<lparr>counterparty_funding_pubkey := key\<rparr>))"
  using scope_rotated_back[OF assms] by blast

theorem rotation_rebinds_scope_witness:
  "ctx_poisoned (provide_taproot_context toy_inner toy_chain (toy_ctx\<lparr>counterparty_funding_pubkey := replicate 33 9\<rparr>) toy_started)
    \<and> \<not> ctx_poisoned (provide_taproot_context toy_inner toy_chain (toy_ctx\<lparr>counterparty_funding_pubkey := replicate 33 9\<rparr>)
          (provide_taproot_context toy_inner toy_chain toy_spliced toy_started))"
  using rotation_rebinds_scope[of toy_started toy_ctx toy_spliced "replicate 33 9" toy_inner toy_chain]
  by (simp add: toy_started_def signer_new_def toy_spliced_def) (simp add: toy_ctx_def)

end
