(* ===== verification/Etc_Base.thy ===== *)
theory Etc_Base
  imports Prelude
begin

section \<open>Constants, errors and fixed-point arithmetic (etc.rs)\<close>

text \<open>
  The constants and the error enum of \<^verbatim>\<open>svm/programs/quid/src/etc.rs\<close>, and its integer
  kernels: \<open>pow_bps\<close> (exponentiation by squaring in basis points) and the Newton square
  root, which the source writes out three times (\<open>sqrt_x100\<close>, \<open>unwind_exposure_x100\<close> and
  inside \<open>fee_bps\<close>). The lemmas give their ranges, that they return, and that the root is
  the integer square root.
\<close>

subsection \<open>Constants\<close>

abbreviation (input) SECONDS_PER_YEAR :: int where "SECONDS_PER_YEAR \<equiv> 31536000"
abbreviation (input) MAX_LEN :: nat where "MAX_LEN \<equiv> 50"
abbreviation (input) MAX_PRICE_AGE :: int where "MAX_PRICE_AGE \<equiv> 300"
abbreviation (input) LIQ_GRACE_SECS :: int where "LIQ_GRACE_SECS \<equiv> 3600"
abbreviation (input) BPS :: int where "BPS \<equiv> 10000"
abbreviation (input) TAIL_FINE :: int where "TAIL_FINE \<equiv> 100000000"
abbreviation (input) MIN_HOLD_SECS :: int where "MIN_HOLD_SECS \<equiv> 3600"
abbreviation (input) LADDER_WINDOW_SLOTS :: int where "LADDER_WINDOW_SLOTS \<equiv> 9000"
abbreviation (input) NOISE_FLOOR_BPS :: int where "NOISE_FLOOR_BPS \<equiv> 5"
abbreviation (input) FUNDING_DEADBAND_BPS :: int where "FUNDING_DEADBAND_BPS \<equiv> 500"
abbreviation (input) TWAP_STEP_SLOTS :: int where "TWAP_STEP_SLOTS \<equiv> 562"
abbreviation (input) TWAP_RETAIN_BPS :: int where "TWAP_RETAIN_BPS \<equiv> 9394"
abbreviation (input) GAP_MIN_SLOTS :: int where "GAP_MIN_SLOTS \<equiv> 72000"
abbreviation (input) MIN_TRANCHE_BPS :: int where "MIN_TRANCHE_BPS \<equiv> 25"
abbreviation (input) MAX_TRANCHE_BPS :: int where "MAX_TRANCHE_BPS \<equiv> 185"
abbreviation (input) TRANCHE_RAMP_GRACES :: int where "TRANCHE_RAMP_GRACES \<equiv> 42"
abbreviation (input) COLLAR_BREACH_BPS :: int where "COLLAR_BREACH_BPS \<equiv> 100"
abbreviation (input) MAX_COLLAR_BPS :: int where "MAX_COLLAR_BPS \<equiv> 5000"
abbreviation (input) MAX_CONFIDENCE_BPS :: int where "MAX_CONFIDENCE_BPS \<equiv> 500"
abbreviation (input) MAX_TWAP_DEVIATION_BPS :: int where "MAX_TWAP_DEVIATION_BPS \<equiv> 500"
abbreviation (input) STARTING_FLOOR_BPS :: int where "STARTING_FLOOR_BPS \<equiv> 200"
abbreviation (input) MAX_LEVERAGE_PCT :: int where "MAX_LEVERAGE_PCT \<equiv> 1000"
abbreviation (input) MIN_FEE_BPS :: int where "MIN_FEE_BPS \<equiv> 4"
abbreviation (input) FLASH_TIP_BPS :: int where "FLASH_TIP_BPS \<equiv> 5"
abbreviation (input) LEV_THRESHOLD :: int where "LEV_THRESHOLD \<equiv> 300"
abbreviation (input) INSOLVENCY_TARGET_BPS :: int where "INSOLVENCY_TARGET_BPS \<equiv> 100"
abbreviation (input) REQUIRED_RETURN_BPS :: int where "REQUIRED_RETURN_BPS \<equiv> 1500"
abbreviation (input) LADDER_TRIGGER_BPS :: int where "LADDER_TRIGGER_BPS \<equiv> 5000"

definition JUMP_MULT :: "int list" where
  "JUMP_MULT = [100, 100, 85, 85, 85, 70, 70, 70, 70, 55, 55]"

subsection \<open>Errors\<close>

datatype (plugins only: code) quip =
    NotUndercollateralised | MaxPositionsReached | NoPrice | Tickers | TooSoon | TakeProfit
  | PoolAtCapacity | UnknownSymbol | Undercollateralised | InvalidAmount | InvalidUser
  | InvalidMint | UnderExposed | DepositFirst | InvalidPrice | InvalidParameters
  | InvalidMessageFormat | Unauthorized | InsufficientAccounts | PriceUncertain
  | OracleManipulated | FlashLoanActive | FlashRepayMissing | InvalidSettlementProgram
  | NoActiveFlashLoan | InsufficientFunds | UnparkConsentRequired | NotDeliverable
  | WrongDirection | BelowMinimumTicket | AboveMaximumTicket | DeliveryHalted
  | ExceedsNetExposure | FundingWithinBand | NoPaperHeld | DeliveryCoolingDown
  | PriceTooStaleToDeliver | BackingStillHeld | SolStarStillParked

type_synonym 'a result = "(quip, 'a) outcome"

subsection \<open>Powers in basis points\<close>

function pow_loop :: "int \<Rightarrow> int \<Rightarrow> int \<Rightarrow> int option" where
  "pow_loop result b e =
    (if e \<le> 0 then Some result
     else do {
       result' \<leftarrow> (if e mod 2 = 1 then do { m \<leftarrow> i64 (result * b); Some (m sdiv BPS) }
                   else Some result);
       let e' = e div 2;
       if e' = 0 then Some result'
       else do {
         m \<leftarrow> i64 (b * b);
         let b' = m sdiv BPS;
         if b' = 0 then Some 0 else pow_loop result' b' e'
       }
     })"
  by pat_completeness auto
termination
  by (relation "measure (\<lambda>(_, _, e). nat e)") auto

declare pow_loop.simps [simp del]

definition pow_bps :: "int \<Rightarrow> int \<Rightarrow> int option" where
  "pow_bps base_bps n =
    (if n \<le> 0 then Some BPS else pow_loop BPS (clamp 0 BPS base_bps) n)"

lemma pow_loop_bound:
  assumes "0 \<le> result" "result \<le> BPS" "0 \<le> b" "b \<le> BPS"
  shows "ok (pow_loop result b e) (\<lambda>r. 0 \<le> r \<and> r \<le> result)"
  using assms
proof (induction result b e rule: pow_loop.induct)
  case (1 result b e)
  have rb: "0 \<le> result * b" "result * b \<le> BPS * BPS"
    using "1.prems" by (auto intro: mult_mono[of result BPS b BPS, simplified])
  have bb: "0 \<le> b * b" "b * b \<le> BPS * BPS"
    using "1.prems" by (auto intro: mult_mono[of b BPS b BPS, simplified])
  have r': "result * b sdiv BPS \<le> result" "0 \<le> result * b sdiv BPS"
    using "1.prems" rb by (auto simp: sdiv_nonneg muldiv_le_left div_nonneg)
  have b': "b * b sdiv BPS \<le> BPS" "0 \<le> b * b sdiv BPS"
    using bb by (auto simp: sdiv_nonneg div_le_bound div_nonneg)
  have in_range: "is_i64 (result * b)" "is_i64 (b * b)"
    using rb bb unfolding is_i64_def by linarith+
  let ?res = "if e mod 2 = 1 then result * b sdiv BPS else result"
  have rec: "ok (pow_loop ?res (b * b sdiv BPS) (e div 2)) (\<lambda>r. 0 \<le> r \<and> r \<le> result)"
    if "\<not> e \<le> 0" "e div 2 \<noteq> 0" "b * b sdiv BPS \<noteq> 0"
    by (rule ok_mono[OF "1.IH"[where a = ?res and aa = "b * b"]])
       (use that "1.prems" r' b' in_range in \<open>auto split: if_splits\<close>)
  show ?case
    by (subst pow_loop.simps)
       (use "1.prems" in_range r' rec in \<open>auto simp: wp split: if_splits\<close>)
qed

lemma pow_bps_bound: "ok (pow_bps b n) (\<lambda>r. 0 \<le> r \<and> r \<le> BPS)"
  unfolding pow_bps_def using pow_loop_bound[of BPS "clamp 0 BPS b" n]
  by (auto simp: wp clamp_def)

subsection \<open>The Newton square root\<close>

partial_function (option) newton_loop :: "int \<Rightarrow> int \<Rightarrow> int \<Rightarrow> int option" where
  "newton_loop x r y =
    (if y < r
     then do {
       q \<leftarrow> div_i64 x (max y 1);
       s \<leftarrow> i64 (y + q);
       newton_loop x y (s sdiv 2)
     }
     else Some r)"

declare newton_loop.simps [code]

text \<open>The loop started as the source starts it: at \<open>x\<close>, with first iterate \<open>(x + 1) / 2\<close>.\<close>

definition newton_sqrt :: "int \<Rightarrow> int option" where
  "newton_sqrt x = do { s \<leftarrow> i64 (x + 1); newton_loop x x (s sdiv 2) }"

definition sqrt_x100 :: "int \<Rightarrow> int option" where
  "sqrt_x100 n = do { x \<leftarrow> i64 (max n 1 * 10000); newton_sqrt x }"

definition unwind_exposure_x100 :: "int option" where
  "unwind_exposure_x100 = do {
     let inv = BPS * 10000 sdiv max (2 * MAX_TRANCHE_BPS) 1;
     let r = max inv 1;
     y \<leftarrow> i64 (r + 1);
     s \<leftarrow> newton_loop inv r (y sdiv 2);
     Some (max s 100)
   }"

text \<open>One Newton step never falls below the root.\<close>

lemma newton_step_upper:
  fixes x r :: int
  assumes "0 < r" and "0 \<le> x"
  shows "x < ((r + x div r) div 2 + 1) * ((r + x div r) div 2 + 1)"
proof -
  define q where "q = x div r"
  define y where "y = (r + q) div 2"
  have "x = r * q + x mod r" by (simp add: q_def)
  moreover have "x mod r < r" using assms by simp
  ultimately have x: "x < r * (q + 1)" by (simp add: algebra_simps)
  have "0 \<le> q" using assms by (simp add: q_def div_nonneg)
  have y2: "r + q + 1 \<le> 2 * (y + 1)" unfolding y_def by presburger
  have "4 * (r * (q + 1)) \<le> (r + (q + 1)) * (r + (q + 1))"
    using zero_le_square[of "r - (q + 1)"] by (simp add: algebra_simps)
  also have "\<dots> \<le> (2 * (y + 1)) * (2 * (y + 1))"
    using y2 \<open>0 \<le> q\<close> assms by (intro mult_mono) auto
  finally have "r * (q + 1) \<le> (y + 1) * (y + 1)" by (simp add: algebra_simps)
  with x show ?thesis by (simp add: y_def q_def)
qed

lemma newton_step_lower:
  fixes x r :: int
  assumes "0 < r" and "r \<le> (r + x div r) div 2"
  shows "r * r \<le> x"
proof -
  have "r \<le> x div r" using assms by linarith
  then have "r * r \<le> r * (x div r)" using assms by simp
  also have "\<dots> \<le> x" using assms by (simp add: mult.commute minus_mod_eq_mult_div [symmetric])
  finally show ?thesis .
qed

lemma newton_loop_ok:
  assumes "1 \<le> r" "r \<le> x" "x \<le> 4611686018427387903"
    and "y = (r + x div r) div 2" and "x < (r + 1) * (r + 1)"
  shows "ok (newton_loop x r y) (\<lambda>s. 1 \<le> s \<and> s * s \<le> x \<and> x < (s + 1) * (s + 1))"
  using assms
proof (induction "nat r" arbitrary: r y rule: less_induct)
  case less
  show ?case
  proof (cases "y < r")
    case False
    with less.prems show ?thesis
      by (subst newton_loop.simps) (simp add: newton_step_lower)
  next
    case True
    have q: "1 \<le> x div r"
      using less.prems zdiv_mono1[of r x r] by simp
    then have y: "1 \<le> y" using less.prems by linarith
    have qy: "0 \<le> x div y" "x div y \<le> x"
      using y less.prems by (auto simp: div_nonneg div_le_self)
    have "y < x" "0 \<le> y" "0 \<le> x" using True y less.prems(2) by simp_all
    moreover have "is_i64 (x div y)" "is_i64 (y + x div y)" "0 \<le> y + x div y"
      using \<open>y < x\<close> \<open>0 \<le> y\<close> qy less.prems(3) unfolding is_i64_def by linarith+
    ultimately have step: "div_i64 x (max y 1) = Some (x div y)"
        "i64 (y + x div y) = Some (y + x div y)"
        "(y + x div y) sdiv 2 = (y + x div y) div 2"
      using y by (simp_all add: div_i64_def sdiv_nonneg max_def)
    have up: "x < (y + 1) * (y + 1)"
      using newton_step_upper[of r x] less.prems(1,2) unfolding less.prems(4) by simp
    have "ok (newton_loop x y ((y + x div y) div 2))
            (\<lambda>s. 1 \<le> s \<and> s * s \<le> x \<and> x < (s + 1) * (s + 1))"
      by (rule less.hyps)
         (use True y up \<open>y < x\<close> less.prems(1,3) in simp_all)
    with True show ?thesis
      by (subst newton_loop.simps) (simp add: step)
  qed
qed

lemma newton_sqrt_ok:
  assumes "0 \<le> x" "x \<le> 4611686018427387903"
  shows "ok (newton_sqrt x) (\<lambda>s. 0 \<le> s \<and> s * s \<le> x \<and> x < (s + 1) * (s + 1))"
proof (cases "x = 0")
  case True
  then show ?thesis
    by (simp add: newton_sqrt_def i64_def ranges newton_loop.simps signed_divide_int_def)
next
  case False
  with assms have "ok (newton_loop x x ((x + 1) div 2))
      (\<lambda>s. 1 \<le> s \<and> s * s \<le> x \<and> x < (s + 1) * (s + 1))"
    by (intro newton_loop_ok) (auto simp: algebra_simps intro: add_pos_nonneg)
  with assms False show ?thesis
    by (auto simp: newton_sqrt_def wp ranges sdiv_nonneg elim!: ok_mono)
qed

lemma sqrt_x100_ok:
  assumes "n \<le> 461168601842738"
  shows "ok (sqrt_x100 n)
    (\<lambda>s. 1 \<le> s \<and> s * s \<le> max n 1 * 10000 \<and> max n 1 * 10000 < (s + 1) * (s + 1))"
proof -
  have "ok (newton_sqrt (max n 1 * 10000))
      (\<lambda>s. 0 \<le> s \<and> s * s \<le> max n 1 * 10000 \<and> max n 1 * 10000 < (s + 1) * (s + 1))"
    using assms by (intro newton_sqrt_ok) auto
  moreover have "1 \<le> s" if "max n 1 * 10000 < (s + 1) * (s + 1)" "0 \<le> s" for s
  proof (rule ccontr)
    assume "\<not> 1 \<le> s"
    with that have "s = 0" by simp
    with that show False by simp
  qed
  ultimately show ?thesis
    using assms by (auto simp: sqrt_x100_def wp ranges elim!: ok_mono)
qed

lemma unwind_exposure_value: "unwind_exposure_x100 = Some 519"
  by (simp add: unwind_exposure_x100_def newton_loop.simps i64_def div_i64_def ranges
      signed_divide_int_def)

text \<open>A root below a bound on its square: used to bound the margin.\<close>

lemma sqrt_le_bound: "0 \<le> s \<Longrightarrow> s * s \<le> x \<Longrightarrow> x \<le> b * b \<Longrightarrow> 0 \<le> b \<Longrightarrow> s \<le> (b :: int)"
  by (meson linorder_not_le mult_strict_mono' order_less_le_trans order_less_irrefl)

end
