(* ===== verification/Actuary.thy ===== *)
theory Actuary
  imports Etc_Base
begin

section \<open>The actuary: a ticker's risk state and its estimators (etc.rs)\<close>

text \<open>
  The \<open>Actuary\<close> struct of \<^verbatim>\<open>svm/programs/quid/src/etc.rs\<close> and its read-only methods: the
  volatility floor, the Generalised Pareto fit by moments (\<open>gpd_params\<close>), the fitted survival
  function (\<open>tail_at_fine\<close>, \<open>tail_at\<close>), its quantile by bisection (\<open>quantile_bps\<close>) and the
  expected shortfall. The invariant \<open>actuary_wf\<close> bounds every field the estimators read;
  under it no estimator aborts, and the lemmas give the range of each result. The survival
  function is antitone in the distance and the bisection finds its quantile exactly.
\<close>

record actuary =
  observed_vol_bps :: int
  max_drawdown_bps :: int
  last_price :: int
  last_price_slot :: int
  last_trade_slot :: int
  jump_count :: int
  velocity :: int
  momentum_bps :: int
  net_exposure :: int
  premium_index :: int
  index_updated :: int
  total_exposure :: int
  twap_price :: int
  obs_count :: int
  exceed_count :: int
  exceed_sum :: int
  exceed_sumsq :: int
  shortfall_bps :: int
  downside_vol_bps :: int
  gap_vol_bps :: int
  gap_max_bps :: int
  gap_count :: int
  window_ref_price :: int
  window_since :: int
  experience_bps :: int
  funding_index :: int

definition actuary_default :: actuary where
  "actuary_default = \<lparr>observed_vol_bps = 0, max_drawdown_bps = 0, last_price = 0,
     last_price_slot = 0, last_trade_slot = 0, jump_count = 0, velocity = 0, momentum_bps = 0,
     net_exposure = 0, premium_index = 0, index_updated = 0, total_exposure = 0,
     twap_price = 0, obs_count = 0, exceed_count = 0, exceed_sum = 0, exceed_sumsq = 0,
     shortfall_bps = 0, downside_vol_bps = 0, gap_vol_bps = 0, gap_max_bps = 0,
     gap_count = 0, window_ref_price = 0, window_since = 0, experience_bps = 0,
     funding_index = 0\<rparr>"

subsection \<open>Estimators\<close>

definition confidence :: "actuary \<Rightarrow> int option" where
  "confidence a = do {
     m \<leftarrow> i64 (obs_count a * 100);
     d \<leftarrow> i64 (obs_count a + 10);
     div_i64 m d
   }"

definition vol_floor :: "actuary \<Rightarrow> int option" where
  "vol_floor a = do {
     let prior = STARTING_FLOOR_BPS * 2;
     let empirical = observed_vol_bps a;
     decay \<leftarrow> pow_bps 9512 (obs_count a);
     p \<leftarrow> i64 (prior * decay);
     w \<leftarrow> i64 (BPS - decay);
     e \<leftarrow> i64 (empirical * w);
     s \<leftarrow> i64 (p + e);
     let blended = s sdiv BPS;
     struct_decay \<leftarrow> pow_bps 9900 (obs_count a);
     t \<leftarrow> i64 (STARTING_FLOOR_BPS * struct_decay);
     let structural = t sdiv BPS;
     Some (max (max blended (observed_vol_bps a)) structural)
   }"

definition eff_sigma :: "actuary \<Rightarrow> int option" where
  "eff_sigma a = vol_floor a"

definition pot_threshold :: "actuary \<Rightarrow> int option" where
  "pot_threshold a = do { s \<leftarrow> eff_sigma a; Some (max 1 s) }"

definition exceedance_rate_bps :: "actuary \<Rightarrow> int option" where
  "exceedance_rate_bps a =
     (if obs_count a \<le> 0 then Some 0
      else do {
        m \<leftarrow> i64 (exceed_count a * BPS);
        q \<leftarrow> div_i64 m (obs_count a);
        Some (min BPS q)
      })"

definition gpd_params :: "actuary \<Rightarrow> (int \<times> int) option" where
  "gpd_params a = do {
     let count = exceed_count a;
     if count < 8 then do { s \<leftarrow> eff_sigma a; Some (2, max 1 (s sdiv 2)) }
     else do {
       e_bar \<leftarrow> div_i64 (exceed_sum a) count;
       if e_bar \<le> 0 then do { s \<leftarrow> eff_sigma a; Some (4, max 1 (s sdiv 2)) }
       else do {
         ms \<leftarrow> div_i128 (exceed_sumsq a) count;
         let mean_sq = clamp 0 I64_MAX ms;
         sq \<leftarrow> i64 (e_bar * e_bar);
         var \<leftarrow> i64 (mean_sq - sq);
         if var \<le> 0 then Some (12, max 1 e_bar)
         else do {
           let ratio = clamp 0 (10 * BPS) (sat_i64 (sat_i64 (e_bar * e_bar) * BPS) sdiv var);
           let xi_bps = (BPS - ratio) sdiv 2;
           let beta = max 1 (sat_i64 (e_bar * (ratio + BPS)) sdiv (2 * BPS));
           if xi_bps \<le> 0 then Some (12, max 1 e_bar)
           else Some (clamp 2 12 (BPS sdiv xi_bps), beta)
         }
       }
     }
   }"

text \<open>The loop of \<open>tail_at_fine\<close>: multiply by \<open>nb / den\<close>, \<open>n\<close> times, stopping at zero.\<close>

primrec tail_pow :: "nat \<Rightarrow> int \<Rightarrow> int \<Rightarrow> int \<Rightarrow> int" where
  "tail_pow 0 nb den q = q"
| "tail_pow (Suc k) nb den q =
     (let q' = sat_i128 (q * nb) sdiv den in if q' = 0 then q' else tail_pow k nb den q')"

definition tail_at_fine :: "int \<Rightarrow> int \<Rightarrow> int \<Rightarrow> int \<Rightarrow> int \<Rightarrow> int option" where
  "tail_at_fine d_bps n beta u zeta =
     (if d_bps \<le> 0 then Some TAIL_FINE
      else do {
        let zeta_f = sat_i64 (zeta * (TAIL_FINE sdiv BPS));
        if d_bps \<le> u then do {
          w \<leftarrow> i64 (TAIL_FINE - zeta_f);
          m \<leftarrow> i64 (w * d_bps);
          q \<leftarrow> div_i64 m u;
          i64 (TAIL_FINE - q)
        }
        else do {
          let nb = sat_i64 (n * beta);
          x \<leftarrow> i64 (d_bps - u);
          let den = sat_i64 (nb + x);
          if den \<le> 0 then Some 0
          else Some (clamp 0 TAIL_FINE (tail_pow (nat n) nb den zeta_f))
        }
      })"

definition tail_at :: "int \<Rightarrow> int \<Rightarrow> int \<Rightarrow> int \<Rightarrow> int \<Rightarrow> int option" where
  "tail_at d_bps n beta u zeta =
     (if d_bps \<le> 0 then Some BPS
      else do {
        f \<leftarrow> tail_at_fine d_bps n beta u zeta;
        Some (clamp 0 BPS (f sdiv (TAIL_FINE sdiv BPS)))
      })"

definition tail_with :: "actuary \<Rightarrow> int \<Rightarrow> int \<Rightarrow> int \<Rightarrow> int option" where
  "tail_with a d_bps n beta = do {
     u \<leftarrow> pot_threshold a;
     zeta \<leftarrow> exceedance_rate_bps a;
     tail_at d_bps n beta u zeta
   }"

definition tail_prob_bps :: "actuary \<Rightarrow> int \<Rightarrow> int option" where
  "tail_prob_bps a d_bps = do { (n, beta) \<leftarrow> gpd_params a; tail_with a d_bps n beta }"

definition tail_prob_fine :: "actuary \<Rightarrow> int \<Rightarrow> int option" where
  "tail_prob_fine a d_bps = do {
     (n, beta) \<leftarrow> gpd_params a;
     u \<leftarrow> pot_threshold a;
     zeta \<leftarrow> exceedance_rate_bps a;
     tail_at_fine d_bps n beta u zeta
   }"

definition mean_excess_bps :: "actuary \<Rightarrow> int \<Rightarrow> int option" where
  "mean_excess_bps a d_bps = do {
     (n, beta) \<leftarrow> gpd_params a;
     u \<leftarrow> pot_threshold a;
     x \<leftarrow> i64 (d_bps - u);
     let excess = max 0 x;
     m \<leftarrow> i64 (n - 1);
     Some (max 1 (sat_i64 (sat_i64 (n * beta) + excess) sdiv max 1 m))
   }"

definition bounded_mean_excess_bps :: "actuary \<Rightarrow> int \<Rightarrow> int option" where
  "bounded_mean_excess_bps a d_bps = do {
     overshoot \<leftarrow> mean_excess_bps a d_bps;
     if net_exposure a < 0 then do {
       room \<leftarrow> i64 (BPS - d_bps);
       Some (max 1 (min overshoot (max 0 room)))
     }
     else Some overshoot
   }"

text \<open>The bisection of \<open>quantile_bps\<close>: at most \<open>k\<close> halvings of \<open>[lo, hi]\<close>.\<close>

primrec bisect :: "nat \<Rightarrow> (int \<Rightarrow> int option) \<Rightarrow> int \<Rightarrow> int \<Rightarrow> int \<Rightarrow> int option" where
  "bisect 0 tail p lo hi = Some hi"
| "bisect (Suc k) tail p lo hi = do {
     w \<leftarrow> i64 (hi - lo);
     mid \<leftarrow> i64 (lo + w sdiv 2);
     if mid = lo then Some hi
     else do {
       t \<leftarrow> tail mid;
       if t > p then bisect k tail p mid hi else bisect k tail p lo mid
     }
   }"

definition quantile_bps :: "actuary \<Rightarrow> int \<Rightarrow> int option" where
  "quantile_bps a p_bps = do {
     (n, beta) \<leftarrow> gpd_params a;
     u \<leftarrow> pot_threshold a;
     zeta \<leftarrow> exceedance_rate_bps a;
     s \<leftarrow> eff_sigma a;
     h \<leftarrow> i64 (s * 50);
     bisect 20 (\<lambda>mid. tail_at mid n beta u zeta) p_bps 0 (max 100 h)
   }"

definition expected_shortfall_bps :: "actuary \<Rightarrow> int \<Rightarrow> int option" where
  "expected_shortfall_bps a p_bps = do {
     x \<leftarrow> quantile_bps a p_bps;
     m \<leftarrow> mean_excess_bps a x;
     Some (sat_i64 (x + m))
   }"

definition eff_eta :: "actuary \<Rightarrow> int option" where
  "eff_eta a = do {
     v \<leftarrow> vol_floor a;
     v2 \<leftarrow> i64 (v * 2);
     let base = max v2 (max_drawdown_bps a);
     m \<leftarrow> i64 (base * JUMP_MULT ! nat (min 10 (as_u64 (jump_count a))));
     Some (max 100 (m sdiv 100))
   }"

definition jump_regime :: "actuary \<Rightarrow> int option" where
  "jump_regime a = do { m \<leftarrow> i64 (jump_count a * 5); Some (min 100 m) }"

abbreviation get_net :: "actuary \<Rightarrow> int" where "get_net a \<equiv> net_exposure a"
abbreviation get_total :: "actuary \<Rightarrow> int" where "get_total a \<equiv> total_exposure a"

definition imbalance_bps :: "actuary \<Rightarrow> int option" where
  "imbalance_bps a =
     (if get_total a = 0 then Some 0
      else do {
        m \<leftarrow> i128 (get_net a * BPS);
        q \<leftarrow> div_i128 m (get_total a);
        Some (as_i64 q)
      })"

definition staleness_mult :: "actuary \<Rightarrow> int \<Rightarrow> int option" where
  "staleness_mult a slot = do {
     d \<leftarrow> i64 (slot - last_price_slot a);
     let stale = max 0 d;
     if stale > 2000 then do { m \<leftarrow> i64 (100 - stale sdiv 400); Some (max 50 m) }
     else Some 100
   }"

definition check_twap_deviation :: "actuary \<Rightarrow> int \<Rightarrow> int result" where
  "check_twap_deviation a spot =
     (if twap_price a = 0 \<or> obs_count a < 5 then Ok 100
      else do {
        d \<leftarrow> i64 (spot - twap_price a);
        b \<leftarrow> i64 \<bar>d\<bar>;
        m \<leftarrow> i64 (b * BPS);
        deviation_bps \<leftarrow> div_i64 m (max 1 (twap_price a));
        if deviation_bps > MAX_TWAP_DEVIATION_BPS then Err OracleManipulated
        else Ok (100 + min 50 (deviation_bps sdiv 50))
      })"

definition classify :: "actuary \<Rightarrow> int \<Rightarrow> int \<Rightarrow> (bool \<times> bool) option" where
  "classify a expo amount = do {
     let is_adding = (expo = 0 \<or> (expo > 0 \<and> amount > 0) \<or> (expo < 0 \<and> amount < 0));
     let current_net = get_net a;
     new_net \<leftarrow> i64 (current_net + amount);
     x \<leftarrow> i64 \<bar>new_net\<bar>;
     y \<leftarrow> i64 \<bar>current_net\<bar>;
     Some (is_adding, x < y)
   }"

definition gap_quantile_bps :: "actuary \<Rightarrow> int \<Rightarrow> int option" where
  "gap_quantile_bps a p_bps =
     (if gap_count a < 8 \<or> gap_vol_bps a \<le> 0 then Some 0
      else do {
        s \<leftarrow> eff_sigma a;
        let sigma = max s 1;
        q \<leftarrow> quantile_bps a p_bps;
        m \<leftarrow> i128 (gap_vol_bps a * q);
        f \<leftarrow> div_i128 m sigma;
        let fitted = clamp 0 BPS f;
        Some (max fitted (gap_max_bps a sdiv 2))
      })"

definition adverse_bps :: "actuary \<Rightarrow> bool \<Rightarrow> int option" where
  "adverse_bps a long = do {
     aligned \<leftarrow> (if long then Some (experience_bps a) else i64 (- experience_bps a));
     Some (clamp 0 BPS aligned)
   }"

subsection \<open>The invariant the estimators rely on\<close>

text \<open>
  \<open>fit_wf\<close> bounds what the estimators read. The count of exceedances is bounded by the
  number of ladder windows (9000 slots each) that fit below slot \<open>2 ^ 62\<close>; the price engine
  maintains that bound.
\<close>

definition fit_wf :: "actuary \<Rightarrow> bool" where
  "fit_wf a \<longleftrightarrow>
     0 \<le> obs_count a \<and> obs_count a \<le> 500 \<and>
     0 \<le> observed_vol_bps a \<and> observed_vol_bps a \<le> BPS \<and>
     0 \<le> exceed_count a \<and> exceed_count a \<le> 512409557603043 \<and>
     0 \<le> exceed_sum a \<and> exceed_sum a \<le> BPS * exceed_count a \<and>
     0 \<le> exceed_sumsq a \<and> exceed_sumsq a \<le> BPS * BPS * exceed_count a"

lemma fit_wfD:
  assumes "fit_wf a"
  shows "0 \<le> obs_count a" "obs_count a \<le> 500"
    "0 \<le> observed_vol_bps a" "observed_vol_bps a \<le> BPS"
    "0 \<le> exceed_count a" "exceed_count a \<le> 512409557603043"
    "0 \<le> exceed_sum a" "exceed_sum a \<le> BPS * exceed_count a"
    "0 \<le> exceed_sumsq a" "exceed_sumsq a \<le> BPS * BPS * exceed_count a"
  using assms by (simp_all add: fit_wf_def)

lemma confidence_ok:
  assumes "fit_wf a"
  shows "ok (confidence a) (\<lambda>c. 0 \<le> c \<and> c < 100)"
proof -
  let ?o = "obs_count a"
  have o: "0 \<le> ?o" "?o \<le> 500" using fit_wfD[OF assms] by simp_all
  have "?o * 100 div (?o + 10) \<le> 99"
    using o by (intro div_le_bound) auto
  with o show ?thesis
    by (simp add: confidence_def wp ranges sdiv_nonneg div_nonneg)
       (smt (verit) div_nonneg)
qed

lemma vol_floor_ok:
  assumes "fit_wf a"
  shows "ok (vol_floor a) (\<lambda>v. observed_vol_bps a \<le> v \<and> v \<le> BPS)"
proof -
  let ?e = "observed_vol_bps a"
  obtain d where d: "pow_bps 9512 (obs_count a) = Some d" "0 \<le> d" "d \<le> BPS"
    using okD[OF pow_bps_bound] by blast
  obtain s where s: "pow_bps 9900 (obs_count a) = Some s" "0 \<le> s" "s \<le> BPS"
    using okD[OF pow_bps_bound] by blast
  have e: "0 \<le> ?e" "?e \<le> BPS" using fit_wfD[OF assms] by simp_all
  have w: "0 \<le> ?e * (BPS - d)" "?e * (BPS - d) \<le> BPS * (BPS - d)"
    by (rule mult_nonneg_nonneg mult_right_mono; use e d in simp)+
  have sum: "0 \<le> 400 * d + ?e * (BPS - d)" "400 * d + ?e * (BPS - d) \<le> BPS * BPS"
    using w d by simp_all
  have "(400 * d + ?e * (BPS - d)) sdiv BPS \<le> BPS"
    using sum by (simp add: sdiv_nonneg div_le_bound)
  moreover have "200 * s sdiv BPS \<le> BPS"
    using s by (simp add: sdiv_nonneg div_le_bound)
  moreover have "is_i64 (400 * d)" "is_i64 (BPS - d)" "is_i64 (?e * (BPS - d))"
    "is_i64 (400 * d + ?e * (BPS - d))" "is_i64 (200 * s)"
    using d s w sum unfolding is_i64_def by linarith+
  ultimately show ?thesis
    using d s e by (simp add: vol_floor_def wp)
qed

lemma eff_sigma_ok:
  "fit_wf a \<Longrightarrow> ok (eff_sigma a) (\<lambda>v. observed_vol_bps a \<le> v \<and> v \<le> BPS)"
  unfolding eff_sigma_def by (rule vol_floor_ok)

lemma pot_threshold_ok:
  assumes "fit_wf a"
  shows "ok (pot_threshold a) (\<lambda>u. 1 \<le> u \<and> u \<le> BPS)"
  unfolding pot_threshold_def ok_bind
  by (rule ok_mono[OF eff_sigma_ok[OF assms]]) auto

lemma exceedance_rate_ok:
  assumes "fit_wf a"
  shows "ok (exceedance_rate_bps a) (\<lambda>z. 0 \<le> z \<and> z \<le> BPS)"
proof -
  note w = fit_wfD[OF assms]
  have "0 \<le> exceed_count a * BPS" "exceed_count a * BPS \<le> I64_MAX" using w by linarith+
  moreover from this have "exceed_count a * BPS div obs_count a \<le> I64_MAX" if "0 < obs_count a"
    using that div_le_self[of "exceed_count a * BPS" "obs_count a"] by linarith
  ultimately show ?thesis
    using w by (auto simp: exceedance_rate_bps_def wp ranges sdiv_nonneg div_nonneg
        intro: order_trans[of _ 0])
qed

lemma gpd_params_ok:
  assumes "fit_wf a"
  shows "ok (gpd_params a) (\<lambda>(n, b). 2 \<le> n \<and> n \<le> 12 \<and> 1 \<le> b \<and> b \<le> 55000)"
proof (cases "exceed_count a < 8")
  case True
  then show ?thesis
    by (simp add: gpd_params_def wp)
       (rule ok_mono[OF eff_sigma_ok[OF assms]],
         use fit_wfD(3)[OF assms] in \<open>auto simp: sdiv_nonneg\<close>)
next
  case False
  note w = fit_wfD[OF assms]
  define c where "c = exceed_count a"
  define e where "e = exceed_sum a div c"
  define ms where "ms = exceed_sumsq a div c"
  have c: "8 \<le> c" "c \<le> 512409557603043" using False w by (simp_all add: c_def)
  have e: "0 \<le> e" "e \<le> BPS"
    using c w by (auto simp: e_def c_def intro!: div_nonneg div_le_bound)
  have ms: "0 \<le> ms" "ms \<le> 100000000"
    using c w by (auto simp: ms_def c_def intro!: div_nonneg div_le_bound)
  have ee: "0 \<le> e * e" "e * e \<le> BPS * BPS"
    using e by (auto intro: mult_mono[of e BPS e BPS, simplified])
  have q: "div_i64 (exceed_sum a) (exceed_count a) = Some e"
      "div_i128 (exceed_sumsq a) (exceed_count a) = Some ms"
    using c e ms w by (simp_all add: div_i64_def div_i128_def sdiv_nonneg ranges
        e_def[symmetric] ms_def[symmetric] c_def[symmetric])
  have rng: "is_i64 (e * e)" "is_i64 (ms - e * e)" "clamp 0 I64_MAX ms = ms"
    using ee ms unfolding is_i64_def clamp_def by linarith+
  define r where "r = clamp 0 (10 * BPS) (sat_i64 (sat_i64 (e * e) * BPS) sdiv (ms - e * e))"
  have r: "0 \<le> r" "r \<le> 100000" unfolding r_def clamp_def by linarith+
  have er: "0 \<le> e * (r + BPS)" "e * (r + BPS) \<le> BPS * 110000"
    using mult_bounds[of e BPS "r + BPS" 110000] e r by simp_all
  have beta: "max 1 (sat_i64 (e * (r + BPS)) sdiv (2 * BPS)) \<le> 55000"
    using er by (simp add: sat_i64_id is_i64_def sdiv_nonneg div_le_bound)
  show ?thesis
  proof (cases "e \<le> 0")
    case True
    with False q show ?thesis
      by (simp add: gpd_params_def wp)
         (rule ok_mono[OF eff_sigma_ok[OF assms]], use w in \<open>auto simp: sdiv_nonneg\<close>)
  next
    case e0: False
    show ?thesis
      using False q e0 e rng beta r_def[symmetric]
      by (simp add: gpd_params_def wp Let_def clamp_def[of 2 12])
  qed
qed

subsection \<open>The survival function\<close>

text \<open>
  The early exit of the loop changes nothing: \<open>tail_pow\<close> is the \<open>k\<close>-fold iterate of
  \<open>q \<mapsto> q * nb div den\<close>, which never increases \<open>q\<close> and is monotone in its arguments.
\<close>

definition tail_iter :: "nat \<Rightarrow> int \<Rightarrow> int \<Rightarrow> int \<Rightarrow> int" where
  "tail_iter k nb den q = ((\<lambda>x. x * nb div den) ^^ k) q"

lemma tail_iter_Suc: "tail_iter (Suc k) nb den q = tail_iter k nb den (q * nb div den)"
  by (simp add: tail_iter_def funpow_Suc_right del: funpow.simps)

lemma tail_iter_0 [simp]: "tail_iter k nb den 0 = 0"
  by (induction k) (simp_all add: tail_iter_def)

lemma tail_iter_bounds:
  assumes "0 \<le> nb" "nb \<le> den" "0 < den" "0 \<le> q"
  shows "0 \<le> tail_iter k nb den q \<and> tail_iter k nb den q \<le> q"
  using assms(4)
proof (induction k arbitrary: q)
  case 0
  then show ?case by (simp add: tail_iter_def)
next
  case (Suc k)
  have "0 \<le> q * nb div den" "q * nb div den \<le> q"
    using assms Suc.prems by (auto intro: div_nonneg muldiv_le_left)
  with Suc.IH[of "q * nb div den"] show ?case
    by (simp add: tail_iter_Suc)
qed

lemma tail_iter_mono:
  assumes "0 \<le> nb" "nb \<le> den" "0 < den" "den \<le> den'" "0 \<le> q'" "q' \<le> q"
  shows "tail_iter k nb den' q' \<le> tail_iter k nb den q"
  using assms(5,6)
proof (induction k arbitrary: q q')
  case 0
  then show ?case by (simp add: tail_iter_def)
next
  case (Suc k)
  have "q' * nb div den' \<le> q' * nb div den"
    using assms Suc.prems by (intro div_mono2_strict) auto
  also have "\<dots> \<le> q * nb div den"
    using assms Suc.prems by (intro zdiv_mono1 mult_right_mono) auto
  finally have "tail_iter k nb den' (q' * nb div den') \<le> tail_iter k nb den (q * nb div den)"
    using assms Suc.prems by (intro Suc.IH div_nonneg) auto
  then show ?case by (simp add: tail_iter_Suc)
qed

lemma tail_pow_iter:
  assumes "0 \<le> nb" "nb \<le> 1000000" "nb \<le> den" "0 < den" "0 \<le> q" "q \<le> TAIL_FINE"
  shows "tail_pow k nb den q = tail_iter k nb den q"
  using assms(5,6)
proof (induction k arbitrary: q)
  case 0
  then show ?case by (simp add: tail_iter_def)
next
  case (Suc k)
  have qn: "0 \<le> q * nb" "q * nb \<le> TAIL_FINE * 1000000"
    using mult_bounds[of q TAIL_FINE nb 1000000] assms Suc.prems by simp_all
  have step: "sat_i128 (q * nb) sdiv den = q * nb div den"
    using qn assms by (simp add: sat_i128_id is_i128_def sdiv_nonneg)
  have "0 \<le> q * nb div den" "q * nb div den \<le> q"
    using assms Suc.prems by (auto intro: div_nonneg muldiv_le_left)
  with Suc.prems Suc.IH[of "q * nb div den"] step show ?case
    by (simp add: Let_def tail_iter_Suc)
qed

text \<open>The parameters the survival function is called with, as \<open>gpd_params_ok\<close> gives them.\<close>

definition tail_params :: "int \<times> int \<times> int \<times> int \<Rightarrow> bool" where
  "tail_params p \<longleftrightarrow> (case p of (n, beta, u, zeta) \<Rightarrow>
     2 \<le> n \<and> n \<le> 12 \<and> 1 \<le> beta \<and> beta \<le> 55000 \<and> 1 \<le> u \<and> u \<le> BPS \<and>
     0 \<le> zeta \<and> zeta \<le> BPS)"

abbreviation tail_fn :: "int \<times> int \<times> int \<times> int \<Rightarrow> int \<Rightarrow> int option" where
  "tail_fn p d \<equiv> (case p of (n, beta, u, zeta) \<Rightarrow> tail_at d n beta u zeta)"

text \<open>The closed form of the survival function, in units of \<open>1 / TAIL_FINE\<close>.\<close>

definition tail_spec :: "int \<Rightarrow> int \<Rightarrow> int \<Rightarrow> int \<Rightarrow> int \<Rightarrow> int" where
  "tail_spec d n beta u zeta =
     (if d \<le> 0 then TAIL_FINE
      else if d \<le> u then TAIL_FINE - (TAIL_FINE - zeta * 10000) * d div u
      else tail_iter (nat n) (n * beta) (n * beta + (d - u)) (zeta * 10000))"

lemma tail_params_nb:
  assumes "tail_params (n, beta, u, zeta)"
  shows "1 \<le> n * beta" "n * beta \<le> 660000"
  using mult_bounds[of n 12 beta 55000] mult_mono[of 1 n 1 beta] assms
  by (simp_all add: tail_params_def)

lemma tail_at_fine_spec:
  assumes "tail_params (n, beta, u, zeta)" "d \<le> 1048576"
  shows "tail_at_fine d n beta u zeta = Some (tail_spec d n beta u zeta)"
proof -
  note nb = tail_params_nb[OF assms(1)]
  have p: "1 \<le> u" "u \<le> BPS" "0 \<le> zeta" "zeta \<le> BPS" using assms by (simp_all add: tail_params_def)
  have z: "sat_i64 (zeta * (TAIL_FINE sdiv BPS)) = zeta * 10000"
    using p by (simp add: sat_i64_id is_i64_def sdiv_nonneg)
  have nbs: "sat_i64 (n * beta) = n * beta" using nb by (simp add: sat_i64_id is_i64_def)
  consider "d \<le> 0" | "0 < d" "d \<le> u" | "u < d" using p by linarith
  then show ?thesis
  proof cases
    case 2
    have m: "0 \<le> (TAIL_FINE - zeta * 10000) * d" "(TAIL_FINE - zeta * 10000) * d \<le> TAIL_FINE * BPS"
      using mult_bounds[of "TAIL_FINE - zeta * 10000" TAIL_FINE d BPS] p 2 by simp_all
    then have q: "0 \<le> (TAIL_FINE - zeta * 10000) * d div u"
      "(TAIL_FINE - zeta * 10000) * d div u \<le> TAIL_FINE * BPS"
      using p div_le_self[of "(TAIL_FINE - zeta * 10000) * d" u] by (auto intro: div_nonneg)
    have rng: "is_i64 ((TAIL_FINE - zeta * 10000) * d)" "is_i64 (TAIL_FINE - zeta * 10000)"
      "is_i64 ((TAIL_FINE - zeta * 10000) * d div u)"
      "is_i64 (TAIL_FINE - (TAIL_FINE - zeta * 10000) * d div u)"
      using m q p unfolding is_i64_def by linarith+
    have "(TAIL_FINE - zeta * 10000) * d sdiv u = (TAIL_FINE - zeta * 10000) * d div u"
      using m(1) p by (simp add: sdiv_nonneg)
    with 2 p z rng show ?thesis
      by (simp add: tail_at_fine_def tail_spec_def Let_def div_i64_def)
  next
    case 3
    have den: "sat_i64 (n * beta + (d - u)) = n * beta + (d - u)"
      using nb p assms(2) 3 by (simp add: sat_i64_id is_i64_def)
    have "tail_pow (nat n) (n * beta) (n * beta + (d - u)) (zeta * 10000) =
        tail_iter (nat n) (n * beta) (n * beta + (d - u)) (zeta * 10000)"
      using nb p 3 by (intro tail_pow_iter) auto
    moreover have "0 \<le> tail_iter (nat n) (n * beta) (n * beta + (d - u)) (zeta * 10000) \<and>
        tail_iter (nat n) (n * beta) (n * beta + (d - u)) (zeta * 10000) \<le> zeta * 10000"
      using nb p 3 by (intro tail_iter_bounds) auto
    ultimately show ?thesis
      using 3 p nb den nbs z assms(2)
      by (simp add: tail_at_fine_def tail_spec_def Let_def clamp_def ranges)
  qed (simp add: tail_at_fine_def tail_spec_def)
qed

lemma tail_spec_bounds:
  assumes "tail_params (n, beta, u, zeta)"
  shows "0 \<le> tail_spec d n beta u zeta" "tail_spec d n beta u zeta \<le> TAIL_FINE"
proof -
  note nb = tail_params_nb[OF assms(1)]
  have p: "1 \<le> u" "u \<le> BPS" "0 \<le> zeta" "zeta \<le> BPS" using assms by (simp_all add: tail_params_def)
  have mid: "0 \<le> (TAIL_FINE - zeta * 10000) * d div u"
    "(TAIL_FINE - zeta * 10000) * d div u \<le> TAIL_FINE - zeta * 10000" if "0 < d" "d \<le> u"
    using p that by (auto intro: div_nonneg muldiv_le_left)
  have far: "0 \<le> tail_iter (nat n) (n * beta) (n * beta + (d - u)) (zeta * 10000) \<and>
      tail_iter (nat n) (n * beta) (n * beta + (d - u)) (zeta * 10000) \<le> zeta * 10000" if "u < d"
    using nb p that by (intro tail_iter_bounds) auto
  show "0 \<le> tail_spec d n beta u zeta" "tail_spec d n beta u zeta \<le> TAIL_FINE"
    using mid far p by (auto simp: tail_spec_def)
qed

lemma tail_spec_antitone:
  assumes "tail_params (n, beta, u, zeta)" "d \<le> d'"
  shows "tail_spec d' n beta u zeta \<le> tail_spec d n beta u zeta"
proof -
  note nb = tail_params_nb[OF assms(1)]
  have p: "1 \<le> u" "u \<le> BPS" "0 \<le> zeta" "zeta \<le> BPS" using assms by (simp_all add: tail_params_def)
  let ?z = "zeta * 10000"
  have near: "?z \<le> TAIL_FINE - (TAIL_FINE - ?z) * x div u" if "x \<le> u" "0 < x" for x
    using muldiv_le_left[of "TAIL_FINE - ?z" x u] p that by simp
  have far: "tail_iter (nat n) (n * beta) (n * beta + (x - u)) ?z \<le> ?z" if "u < x" for x
    using tail_iter_bounds[of "n * beta" "n * beta + (x - u)" ?z "nat n"] nb p that by simp
  consider "d \<le> 0" | "0 < d" "d' \<le> u" | "0 < d" "d \<le> u" "u < d'" | "u < d"
    using assms(2) by linarith
  then show ?thesis
  proof cases
    case 1
    with tail_spec_bounds(2)[OF assms(1), of d'] show ?thesis by (simp add: tail_spec_def)
  next
    case 2
    have "(TAIL_FINE - ?z) * d div u \<le> (TAIL_FINE - ?z) * d' div u"
      using p assms(2) by (intro zdiv_mono1 mult_left_mono) auto
    with 2 assms(2) show ?thesis by (simp add: tail_spec_def)
  next
    case 3
    with p near[of d] far[of d'] show ?thesis by (simp add: tail_spec_def)
  next
    case 4
    have "tail_iter (nat n) (n * beta) (n * beta + (d' - u)) ?z
        \<le> tail_iter (nat n) (n * beta) (n * beta + (d - u)) ?z"
      using nb p 4 assms(2) by (intro tail_iter_mono) auto
    with 4 p assms(2) show ?thesis by (simp add: tail_spec_def)
  qed
qed

lemma tail_at_spec:
  assumes "tail_params (n, beta, u, zeta)" "d \<le> 1048576"
  shows "tail_at d n beta u zeta = Some (tail_spec d n beta u zeta div 10000)"
proof -
  note b = tail_spec_bounds[OF assms(1), of d]
  have "clamp 0 BPS (tail_spec d n beta u zeta div 10000) = tail_spec d n beta u zeta div 10000"
    using b by (intro clamp_id div_nonneg div_le_bound) auto
  then show ?thesis
    using b by (cases "d \<le> 0")
      (simp_all add: tail_at_def tail_at_fine_spec[OF assms] sdiv_nonneg tail_spec_def)
qed

subsection \<open>Bisection over a survival function\<close>

text \<open>
  The bisection relies on two laws of the function it inverts: it returns on the search
  interval, and it never increases with the distance. Under them \<open>k\<close> halvings of an
  interval no longer than \<open>2 ^ k\<close> find the least distance whose tail is at most \<open>p\<close>, or
  the end of the interval.
\<close>

definition inverts :: "(int \<Rightarrow> int option) \<Rightarrow> int \<Rightarrow> int \<Rightarrow> int \<Rightarrow> bool" where
  "inverts tail pr cap q \<longleftrightarrow>
     0 < q \<and> q \<le> cap \<and> (q = cap \<or> (\<exists>t. tail q = Some t \<and> t \<le> pr)) \<and>
     (\<forall>d t. 0 < d \<longrightarrow> d < q \<longrightarrow> tail d = Some t \<longrightarrow> pr < t)"

locale survival =
  fixes tail :: "'p \<Rightarrow> int \<Rightarrow> int option"
    and valid :: "'p \<Rightarrow> bool"
  assumes tail_returns: "valid p \<Longrightarrow> d \<le> 1048576 \<Longrightarrow> \<exists>t. tail p d = Some t"
    and tail_antitone: "valid p \<Longrightarrow> d \<le> d' \<Longrightarrow> d' \<le> 1048576 \<Longrightarrow>
      tail p d = Some t \<Longrightarrow> tail p d' = Some t' \<Longrightarrow> t' \<le> t"
begin

lemma bisect_inverts:
  assumes "valid p" "0 \<le> lo" "lo < hi" "hi \<le> cap" "cap \<le> 1048576" "hi - lo \<le> 2 ^ k"
    and "hi = cap \<or> (\<exists>t. tail p hi = Some t \<and> t \<le> pr)"
    and "lo = 0 \<or> (\<exists>t. tail p lo = Some t \<and> pr < t)"
  shows "ok (bisect k (tail p) pr lo hi) (inverts (tail p) pr cap)"
  using assms(2-4,6-)
proof (induction k arbitrary: lo hi)
  have below: "pr < t" if "0 < d" "d \<le> lo" "lo < hi" "hi \<le> cap" "tail p d = Some t"
    "lo = 0 \<or> (\<exists>t. tail p lo = Some t \<and> pr < t)" for lo hi d t
    using that tail_antitone[OF assms(1), of d lo t] assms(5) by force
  {
    case 0
    then have "hi = lo + 1" by simp
    with 0 below[of _ lo hi] show ?case by (auto simp: inverts_def)
  next
    case (Suc k)
    define mid where "mid = lo + (hi - lo) div 2"
    have mid: "lo \<le> mid" "mid < hi" using Suc.prems by (auto simp: mid_def)
    have rng: "is_i64 (hi - lo)" "is_i64 (lo + (hi - lo) div 2)"
      "(hi - lo) sdiv 2 = (hi - lo) div 2"
      using Suc.prems mid assms(5) by (auto simp: mid_def ranges sdiv_nonneg)
    show ?case
    proof (cases "mid = lo")
      case True
      then have "hi = lo + 1" using Suc.prems(2) unfolding mid_def by presburger
      with Suc.prems below[of _ lo hi] rng True show ?thesis
        by (auto simp: wp mid_def inverts_def)
    next
      case False
      then have "lo < mid" using mid by simp
      obtain t where t: "tail p mid = Some t"
        using tail_returns[OF assms(1), of mid] mid Suc.prems assms(5) by force
      have half: "hi - mid \<le> 2 ^ k" "mid - lo \<le> 2 ^ k"
        using Suc.prems(4) unfolding mid_def power_Suc by presburger+
      have "ok (bisect k (tail p) pr mid hi) (inverts (tail p) pr cap)" if "pr < t"
        by (rule Suc.IH) (use Suc.prems mid half t that in auto)
      moreover have "ok (bisect k (tail p) pr lo mid) (inverts (tail p) pr cap)" if "\<not> pr < t"
        by (rule Suc.IH) (use Suc.prems mid \<open>lo < mid\<close> half t that in auto)
      ultimately show ?thesis
        using False t rng by (simp add: wp mid_def[symmetric])
    qed
  }
qed

end

interpretation gpd: survival tail_fn tail_params
proof
  fix p and d :: int assume "tail_params p" "d \<le> 1048576"
  then show "\<exists>t. tail_fn p d = Some t"
    by (cases p) (simp add: tail_at_spec)
next
  fix p and d d' t t' :: int
  assume "tail_params p" "d \<le> d'" "d' \<le> 1048576" "tail_fn p d = Some t" "tail_fn p d' = Some t'"
  then show "t' \<le> t"
    by (cases p) (auto simp: tail_at_spec tail_spec_antitone intro!: zdiv_mono1)
qed

subsection \<open>Quantile and shortfall\<close>

text \<open>The parameters of the fit, read once: what every estimator below starts from.\<close>

lemma fit_params:
  assumes "fit_wf a"
  obtains n beta u zeta s where
    "gpd_params a = Some (n, beta)" "pot_threshold a = Some u"
    "exceedance_rate_bps a = Some zeta" "eff_sigma a = Some s"
    "tail_params (n, beta, u, zeta)" "observed_vol_bps a \<le> s" "0 \<le> s" "s \<le> BPS"
proof -
  obtain n beta where g: "gpd_params a = Some (n, beta)" "2 \<le> n" "n \<le> 12" "1 \<le> beta" "beta \<le> 55000"
    using okD[OF gpd_params_ok[OF assms]] by auto
  obtain u where u: "pot_threshold a = Some u" "1 \<le> u" "u \<le> BPS"
    using okD[OF pot_threshold_ok[OF assms]] by auto
  obtain z where z: "exceedance_rate_bps a = Some z" "0 \<le> z" "z \<le> BPS"
    using okD[OF exceedance_rate_ok[OF assms]] by auto
  obtain s where s: "eff_sigma a = Some s" "observed_vol_bps a \<le> s" "s \<le> BPS"
    using okD[OF eff_sigma_ok[OF assms]] by auto
  have "0 \<le> s" using s fit_wfD(3)[OF assms] by simp
  with that g u z s show ?thesis by (simp add: tail_params_def)
qed

definition search_top :: "int \<Rightarrow> int" where
  "search_top s = max 100 (s * 50)"

lemma quantile_inverts:
  assumes "fit_wf a" "gpd_params a = Some (n, beta)" "pot_threshold a = Some u"
    "exceedance_rate_bps a = Some zeta" "eff_sigma a = Some s"
  shows "ok (quantile_bps a p) (inverts (tail_fn (n, beta, u, zeta)) p (search_top s))"
proof -
  obtain n' beta' u' zeta' s' where f: "gpd_params a = Some (n', beta')" "pot_threshold a = Some u'"
    "exceedance_rate_bps a = Some zeta'" "eff_sigma a = Some s'"
    "tail_params (n', beta', u', zeta')" "0 \<le> s'" "s' \<le> BPS"
    using fit_params[OF assms(1)] by metis
  have b: "0 \<le> s" "s \<le> BPS" "tail_params (n, beta, u, zeta)" using f assms by auto
  have "ok (bisect 20 (tail_fn (n, beta, u, zeta)) p 0 (search_top s))
      (inverts (tail_fn (n, beta, u, zeta)) p (search_top s))"
    by (rule gpd.bisect_inverts) (use b in \<open>auto simp: search_top_def\<close>)
  with assms b show ?thesis
    by (simp add: quantile_bps_def wp ranges search_top_def)
qed

lemma quantile_ok:
  assumes "fit_wf a"
  shows "ok (quantile_bps a p) (\<lambda>q. 1 \<le> q \<and> q \<le> 500000)"
proof -
  obtain n beta u zeta s where f: "gpd_params a = Some (n, beta)" "pot_threshold a = Some u"
    "exceedance_rate_bps a = Some zeta" "eff_sigma a = Some s" "s \<le> BPS"
    using fit_params[OF assms] by metis
  show ?thesis
    by (rule ok_mono[OF quantile_inverts[OF assms f(1-4)]])
       (use f in \<open>auto simp: inverts_def search_top_def\<close>)
qed

lemma mean_excess_ok:
  assumes "fit_wf a" "-1048576 \<le> d" "d \<le> 1048576"
  shows "ok (mean_excess_bps a d) (\<lambda>m. 1 \<le> m \<and> m \<le> 1708576)"
proof -
  obtain n beta u zeta s where f: "gpd_params a = Some (n, beta)" "pot_threshold a = Some u"
    "tail_params (n, beta, u, zeta)" using fit_params[OF assms(1)] by metis
  have p: "2 \<le> n" "n \<le> 12" "1 \<le> u" "u \<le> BPS" using f by (simp_all add: tail_params_def)
  note nb = tail_params_nb[OF f(3)]
  let ?x = "n * beta + max 0 (d - u)"
  have x: "0 \<le> ?x" "?x \<le> 1708576" using nb p assms by auto
  have "?x div max 1 (n - 1) \<le> ?x" using x p by (intro div_le_self) auto
  with x have "max 1 (?x sdiv max 1 (n - 1)) \<le> 1708576" by (simp add: sdiv_nonneg)
  moreover have "sat_i64 (n * beta) = n * beta" "sat_i64 ?x = ?x" "is_i64 (d - u)" "is_i64 (n - 1)"
    using nb x p assms by (auto simp: sat_i64_id is_i64_def)
  ultimately show ?thesis
    using f by (simp add: mean_excess_bps_def wp)
qed

lemma bounded_mean_excess_ok:
  assumes "fit_wf a" "-1048576 \<le> d" "d \<le> 1048576"
  shows "ok (bounded_mean_excess_bps a d) (\<lambda>m. 1 \<le> m \<and> m \<le> 1708576 \<and>
     (net_exposure a < 0 \<longrightarrow> m \<le> max 1 (BPS - d)))"
  unfolding bounded_mean_excess_bps_def ok_bind
  by (rule ok_mono[OF mean_excess_ok[OF assms]])
     (use assms in \<open>auto simp: wp ranges\<close>)

lemma expected_shortfall_ok:
  assumes "fit_wf a"
  shows "ok (expected_shortfall_bps a p) (\<lambda>e. 2 \<le> e \<and> e \<le> 2208576)"
proof -
  obtain q where q: "quantile_bps a p = Some q" "1 \<le> q" "q \<le> 500000"
    using okD[OF quantile_ok[OF assms]] by blast
  obtain m where m: "mean_excess_bps a q = Some m" "1 \<le> m" "m \<le> 1708576"
    using okD[OF mean_excess_ok[OF assms, of q]] q by auto
  show ?thesis
    using q m by (simp add: expected_shortfall_bps_def sat_i64_id is_i64_def)
qed

lemma tail_prob_fine_ok:
  assumes "fit_wf a" "d \<le> 1048576"
  shows "ok (tail_prob_fine a d) (\<lambda>t. 0 \<le> t \<and> t \<le> TAIL_FINE)"
proof -
  obtain n beta u zeta s where f: "gpd_params a = Some (n, beta)" "pot_threshold a = Some u"
    "exceedance_rate_bps a = Some zeta" "tail_params (n, beta, u, zeta)"
    using fit_params[OF assms(1)] by metis
  show ?thesis
    using f tail_spec_bounds[OF f(4), of d]
    by (simp add: tail_prob_fine_def tail_at_fine_spec[OF f(4) assms(2)])
qed

lemma gap_quantile_ok:
  assumes "fit_wf a" "0 \<le> gap_vol_bps a" "gap_vol_bps a \<le> BPS" "0 \<le> gap_max_bps a" "gap_max_bps a \<le> BPS"
  shows "ok (gap_quantile_bps a p) (\<lambda>g. 0 \<le> g \<and> g \<le> BPS)"
proof -
  obtain s where s: "eff_sigma a = Some s" "0 \<le> s" "s \<le> BPS"
    using fit_params[OF assms(1)] by metis
  obtain q where q: "quantile_bps a p = Some q" "1 \<le> q" "q \<le> 500000"
    using okD[OF quantile_ok[OF assms(1)]] by blast
  have m: "0 \<le> gap_vol_bps a * q" "gap_vol_bps a * q \<le> BPS * 500000"
    using mult_bounds[of "gap_vol_bps a" BPS q 500000] q assms by simp_all
  have "gap_vol_bps a * q div max s 1 \<le> gap_vol_bps a * q"
    using m by (intro div_le_self) auto
  with m have "0 \<le> gap_vol_bps a * q div max s 1" "gap_vol_bps a * q div max s 1 \<le> BPS * 500000"
    by (simp_all add: div_nonneg)
  moreover have "gap_max_bps a sdiv 2 \<le> BPS" "0 \<le> gap_max_bps a sdiv 2"
    using assms by (simp_all add: sdiv_nonneg)
  moreover from calculation m have "is_i128 (gap_vol_bps a * q)"
      "is_i128 (gap_vol_bps a * q div max s 1)" "gap_vol_bps a * q sdiv max s 1 = gap_vol_bps a * q div max s 1"
    by (simp_all add: is_i128_def sdiv_nonneg)
  ultimately show ?thesis
    using s q by (auto simp: gap_quantile_bps_def wp clamp_def)
qed

end
