(* ===== verification/Price_Engine.thy ===== *)
theory Price_Engine
  imports Actuary
begin

section \<open>The price engine: how observations move the actuary (etc.rs)\<close>

text \<open>
  \<open>Actuary::update_price\<close> of \<^verbatim>\<open>svm/programs/quid/src/etc.rs\<close> and the methods it calls, plus
  the trade-side updates \<open>record_outcome\<close> and \<open>record_activity\<close>. The body of \<open>update_price\<close>
  is split where the source splits it: the first observation, the re-marking of the book, a
  print after a gap, and a print inside a session, the latter into the jump check, the window
  sample and the learning step. \<open>actuary_wf\<close> is the invariant of the whole struct; the
  engine never aborts under it and keeps it.
\<close>

subsection \<open>Operations\<close>

definition twap_alpha_bps :: "int \<Rightarrow> int option" where
  "twap_alpha_bps dt = do {
     let steps = max dt 0 sdiv TWAP_STEP_SLOTS;
     r \<leftarrow> pow_bps TWAP_RETAIN_BPS steps;
     d \<leftarrow> i64 (BPS - r);
     Some (clamp 1 BPS d)
   }"

text \<open>The decay loop shared by \<open>fade_drawdown\<close> and \<open>observe_gap\<close>.\<close>

primrec fade_loop :: "nat \<Rightarrow> int \<Rightarrow> int \<Rightarrow> int option" where
  "fade_loop 0 floor dd = Some dd"
| "fade_loop (Suc k) floor dd = do {
     d \<leftarrow> i64 (dd - max 10 (dd sdiv 20));
     let dd' = max floor d;
     if dd' \<le> floor then Some dd' else fade_loop k floor dd'
   }"

definition fade_drawdown :: "actuary \<Rightarrow> int \<Rightarrow> actuary option" where
  "fade_drawdown a dt = do {
     v \<leftarrow> vol_floor a;
     x \<leftarrow> i64 (v * 2);
     y \<leftarrow> i64 (observed_vol_bps a * 2);
     let floor = max x y;
     if dt \<le> 2000 \<or> max_drawdown_bps a \<le> floor then Some a
     else do {
       let steps = min 128 (dt sdiv 2000);
       dd \<leftarrow> fade_loop (nat steps) floor (max_drawdown_bps a);
       Some (a\<lparr>max_drawdown_bps := dd\<rparr>)
     }
   }"

text \<open>The moving average the source writes out at each use, with a weight in percent.\<close>

definition ewma :: "int \<Rightarrow> int \<Rightarrow> int \<Rightarrow> int option" where
  "ewma old alpha x = do {
     p \<leftarrow> i64 (old * (100 - alpha));
     q \<leftarrow> i64 (x * alpha);
     s \<leftarrow> i64 (p + q);
     Some (s sdiv 100)
   }"

definition observe_gap :: "actuary \<Rightarrow> int \<Rightarrow> int \<Rightarrow> actuary option" where
  "observe_gap a change dt = do {
     c \<leftarrow> i64 (gap_count a + 1);
     let a = a\<lparr>gap_count := min 500 c\<rparr>;
     let alpha = (if gap_count a < 10 then 40 else 12);
     v \<leftarrow> (if gap_vol_bps a = 0 then Some change else ewma (gap_vol_bps a) alpha change);
     let a = a\<lparr>gap_vol_bps := v\<rparr>;
     if change > gap_max_bps a then Some (a\<lparr>gap_max_bps := min BPS change\<rparr>)
     else do {
       floor \<leftarrow> i64 (gap_vol_bps a * 2);
       if gap_max_bps a > floor then do {
         let steps = min 128 (dt sdiv GAP_MIN_SLOTS);
         g \<leftarrow> fade_loop (nat steps) floor (gap_max_bps a);
         Some (a\<lparr>gap_max_bps := g\<rparr>)
       }
       else Some a
     }
   }"

definition qualifies_gap :: "int \<Rightarrow> int \<Rightarrow> bool" where
  "qualifies_gap change floor \<longleftrightarrow> change \<ge> max 1 (floor sdiv 4)"

text \<open>The first observation: record the price and start from the priors.\<close>

definition update_first :: "actuary \<Rightarrow> int \<Rightarrow> int \<Rightarrow> actuary option" where
  "update_first a price slot = do {
     let a = a\<lparr>last_price := price, last_price_slot := slot, twap_price := price,
               last_trade_slot := slot\<rparr>;
     floor \<leftarrow> vol_floor a;
     dd \<leftarrow> i64 (floor * 2);
     c \<leftarrow> i64 (obs_count a + 1);
     let a = a\<lparr>observed_vol_bps := floor, max_drawdown_bps := dd, obs_count := min 500 c\<rparr>;
     es \<leftarrow> expected_shortfall_bps a COLLAR_BREACH_BPS;
     Some (a\<lparr>shortfall_bps := es\<rparr>)
   }"

definition remark :: "int \<Rightarrow> int \<Rightarrow> int \<Rightarrow> int option" where
  "remark price old v = do {
     m \<leftarrow> i128 (v * price);
     q \<leftarrow> div_i128 m old;
     Some (clamp I64_MIN I64_MAX q)
   }"

definition remark_book :: "actuary \<Rightarrow> int \<Rightarrow> int \<Rightarrow> actuary option" where
  "remark_book a price old =
     (if old > 0 \<and> price > 0 \<and> price \<noteq> old then do {
        n \<leftarrow> remark price old (net_exposure a);
        t \<leftarrow> remark price old (total_exposure a);
        Some (a\<lparr>net_exposure := n, total_exposure := max t 0\<rparr>)
      }
      else Some a)"

text \<open>\<open>|price - old|\<close> in basis points of the larger of the two.\<close>

definition raw_change_bps :: "int \<Rightarrow> int \<Rightarrow> int option" where
  "raw_change_bps price old = do {
     d \<leftarrow> i64 (price - old);
     b \<leftarrow> i64 \<bar>d\<bar>;
     m \<leftarrow> i128 (b * BPS);
     q \<leftarrow> div_i128 m (max 1 (max old price));
     Some (as_i64 q)
   }"

text \<open>What both kinds of print do to the jump counter and the velocity.\<close>

definition decay_activity :: "actuary \<Rightarrow> int \<Rightarrow> actuary option" where
  "decay_activity a dt = do {
     j \<leftarrow> i64 (jump_count a - dt sdiv 1000);
     w \<leftarrow> i64 (dt sdiv 500 * 10);
     v \<leftarrow> i64 (velocity a - w);
     Some (a\<lparr>jump_count := max 0 j, velocity := max 0 v\<rparr>)
   }"

text \<open>A print at least \<open>GAP_MIN_SLOTS\<close> after the last one.\<close>

definition update_gap :: "actuary \<Rightarrow> int \<Rightarrow> int \<Rightarrow> int \<Rightarrow> int \<Rightarrow> int \<Rightarrow> actuary option" where
  "update_gap a price slot dt raw_change floor = do {
     a \<leftarrow> observe_gap a raw_change dt;
     let a = (if raw_change > max_drawdown_bps a then a\<lparr>max_drawdown_bps := min 5000 raw_change\<rparr> else a);
     a \<leftarrow> fade_drawdown a dt;
     let a = a\<lparr>last_price := price, last_price_slot := slot,
               window_ref_price := price, window_since := slot\<rparr>;
     a \<leftarrow> decay_activity a dt;
     al \<leftarrow> twap_alpha_bps dt;
     x \<leftarrow> i128 (twap_price a * (BPS - al));
     y \<leftarrow> i128 (price * al);
     s \<leftarrow> i128 (x + y);
     let a = a\<lparr>twap_price := as_i64 (s sdiv BPS)\<rparr>;
     if qualifies_gap raw_change floor then do {
       c \<leftarrow> i64 (obs_count a + 1);
       Some (a\<lparr>obs_count := min 500 c\<rparr>)
     }
     else Some a
   }"

definition observe_jump :: "actuary \<Rightarrow> int \<Rightarrow> actuary option" where
  "observe_jump a raw_change =
     (if observed_vol_bps a > 0 then do {
        x \<leftarrow> i64 (observed_vol_bps a * 3);
        a \<leftarrow> (if raw_change > x then do {
               j \<leftarrow> i64 (jump_count a + 1);
               Some (a\<lparr>jump_count := min 20 j\<rparr>)
             }
             else Some a);
        Some (if raw_change > max_drawdown_bps a
              then a\<lparr>max_drawdown_bps := min 5000 raw_change\<rparr> else a)
      }
      else Some a)"

text \<open>
  The sample a ladder window yields: the state with the window restarted, whether a window
  was completed, the change over it scaled to one window, and whether it was a fall.
\<close>

definition sample_window ::
  "actuary \<Rightarrow> int \<Rightarrow> int \<Rightarrow> (actuary \<times> bool \<times> int \<times> bool) option" where
  "sample_window a price slot = do {
     let elapsed = sat_i64 (slot - window_since a);
     if elapsed \<ge> LADDER_WINDOW_SLOTS then do {
       let refp = window_ref_price a;
       c \<leftarrow> raw_change_bps price refp;
       c \<leftarrow> (if elapsed > LADDER_WINDOW_SLOTS then do {
              r \<leftarrow> sqrt_x100 (LADDER_WINDOW_SLOTS * 10000 sdiv elapsed);
              m \<leftarrow> i128 (c * r);
              Some (as_i64 (m sdiv 10000))
            }
            else Some c);
       let a = a\<lparr>window_ref_price := price, window_since := slot\<rparr>;
       Some (a, True, clamp 0 BPS c, price < refp)
     }
     else Some (a, False, 0, False)
   }"

text \<open>What a qualifying sample teaches: volatility, the downside, and the tail.\<close>

definition record_exceedance :: "actuary \<Rightarrow> int \<Rightarrow> actuary option" where
  "record_exceedance a change = do {
     u \<leftarrow> pot_threshold a;
     if change > u then do {
       excess \<leftarrow> i64 (change - u);
       sq \<leftarrow> i128 (excess * excess);
       Some (a\<lparr>exceed_count := sat_i64 (exceed_count a + 1),
               exceed_sum := sat_i64 (exceed_sum a + excess),
               exceed_sumsq := sat_i128 (exceed_sumsq a + sq)\<rparr>)
     }
     else Some a
   }"

definition learn_change :: "actuary \<Rightarrow> int \<Rightarrow> bool \<Rightarrow> actuary option" where
  "learn_change a change down = do {
     let alpha = (if down then min 100 (5 * 3 sdiv 2) else 5);
     raw_vol \<leftarrow> ewma (observed_vol_bps a) alpha change;
     let a = a\<lparr>observed_vol_bps := max (min 3000 raw_vol) 1\<rparr>;
     a \<leftarrow> (if down then do {
            v \<leftarrow> ewma (downside_vol_bps a) alpha change;
            Some (a\<lparr>downside_vol_bps := v\<rparr>)
          }
          else Some a);
     record_exceedance a change
   }"

definition observe_window :: "actuary \<Rightarrow> int \<Rightarrow> int \<Rightarrow> bool \<Rightarrow> int \<Rightarrow> bool \<Rightarrow> actuary option" where
  "observe_window a dt floor sampled change down = do {
     let qualifies = (sampled \<and> change \<ge> NOISE_FLOOR_BPS);
     a \<leftarrow> (if qualifies then do {
            c \<leftarrow> i64 (obs_count a + 1);
            Some (a\<lparr>obs_count := min 500 c\<rparr>)
          }
          else Some a);
     if observed_vol_bps a = 0 then
       (if qualifies then do {
          f2 \<leftarrow> i64 (floor * 2);
          Some (a\<lparr>observed_vol_bps := max floor change, max_drawdown_bps := max f2 change\<rparr>)
        }
        else Some a)
     else do {
       a \<leftarrow> (if qualifies then learn_change a change down else Some a);
       fade_drawdown a dt
     }
   }"

text \<open>A print inside a session.\<close>

definition update_session :: "actuary \<Rightarrow> int \<Rightarrow> int \<Rightarrow> int \<Rightarrow> int \<Rightarrow> int \<Rightarrow> int \<Rightarrow> actuary option" where
  "update_session a price slot old dt raw_change floor = do {
     let a = (if window_ref_price a = 0
              then a\<lparr>window_ref_price := old, window_since := last_price_slot a\<rparr> else a);
     a \<leftarrow> observe_jump a raw_change;
     (a, sampled, change, down) \<leftarrow> sample_window a price slot;
     a \<leftarrow> observe_window a dt floor sampled change down;
     es \<leftarrow> expected_shortfall_bps a COLLAR_BREACH_BPS;
     let a = a\<lparr>shortfall_bps := es\<rparr>;
     a \<leftarrow> decay_activity a dt;
     al \<leftarrow> twap_alpha_bps dt;
     x \<leftarrow> i128 (twap_price a * (BPS - al));
     y \<leftarrow> i128 (price * al);
     s \<leftarrow> i128 (x sdiv BPS + y sdiv BPS);
     Some (a\<lparr>twap_price := as_i64 (min s I64_MAX), last_price := price, last_price_slot := slot\<rparr>)
   }"

definition update_price :: "actuary \<Rightarrow> int \<Rightarrow> int \<Rightarrow> actuary option" where
  "update_price a price slot =
     (if last_price a = 0 then update_first a price slot
      else do {
        let old = last_price a;
        d \<leftarrow> i64 (slot - last_price_slot a);
        let dt = max 1 d;
        a \<leftarrow> remark_book a price old;
        raw_change \<leftarrow> raw_change_bps price old;
        floor \<leftarrow> vol_floor a;
        if dt \<ge> GAP_MIN_SLOTS then update_gap a price slot dt raw_change floor
        else update_session a price slot old dt raw_change floor
      })"

definition record_outcome :: "actuary \<Rightarrow> int \<Rightarrow> int \<Rightarrow> bool \<Rightarrow> actuary option" where
  "record_outcome a pnl notional long =
     (if notional = 0 \<or> pnl = 0 then Some a
      else do {
        m \<leftarrow> i128 (pnl * BPS);
        q \<leftarrow> div_i128 m notional;
        let bps = clamp (- BPS) BPS q;
        let signed = (if long then bps else - bps);
        x \<leftarrow> i64 (experience_bps a * (100 - 8));
        y \<leftarrow> i64 (signed * 8);
        s \<leftarrow> i64 (x + y);
        Some (a\<lparr>experience_bps := s sdiv 100\<rparr>)
      })"

definition trade_velocity :: "actuary \<Rightarrow> int \<Rightarrow> int \<Rightarrow> int \<Rightarrow> actuary option" where
  "trade_velocity a dt sz pool = do {
     a \<leftarrow> (if dt > 0 then do {
            k \<leftarrow> i64 (dt * 20);
            w \<leftarrow> i64 (100 - k);
            v \<leftarrow> i64 (velocity a * max 10 w);
            Some (a\<lparr>velocity := v sdiv 100\<rparr>)
          }
          else Some a);
     let min_size_for_vel = max 1 (pool sdiv 1000);
     local \<leftarrow> (if sz < min_size_for_vel then Some 0
              else if pool > 0 then do { m \<leftarrow> i64 (sz * 50); q \<leftarrow> div_i64 m pool; Some (min 50 q) }
              else Some 5);
     if local > 0 then do { v \<leftarrow> i64 (velocity a + local); Some (a\<lparr>velocity := min 255 v\<rparr>) }
     else Some a
   }"

definition trade_momentum :: "actuary \<Rightarrow> int \<Rightarrow> actuary option" where
  "trade_momentum a abs_risk = do {
     let oi = total_exposure a;
     last_oi \<leftarrow> (if last_trade_slot a = 0 then Some oi else i64 (oi - abs_risk));
     if last_oi > 0 then do {
       w \<leftarrow> i64 (oi - last_oi);
       m \<leftarrow> i64 (w * BPS);
       delta \<leftarrow> div_i64 m last_oi;
       let new_momentum = max (- BPS) (min BPS delta);
       x \<leftarrow> i64 (momentum_bps a * 70);
       y \<leftarrow> i64 (new_momentum * 30);
       s \<leftarrow> i64 (x sdiv 100 + y sdiv 100);
       Some (a\<lparr>momentum_bps := s\<rparr>)
     }
     else Some a
   }"

definition open_interest :: "actuary \<Rightarrow> bool \<Rightarrow> int \<Rightarrow> int option" where
  "open_interest a is_adding abs_risk =
     (if is_adding then i64 (total_exposure a + abs_risk)
      else do { t \<leftarrow> i64 (total_exposure a - abs_risk); Some (max 0 t) })"

definition book_trade :: "actuary \<Rightarrow> int \<Rightarrow> int \<Rightarrow> (actuary \<times> int) option" where
  "book_trade a expo value_delta = do {
     (is_adding, _) \<leftarrow> classify a expo value_delta;
     abs_risk \<leftarrow> i64 \<bar>value_delta\<bar>;
     net \<leftarrow> i64 (net_exposure a + value_delta);
     total \<leftarrow> open_interest a is_adding abs_risk;
     Some (a\<lparr>net_exposure := net, total_exposure := total\<rparr>, abs_risk)
   }"

definition record_activity :: "actuary \<Rightarrow> int \<Rightarrow> int \<Rightarrow> int \<Rightarrow> int \<Rightarrow> int \<Rightarrow> actuary option" where
  "record_activity a expo value_delta slot sz pool = do {
     (a, abs_risk) \<leftarrow> book_trade a expo value_delta;
     d \<leftarrow> i64 (slot - last_trade_slot a);
     let dt = max 0 d;
     a \<leftarrow> trade_velocity a dt sz pool;
     a \<leftarrow> trade_momentum a abs_risk;
     Some (a\<lparr>last_trade_slot := slot\<rparr>)
   }"

subsection \<open>The invariant\<close>

text \<open>
  \<open>actuary_wf now a\<close>: every field of the struct is in its working range at slot \<open>now\<close>.
  At most one exceedance is recorded per ladder window, so the number of exceedances is
  bounded by the slot at which the open window started.
\<close>

definition clock_wf :: "int \<Rightarrow> actuary \<Rightarrow> bool" where
  "clock_wf now a \<longleftrightarrow>
     0 \<le> last_price_slot a \<and> last_price_slot a \<le> now \<and> 0 \<le> window_since a \<and> window_since a \<le> now \<and>
     now \<le> 4611686018427387904 \<and> 9000 * exceed_count a \<le> window_since a \<and>
     0 \<le> last_price a \<and> last_price a \<le> I64_MAX \<and>
     0 \<le> window_ref_price a \<and> window_ref_price a \<le> I64_MAX \<and>
     0 \<le> twap_price a \<and> twap_price a \<le> I64_MAX"

definition meter_wf :: "actuary \<Rightarrow> bool" where
  "meter_wf a \<longleftrightarrow>
     0 \<le> max_drawdown_bps a \<and> max_drawdown_bps a \<le> 20000 \<and>
     0 \<le> jump_count a \<and> jump_count a \<le> 20 \<and> 0 \<le> velocity a \<and> velocity a \<le> 255 \<and>
     - BPS \<le> momentum_bps a \<and> momentum_bps a \<le> BPS \<and>
     0 \<le> downside_vol_bps a \<and> downside_vol_bps a \<le> BPS \<and>
     - BPS \<le> experience_bps a \<and> experience_bps a \<le> BPS \<and>
     0 \<le> shortfall_bps a \<and> shortfall_bps a \<le> 2208576"

definition gap_wf :: "actuary \<Rightarrow> bool" where
  "gap_wf a \<longleftrightarrow>
     0 \<le> gap_count a \<and> gap_count a \<le> 500 \<and> 0 \<le> gap_vol_bps a \<and> gap_vol_bps a \<le> BPS \<and>
     0 \<le> gap_max_bps a \<and> gap_max_bps a \<le> BPS"

definition book_wf :: "actuary \<Rightarrow> bool" where
  "book_wf a \<longleftrightarrow> is_i64 (net_exposure a) \<and> 0 \<le> total_exposure a \<and> total_exposure a \<le> I64_MAX"

definition actuary_wf :: "int \<Rightarrow> actuary \<Rightarrow> bool" where
  "actuary_wf now a \<longleftrightarrow> fit_wf a \<and> clock_wf now a \<and> meter_wf a \<and> gap_wf a \<and> book_wf a"

text \<open>Between updates the open window also started no later than the last price.\<close>

definition engine_wf :: "int \<Rightarrow> actuary \<Rightarrow> bool" where
  "engine_wf now a \<longleftrightarrow> actuary_wf now a \<and> window_since a \<le> last_price_slot a"

lemmas wf_defs = fit_wf_def clock_wf_def meter_wf_def gap_wf_def book_wf_def actuary_wf_def engine_wf_def

lemma engine_wf_later:
  assumes "engine_wf now a" "now \<le> later" "later \<le> 4611686018427387904"
  shows "engine_wf later a"
  using assms by (auto simp: wf_defs)

lemma engine_wf_default: "engine_wf 0 actuary_default"
  by (simp add: wf_defs actuary_default_def ranges)

text \<open>Updates of the other fields do not matter to the estimators.\<close>

lemma fit_wf_frame [simp]:
  "fit_wf (a\<lparr>max_drawdown_bps := x\<rparr>) = fit_wf a"
  "fit_wf (a\<lparr>gap_count := x\<rparr>) = fit_wf a"
  "fit_wf (a\<lparr>gap_vol_bps := x\<rparr>) = fit_wf a"
  "fit_wf (a\<lparr>gap_max_bps := x\<rparr>) = fit_wf a"
  "fit_wf (a\<lparr>last_price := x\<rparr>) = fit_wf a"
  "fit_wf (a\<lparr>last_price_slot := x\<rparr>) = fit_wf a"
  "fit_wf (a\<lparr>last_trade_slot := x\<rparr>) = fit_wf a"
  "fit_wf (a\<lparr>twap_price := x\<rparr>) = fit_wf a"
  "fit_wf (a\<lparr>window_ref_price := x\<rparr>) = fit_wf a"
  "fit_wf (a\<lparr>window_since := x\<rparr>) = fit_wf a"
  "fit_wf (a\<lparr>jump_count := x\<rparr>) = fit_wf a"
  "fit_wf (a\<lparr>velocity := x\<rparr>) = fit_wf a"
  "fit_wf (a\<lparr>shortfall_bps := x\<rparr>) = fit_wf a"
  "fit_wf (a\<lparr>downside_vol_bps := x\<rparr>) = fit_wf a"
  "fit_wf (a\<lparr>net_exposure := x\<rparr>) = fit_wf a"
  "fit_wf (a\<lparr>total_exposure := x\<rparr>) = fit_wf a"
  by (simp_all add: fit_wf_def)

subsection \<open>The steps of an update\<close>

lemma twap_alpha_ok: "ok (twap_alpha_bps dt) (\<lambda>x. 1 \<le> x \<and> x \<le> BPS)"
  unfolding twap_alpha_bps_def wp
  by (rule ok_mono[OF pow_bps_bound]) (auto simp: wp ranges clamp_def)

lemma fade_loop_ok:
  assumes "0 \<le> floor" "floor \<le> dd" "dd \<le> 20000"
  shows "ok (fade_loop k floor dd) (\<lambda>d. floor \<le> d \<and> d \<le> dd)"
  using assms(2,3)
proof (induction k arbitrary: dd)
  case 0
  then show ?case by simp
next
  case (Suc k)
  let ?d = "dd - max 10 (dd sdiv 20)"
  have "0 \<le> dd sdiv 20" using Suc.prems assms(1) by (simp add: sdiv_nonneg_nonneg)
  moreover have "dd sdiv 20 \<le> dd" using Suc.prems assms(1) by (simp add: sdiv_nonneg)
  ultimately have "is_i64 ?d" "max floor ?d \<le> dd"
    using Suc.prems assms(1) by (auto simp: is_i64_def)
  moreover have "ok (fade_loop k floor (max floor ?d)) (\<lambda>d. floor \<le> d \<and> d \<le> dd)"
    by (rule ok_mono[OF Suc.IH]) (use calculation Suc.prems in auto)
  ultimately show ?case by (auto simp: wp)
qed

lemma fade_drawdown_ok:
  assumes "fit_wf a" "meter_wf a"
  shows "ok (fade_drawdown a dt)
    (\<lambda>a'. \<exists>dd. a' = a\<lparr>max_drawdown_bps := dd\<rparr> \<and> 0 \<le> dd \<and> dd \<le> max_drawdown_bps a)"
proof -
  have dd: "0 \<le> max_drawdown_bps a" "max_drawdown_bps a \<le> 20000"
    using assms by (simp_all add: meter_wf_def)
  have v: "0 \<le> observed_vol_bps a" "observed_vol_bps a \<le> BPS" using fit_wfD[OF assms(1)] by simp_all
  let ?P = "\<lambda>a'. \<exists>dd. a' = a\<lparr>max_drawdown_bps := dd\<rparr> \<and> 0 \<le> dd \<and> dd \<le> max_drawdown_bps a"
  have keep: "?P a" by (rule exI[of _ "max_drawdown_bps a"]) (use dd in simp)
  have fade: "ok (fade_loop k (max (f * 2) (observed_vol_bps a * 2)) (max_drawdown_bps a))
      (\<lambda>x. ?P (a\<lparr>max_drawdown_bps := x\<rparr>))"
    if "0 \<le> f" "max (f * 2) (observed_vol_bps a * 2) < max_drawdown_bps a" for f k
    by (rule ok_mono[OF fade_loop_ok]) (use that dd v in auto)
  show ?thesis
    unfolding fade_drawdown_def wp
  proof (rule ok_mono[OF vol_floor_ok[OF assms(1)]])
    fix f assume f: "observed_vol_bps a \<le> f \<and> f \<le> BPS"
    then have "0 \<le> f" "is_i64 (f * 2)" "is_i64 (observed_vol_bps a * 2)"
      using v by (auto simp: is_i64_def)
    then show "is_i64 (f * 2) \<and> is_i64 (observed_vol_bps a * 2) \<and>
      (dt \<le> 2000 \<or> max_drawdown_bps a \<le> max (f * 2) (observed_vol_bps a * 2) \<longrightarrow> ?P a) \<and>
      (\<not> (dt \<le> 2000 \<or> max_drawdown_bps a \<le> max (f * 2) (observed_vol_bps a * 2)) \<longrightarrow>
        ok (fade_loop (nat (min 128 (dt sdiv 2000))) (max (f * 2) (observed_vol_bps a * 2))
          (max_drawdown_bps a)) (\<lambda>x. ?P (a\<lparr>max_drawdown_bps := x\<rparr>)))"
      using keep fade by (simp only: not_le de_Morgan_disj) blast
  qed
qed

lemma ewma_ok:
  assumes "- BPS \<le> x" "x \<le> BPS" "- BPS \<le> y" "y \<le> BPS" "0 \<le> al" "al \<le> (100 :: int)"
  shows "ok (ewma x al y) (\<lambda>v. - BPS \<le> v \<and> v \<le> BPS \<and> (0 \<le> x \<longrightarrow> 0 \<le> y \<longrightarrow> 0 \<le> v))"
proof -
  define p where "p = x * (100 - al)"
  define q where "q = y * al"
  have b: "- BPS * (100 - al) \<le> p" "p \<le> BPS * (100 - al)" "- BPS * al \<le> q" "q \<le> BPS * al"
    using assms unfolding p_def q_def by (intro mult_right_mono; simp)+
  have s: "- 1000000 \<le> p + q" "p + q \<le> 1000000" using b by simp_all
  have "is_i64 p" "is_i64 q" "is_i64 (p + q)"
    using b assms(5,6) s unfolding is_i64_def by (intro conjI; linarith)+
  moreover have "0 \<le> p + q" if "0 \<le> x" "0 \<le> y" using that assms by (simp add: p_def q_def)
  moreover have "\<bar>(p + q) sdiv 100\<bar> \<le> BPS"
    using s by (simp add: abs_sdiv)
  ultimately show ?thesis
    unfolding ewma_def p_def[symmetric] q_def[symmetric]
    by (simp add: wp abs_le_iff sdiv_nonneg_nonneg)
qed

lemma observe_gap_ok:
  assumes "gap_wf a" "0 \<le> change" "change \<le> BPS" "0 \<le> dt"
  shows "ok (observe_gap a change dt)
    (\<lambda>a'. \<exists>c v g. a' = a\<lparr>gap_count := c, gap_vol_bps := v, gap_max_bps := g\<rparr> \<and>
       0 \<le> c \<and> c \<le> 500 \<and> 0 \<le> v \<and> v \<le> BPS \<and> 0 \<le> g \<and> g \<le> BPS)"
proof -
  have w: "0 \<le> gap_count a" "gap_count a \<le> 500" "0 \<le> gap_vol_bps a" "gap_vol_bps a \<le> BPS"
    "0 \<le> gap_max_bps a" "gap_max_bps a \<le> BPS" using assms(1) by (simp_all add: gap_wf_def)
  let ?c = "min 500 (gap_count a + 1)"
  have c: "0 \<le> ?c" "?c \<le> 500" using w by simp_all
  have smooth: "ok (if gap_vol_bps a = 0 then Some change else ewma (gap_vol_bps a) al change)
      (\<lambda>v. 0 \<le> v \<and> v \<le> BPS)" if "0 \<le> al" "al \<le> 100" for al
    by (auto intro!: ok_mono[OF ewma_ok]) (use w assms that in auto)
  have fade: "ok (fade_loop k (v * 2) (gap_max_bps a)) (\<lambda>g. 0 \<le> g \<and> g \<le> BPS)"
    if "v * 2 < gap_max_bps a" "0 \<le> v" for k v
    by (rule ok_mono[OF fade_loop_ok]) (use that w in auto)
  define P where "P a' \<longleftrightarrow> (\<exists>v g. a' = a\<lparr>gap_count := ?c, gap_vol_bps := v, gap_max_bps := g\<rparr> \<and>
    0 \<le> v \<and> v \<le> BPS \<and> 0 \<le> g \<and> g \<le> BPS)" for a'
  have P: "P (a\<lparr>gap_count := ?c, gap_vol_bps := v, gap_max_bps := g\<rparr>)"
    if "0 \<le> v" "v \<le> BPS" "0 \<le> g" "g \<le> BPS" for v g using that unfolding P_def by blast
  have keep: "P (a\<lparr>gap_count := ?c, gap_vol_bps := v\<rparr>)" if "0 \<le> v" "v \<le> BPS" for v
    using P[OF that w(5,6)] by simp
  have "ok (observe_gap a change dt) P"
    unfolding observe_gap_def ok_bind ok_i64 ok_Let
  proof (intro conjI, goal_cases)
    case 1
    then show ?case using w by (simp add: is_i64_def)
  next
    case 2
    show ?case
    proof (rule ok_mono[where Q = "\<lambda>v. 0 \<le> v \<and> v \<le> BPS"], goal_cases)
      case 1
      show ?case using smooth[of 40] smooth[of 12] by (cases "?c < 10") (cases "gap_vol_bps a = 0", simp_all)+
    next
      case (2 v)
      have "is_i64 (v * 2)" using 2 by (simp add: is_i64_def)
      moreover have "ok (fade_loop k (v * 2) (gap_max_bps a))
          (\<lambda>g. P (a\<lparr>gap_count := ?c, gap_vol_bps := v, gap_max_bps := g\<rparr>))"
        if "v * 2 < gap_max_bps a" for k
        by (rule ok_mono[OF fade[OF that]]) (use 2 P in auto)
      ultimately show ?case using keep[of v] 2 P[of v change] assms(2,3) by (simp add: wp)
    qed
  qed
  then show ?thesis
    by (rule ok_mono) (use c in \<open>unfold P_def, blast\<close>)
qed

lemma update_first_ok:
  assumes "actuary_wf slot a" "0 < price" "price \<le> I64_MAX"
  shows "ok (update_first a price slot)
    (\<lambda>a'. engine_wf slot a' \<and> last_price a' = price \<and> last_price_slot a' = slot)"
proof -
  let ?a = "a\<lparr>last_price := price, last_price_slot := slot, twap_price := price, last_trade_slot := slot\<rparr>"
  have f: "fit_wf a" using assms(1) by (simp add: actuary_wf_def)
  have c: "is_i64 (obs_count a + 1)" using f by (simp add: fit_wf_def is_i64_def)
  show ?thesis
    unfolding update_first_def ok_Let ok_bind
  proof (rule ok_mono[OF vol_floor_ok], goal_cases)
    case 1
    show ?case using f by simp
  next
    case (2 v)
    let ?b = "?a\<lparr>observed_vol_bps := v, max_drawdown_bps := v * 2, obs_count := min 500 (obs_count a + 1)\<rparr>"
    have v: "0 \<le> v" "v \<le> BPS" "is_i64 (v * 2)" using 2 f by (simp_all add: fit_wf_def is_i64_def)
    have fb: "fit_wf ?b" using f v by (simp add: fit_wf_def)
    show ?case
      using v c
      by (simp add: wp)
         (rule ok_mono[OF expected_shortfall_ok[OF fb]],
          use assms f fb v in \<open>simp_all add: engine_wf_def actuary_wf_def clock_wf_def meter_wf_def gap_wf_def book_wf_def\<close>)
  qed
qed

lemma remark_ok:
  assumes "is_i64 v" "0 \<le> price" "price \<le> I64_MAX" "0 < old"
  shows "ok (remark price old v) (\<lambda>n. I64_MIN \<le> n \<and> n \<le> I64_MAX)"
proof -
  have b: "\<bar>v\<bar> * price \<le> 9223372036854775808 * I64_MAX"
    by (rule mult_mono) (use assms in \<open>auto simp: is_i64_def\<close>)
  have m: "\<bar>v * price\<bar> \<le> 9223372036854775808 * I64_MAX" using b assms by (simp add: abs_mult)
  have "\<bar>(v * price) sdiv old\<bar> \<le> \<bar>v * price\<bar>" using assms(4) by (simp add: abs_sdiv div_le_self)
  then have "is_i128 (v * price)" "is_i128 ((v * price) sdiv old)"
    using m unfolding is_i128_def by linarith+
  then show ?thesis using assms(4) by (simp add: remark_def wp clamp_def)
qed

lemma remark_book_ok:
  assumes "book_wf a" "0 < price" "price \<le> I64_MAX"
  shows "ok (remark_book a price old)
    (\<lambda>a'. \<exists>n t. a' = a\<lparr>net_exposure := n, total_exposure := t\<rparr> \<and> is_i64 n \<and> 0 \<le> t \<and> t \<le> I64_MAX)"
proof (cases "old > 0 \<and> price > 0 \<and> price \<noteq> old")
  case True
  have r: "is_i64 (net_exposure a)" "is_i64 (total_exposure a)"
    using assms by (auto simp: book_wf_def is_i64_def)
  obtain n where n: "remark price old (net_exposure a) = Some n" "is_i64 n"
    using okD[OF remark_ok[OF r(1), of price old]] assms True by (auto simp: is_i64_def)
  obtain t where t: "remark price old (total_exposure a) = Some t" "t \<le> I64_MAX"
    using okD[OF remark_ok[OF r(2), of price old]] assms True by auto
  have "remark_book a price old = Some (a\<lparr>net_exposure := n, total_exposure := max t 0\<rparr>)"
    using True n t by (simp add: remark_book_def)
  moreover have "0 \<le> max t 0" "max t 0 \<le> I64_MAX" using t by simp_all
  ultimately show ?thesis using n(2) unfolding ok_def by blast
next
  case False
  show ?thesis unfolding remark_book_def if_not_P[OF False] ok_Some
    by (rule exI[of _ "net_exposure a"], rule exI[of _ "total_exposure a"])
       (use assms in \<open>simp add: book_wf_def\<close>)
qed

lemma raw_change_ok:
  assumes "0 \<le> price" "price \<le> I64_MAX" "0 \<le> old" "old \<le> I64_MAX"
  shows "ok (raw_change_bps price old) (\<lambda>c. 0 \<le> c \<and> c \<le> BPS)"
proof -
  define d where "d = \<bar>price - old\<bar>"
  define m where "m = max 1 (max old price)"
  have d: "0 \<le> d" "d \<le> m" "d \<le> I64_MAX" "0 < m" using assms by (auto simp: d_def m_def)
  then have b: "d * BPS \<le> BPS * m" by (simp add: mult.commute)
  have "(d * BPS) sdiv m = (d * BPS) div m" using d by (simp add: sdiv_nonneg)
  then have q: "0 \<le> (d * BPS) sdiv m" "(d * BPS) sdiv m \<le> BPS"
    using div_le_bound[OF _ b] d by (simp_all add: pos_imp_zdiv_nonneg_iff)
  have "is_i64 (price - old)" "is_i64 d"
    using assms d unfolding is_i64_def by auto
  moreover have "is_i128 (d * BPS)" "is_i128 ((d * BPS) sdiv m)" "is_i64 ((d * BPS) sdiv m)"
    using q d(1,3) unfolding is_i128_def is_i64_def by linarith+
  ultimately show ?thesis
    unfolding raw_change_bps_def wp d_def[symmetric] m_def[symmetric]
    using q d(4) by (simp add: as_i64_id)
qed

lemma decay_activity_ok:
  assumes "meter_wf a" "0 \<le> dt" "dt \<le> 4611686018427387904"
  shows "ok (decay_activity a dt)
    (\<lambda>a'. \<exists>j v. a' = a\<lparr>jump_count := j, velocity := v\<rparr> \<and> 0 \<le> j \<and> j \<le> 20 \<and> 0 \<le> v \<and> v \<le> 255)"
proof -
  have "0 \<le> dt sdiv 1000" "dt sdiv 1000 \<le> dt" "0 \<le> dt sdiv 500" "dt sdiv 500 * 10 \<le> dt"
    using assms by (simp_all add: sdiv_nonneg)
  then show ?thesis
    using assms unfolding decay_activity_def wp meter_wf_def is_i64_def
    by (intro conjI exI[of _ "max 0 (jump_count a - dt sdiv 1000)"]
          exI[of _ "max 0 (velocity a - dt sdiv 500 * 10)"]) auto
qed



lemma twap_blend_ok:
  assumes "0 \<le> t" "t \<le> I64_MAX" "0 \<le> price" "price \<le> I64_MAX" "1 \<le> al" "al \<le> BPS"
  shows "is_i128 (t * (BPS - al))" "is_i128 (price * al)" "is_i128 (t * (BPS - al) + price * al)"
    "0 \<le> (t * (BPS - al) + price * al) sdiv BPS" "(t * (BPS - al) + price * al) sdiv BPS \<le> I64_MAX"
    "is_i128 (t * (BPS - al) sdiv BPS + price * al sdiv BPS)"
    "0 \<le> t * (BPS - al) sdiv BPS + price * al sdiv BPS"
proof -
  define p where "p = t * (BPS - al)"
  define q where "q = price * al"
  have b: "0 \<le> p" "p \<le> I64_MAX * (BPS - al)" "0 \<le> q" "q \<le> I64_MAX * al"
    using assms unfolding p_def q_def by (intro mult_right_mono mult_nonneg_nonneg; simp)+
  have s: "p + q \<le> I64_MAX * BPS" using b by simp
  have r: "is_i128 p" "is_i128 q" "is_i128 (p + q)" using b s unfolding is_i128_def by linarith+
  have d: "0 \<le> p sdiv BPS" "p sdiv BPS \<le> p" "0 \<le> q sdiv BPS" "q sdiv BPS \<le> q"
    using b by (simp_all add: sdiv_nonneg div_le_self)
  have "(p + q) sdiv BPS = (p + q) div BPS" using b by (simp add: sdiv_nonneg)
  then have e: "0 \<le> (p + q) sdiv BPS" "(p + q) sdiv BPS \<le> I64_MAX"
    using b div_le_bound[OF _ s] by (simp_all add: div_nonneg)
  show "is_i128 (t * (BPS - al))" "is_i128 (price * al)" "is_i128 (t * (BPS - al) + price * al)"
    "0 \<le> (t * (BPS - al) + price * al) sdiv BPS" "(t * (BPS - al) + price * al) sdiv BPS \<le> I64_MAX"
    using r e unfolding p_def q_def by simp_all
  show "is_i128 (t * (BPS - al) sdiv BPS + price * al sdiv BPS)"
    "0 \<le> t * (BPS - al) sdiv BPS + price * al sdiv BPS"
    using d b s unfolding p_def[symmetric] q_def[symmetric] is_i128_def by linarith+
qed

lemma observe_jump_ok:
  assumes "fit_wf a" "meter_wf a" "0 \<le> c" "c \<le> BPS"
  shows "ok (observe_jump a c)
    (\<lambda>a'. \<exists>j dd. a' = a\<lparr>jump_count := j, max_drawdown_bps := dd\<rparr> \<and> 0 \<le> j \<and> j \<le> 20 \<and>
       0 \<le> dd \<and> dd \<le> 20000)"
proof -
  define P where "P a' \<longleftrightarrow> (\<exists>j dd. a' = a\<lparr>jump_count := j, max_drawdown_bps := dd\<rparr> \<and> 0 \<le> j \<and> j \<le> 20 \<and>
       0 \<le> dd \<and> dd \<le> 20000)" for a'
  have w: "0 \<le> jump_count a" "jump_count a \<le> 20" "0 \<le> max_drawdown_bps a" "max_drawdown_bps a \<le> 20000"
    using assms(2) by (simp_all add: meter_wf_def)
  have r: "is_i64 (observed_vol_bps a * 3)" "is_i64 (jump_count a + 1)"
    using fit_wfD[OF assms(1)] w by (simp_all add: is_i64_def)
  have P: "P (a\<lparr>jump_count := j, max_drawdown_bps := dd\<rparr>)" if "0 \<le> j" "j \<le> 20" "0 \<le> dd" "dd \<le> 20000" for j dd
    using that unfolding P_def by blast
  have keep: "P a" "P (a\<lparr>jump_count := min 20 (jump_count a + 1)\<rparr>)"
    "P (a\<lparr>max_drawdown_bps := min 5000 c\<rparr>)"
    using P[OF w] P[of "min 20 (jump_count a + 1)", OF _ _ w(3,4)] P[OF w(1,2), of "min 5000 c"] w assms(3)
    by simp_all
  have "ok (observe_jump a c) P"
    unfolding observe_jump_def
    using keep r w assms(3) P[of "min 20 (jump_count a + 1)" "min 5000 c"] by (simp add: wp)
  then show ?thesis unfolding P_def .
qed

lemma sample_window_ok:
  assumes "clock_wf slot a" "0 < price" "price \<le> I64_MAX"
  shows "ok (sample_window a price slot) (\<lambda>(a', sampled, c, down). 0 \<le> c \<and> c \<le> BPS \<and>
    a' = (if sampled then a\<lparr>window_ref_price := price, window_since := slot\<rparr> else a) \<and>
    (sampled \<longrightarrow> window_since a + LADDER_WINDOW_SLOTS \<le> slot))"
proof -
  have w: "0 \<le> window_since a" "window_since a \<le> slot" "slot \<le> 4611686018427387904"
    "0 \<le> window_ref_price a" "window_ref_price a \<le> I64_MAX"
    using assms(1) by (simp_all add: clock_wf_def)
  have e: "sat_i64 (slot - window_since a) = slot - window_since a"
    using w by (simp add: sat_i64_id is_i64_def)
  obtain c where c: "raw_change_bps price (window_ref_price a) = Some c" "0 \<le> c" "c \<le> BPS"
    using okD[OF raw_change_ok[of price "window_ref_price a"]] w assms by auto
  have scale: "ok (sqrt_x100 (LADDER_WINDOW_SLOTS * 10000 sdiv t))
      (\<lambda>r. is_i128 (c * r))" if "LADDER_WINDOW_SLOTS < t" for t
  proof -
    have t: "LADDER_WINDOW_SLOTS * 10000 sdiv t = LADDER_WINDOW_SLOTS * 10000 div t" using that by (simp add: sdiv_nonneg)
    have le: "LADDER_WINDOW_SLOTS * 10000 sdiv t \<le> 10000"
      unfolding t by (rule div_le_bound) (use that in auto)
    show ?thesis
    proof (rule ok_mono[OF sqrt_x100_ok])
      show "LADDER_WINDOW_SLOTS * 10000 sdiv t \<le> 461168601842738" using le by simp
      fix r assume r: "1 \<le> r \<and> r * r \<le> max (LADDER_WINDOW_SLOTS * 10000 sdiv t) 1 * 10000 \<and>
        max (LADDER_WINDOW_SLOTS * 10000 sdiv t) 1 * 10000 < (r + 1) * (r + 1)"
      have "r * r \<le> 10000 * 10000" using r le by auto
      then have "r \<le> 10000" using sqrt_le_bound[of r "r * r" 10000] r by simp
      then have "0 \<le> c * r" "c * r \<le> BPS * 10000" using r c by (simp, intro mult_mono) auto
      then show "is_i128 (c * r)" unfolding is_i128_def by linarith
    qed
  qed
  show ?thesis
    unfolding sample_window_def e
    using c(2,3) scale[of "slot - window_since a"]
    by (auto simp: wp c(1) clamp_def elim!: ok_mono)
qed

lemma record_exceedance_ok:
  assumes "fit_wf a" "exceed_count a < 512409557603043" "0 \<le> c" "c \<le> BPS"
  shows "ok (record_exceedance a c)
    (\<lambda>a'. \<exists>n s q. a' = a\<lparr>exceed_count := n, exceed_sum := s, exceed_sumsq := q\<rparr> \<and>
       fit_wf a' \<and> n \<le> exceed_count a + 1)"
proof -
  define P where "P a' \<longleftrightarrow> (\<exists>n s q. a' = a\<lparr>exceed_count := n, exceed_sum := s, exceed_sumsq := q\<rparr> \<and>
       fit_wf a' \<and> n \<le> exceed_count a + 1)" for a'
  note w = fit_wfD[OF assms(1)]
  have P: "P (a\<lparr>exceed_count := n, exceed_sum := s, exceed_sumsq := q\<rparr>)"
    if "fit_wf (a\<lparr>exceed_count := n, exceed_sum := s, exceed_sumsq := q\<rparr>)" "n \<le> exceed_count a + 1" for n s q
    using that unfolding P_def by blast
  have keep: "P a" using P[where n = "exceed_count a" and s = "exceed_sum a" and q = "exceed_sumsq a"] assms(1) by simp
  have "ok (record_exceedance a c) P"
    unfolding record_exceedance_def ok_bind
  proof (rule ok_mono[OF pot_threshold_ok[OF assms(1)]])
    fix u assume u: "1 \<le> u \<and> u \<le> BPS"
    show "ok (if c > u then do {
       excess \<leftarrow> i64 (c - u);
       sq \<leftarrow> i128 (excess * excess);
       Some (a\<lparr>exceed_count := sat_i64 (exceed_count a + 1),
               exceed_sum := sat_i64 (exceed_sum a + excess),
               exceed_sumsq := sat_i128 (exceed_sumsq a + sq)\<rparr>)
     } else Some a) P"
    proof (cases "c > u")
      case True
      define x where "x = c - u"
      have x: "0 \<le> x" "x \<le> BPS" using u True assms by (auto simp: x_def)
      have xx: "0 \<le> x * x" "x * x \<le> BPS * BPS" using x mult_mono[of x BPS x BPS] by simp_all
      have "is_i64 x" "is_i128 (x * x)" "is_i64 (exceed_count a + 1)" "is_i64 (exceed_sum a + x)"
        "is_i128 (exceed_sumsq a + x * x)"
        using x xx w assms(2) unfolding is_i64_def is_i128_def by linarith+
      moreover have "fit_wf (a\<lparr>exceed_count := exceed_count a + 1, exceed_sum := exceed_sum a + x,
          exceed_sumsq := exceed_sumsq a + x * x\<rparr>)"
        using w x xx assms(2) by (simp add: fit_wf_def)
      ultimately show ?thesis
        using True P[where n = "exceed_count a + 1" and s = "exceed_sum a + x" and q = "exceed_sumsq a + x * x"]
        by (simp add: wp sat_i64_id sat_i128_id flip: x_def)
    next
      case False
      then show ?thesis using keep by simp
    qed
  qed
  then show ?thesis unfolding P_def .
qed


text \<open>
  What learning from a sample leaves alone, and what it may do to the rest: \<open>n\<close> bounds the
  number of exceedances afterwards.
\<close>

definition learned :: "int \<Rightarrow> actuary \<Rightarrow> actuary \<Rightarrow> bool" where
  "learned n a a' \<longleftrightarrow> fit_wf a' \<and> meter_wf a' \<and> exceed_count a' \<le> n \<and>
     last_price a' = last_price a \<and> last_price_slot a' = last_price_slot a \<and>
     window_ref_price a' = window_ref_price a \<and> window_since a' = window_since a \<and>
     twap_price a' = twap_price a \<and> gap_count a' = gap_count a \<and> gap_vol_bps a' = gap_vol_bps a \<and>
     gap_max_bps a' = gap_max_bps a \<and> net_exposure a' = net_exposure a \<and>
     total_exposure a' = total_exposure a"

lemma learned_trans: "learned m a b \<Longrightarrow> learned n b c \<Longrightarrow> learned n a c"
  by (simp add: learned_def)

lemma learned_refl: "fit_wf a \<Longrightarrow> meter_wf a \<Longrightarrow> exceed_count a \<le> n \<Longrightarrow> learned n a a"
  by (simp add: learned_def)

lemma learned_wf:
  "learned (exceed_count a + 1) a a' \<Longrightarrow> clock_wf now a \<Longrightarrow> gap_wf a \<Longrightarrow> book_wf a \<Longrightarrow>
   9000 * exceed_count a' \<le> window_since a \<Longrightarrow> actuary_wf now a'"
  by (simp add: learned_def wf_defs)

lemma fade_drawdown_learned:
  assumes "fit_wf a" "meter_wf a" "exceed_count a \<le> n"
  shows "ok (fade_drawdown a dt) (learned n a)"
  by (rule ok_mono[OF fade_drawdown_ok[OF assms(1,2)]])
     (use assms in \<open>auto simp: learned_def meter_wf_def\<close>)

lemma record_exceedance_learned:
  assumes "fit_wf a" "meter_wf a" "exceed_count a < 512409557603043" "0 \<le> c" "c \<le> BPS"
  shows "ok (record_exceedance a c) (learned (exceed_count a + 1) a)"
  by (rule ok_mono[OF record_exceedance_ok[OF assms(1,3-5)]])
     (use assms in \<open>auto simp: learned_def meter_wf_def\<close>)

lemma learn_change_ok:
  assumes "fit_wf a" "meter_wf a" "exceed_count a < 512409557603043" "0 \<le> c" "c \<le> BPS"
  shows "ok (learn_change a c down) (learned (exceed_count a + 1) a)"
proof -
  note f = fit_wfD[OF assms(1)]
  have d: "0 \<le> downside_vol_bps a" "downside_vol_bps a \<le> BPS" using assms(2) by (simp_all add: meter_wf_def)
  define al where "al = (if down then min 100 (5 * 3 sdiv 2) else (5 :: int))"
  have al: "0 \<le> al" "al \<le> 100" by (simp_all add: al_def signed_divide_int_def)
  obtain v where v: "ewma (observed_vol_bps a) al c = Some v"
    using okD[OF ewma_ok[of "observed_vol_bps a" c al]] f al assms(4,5) by auto
  obtain w where w: "ewma (downside_vol_bps a) al c = Some w" "0 \<le> w" "w \<le> BPS"
    using okD[OF ewma_ok[of "downside_vol_bps a" c al]] d al assms(4,5) by auto
  define b where "b = a\<lparr>observed_vol_bps := max (min 3000 v) 1\<rparr>"
  define b' where "b' = (if down then b\<lparr>downside_vol_bps := w\<rparr> else b)"
  have l: "learned (exceed_count a) a b'"
    using assms f d w by (auto simp: b'_def b_def learned_def fit_wf_def meter_wf_def)
  have "learn_change a c down = record_exceedance b' c"
    unfolding learn_change_def Let_def al_def[symmetric] v
    using w(1) by (auto simp: b'_def b_def)
  moreover have "ok (record_exceedance b' c) (learned (exceed_count a + 1) b')"
  proof -
    have "exceed_count b' = exceed_count a" by (simp add: b'_def b_def)
    then show ?thesis
      using record_exceedance_learned[of b' c] l assms(3-5) by (simp add: learned_def)
  qed
  ultimately show ?thesis using l by (auto elim!: ok_mono intro: learned_trans)
qed

lemma observe_window_ok:
  assumes "fit_wf a" "meter_wf a" "sampled \<longrightarrow> exceed_count a < 512409557603043" "0 \<le> c" "c \<le> BPS"
    "0 \<le> floor" "floor \<le> BPS"
  shows "ok (observe_window a dt floor sampled c down)
    (learned (if sampled then exceed_count a + 1 else exceed_count a) a)"
    (is "ok _ (learned ?n a)")
proof -
  note f = fit_wfD[OF assms(1)]
  define q where "q \<longleftrightarrow> sampled \<and> c \<ge> NOISE_FLOOR_BPS"
  define b where "b = (if q then a\<lparr>obs_count := min 500 (obs_count a + 1)\<rparr> else a)"
  have b: "learned (exceed_count a) a b" "exceed_count b = exceed_count a"
    using assms f by (auto simp: b_def learned_def fit_wf_def meter_wf_def)
  then have bw: "fit_wf b" "meter_wf b" by (simp_all add: learned_def)
  have "is_i64 (obs_count a + 1)" "is_i64 (floor * 2)" using f assms by (simp_all add: is_i64_def)
  then have body: "observe_window a dt floor sampled c down =
    (if observed_vol_bps b = 0 then
       Some (if q then b\<lparr>observed_vol_bps := max floor c, max_drawdown_bps := max (floor * 2) c\<rparr> else b)
     else do {
       a' \<leftarrow> (if q then learn_change b c down else Some b);
       fade_drawdown a' dt
     })"
    unfolding observe_window_def Let_def q_def[symmetric] by (simp add: b_def)
  show ?thesis
  proof (cases "observed_vol_bps b = 0")
    case True
    have "learned ?n b (if q then b\<lparr>observed_vol_bps := max floor c, max_drawdown_bps := max (floor * 2) c\<rparr> else b)"
      using bw b(2) assms(4-7) by (auto simp: learned_def fit_wf_def meter_wf_def)
    then show ?thesis unfolding body using True learned_trans[OF b(1)] by simp
  next
    case False
    have "ok (if q then learn_change b c down else Some b) (learned ?n b)"
    proof (cases q)
      case True
      then have sampled by (simp add: q_def)
      then show ?thesis using True learn_change_ok[OF bw, of c down] assms(3-5) b(2) by simp
    next
      case False
      then show ?thesis using bw b(2) by (simp add: learned_refl)
    qed
    then have "ok (do { a' \<leftarrow> (if q then learn_change b c down else Some b); fade_drawdown a' dt }) (learned ?n b)"
      unfolding ok_bind
    proof (rule ok_mono)
      fix a' assume a': "learned ?n b a'"
      show "ok (fade_drawdown a' dt) (learned ?n b)"
        by (rule ok_mono[OF fade_drawdown_learned[of a' ?n]])
           (use a' learned_trans[OF a'] in \<open>simp_all add: learned_def\<close>)
    qed
    then show ?thesis unfolding body using False learned_trans[OF b(1)] by (auto elim!: ok_mono)
  qed
qed

lemma update_gap_ok:
  assumes wf: "actuary_wf slot a" and p: "0 < price" "price \<le> I64_MAX"
    and dt: "0 \<le> dt" "dt \<le> 4611686018427387904" and c: "0 \<le> c" "c \<le> BPS"
  shows "ok (update_gap a price slot dt c floor)
    (\<lambda>a'. engine_wf slot a' \<and> last_price a' = price \<and> last_price_slot a' = slot)"
proof -
  have parts: "fit_wf a" "clock_wf slot a" "meter_wf a" "gap_wf a" "book_wf a"
    using wf by (simp_all add: actuary_wf_def)
  obtain a1 where a1: "observe_gap a c dt = Some a1" "actuary_wf slot a1"
    using okD[OF observe_gap_ok[OF parts(4) c dt(1)]] parts by (fastforce simp: wf_defs)
  define a2 where "a2 = (if c > max_drawdown_bps a1 then a1\<lparr>max_drawdown_bps := min 5000 c\<rparr> else a1)"
  have a2: "actuary_wf slot a2" using a1(2) c by (auto simp: a2_def wf_defs)
  obtain a3 where a3: "fade_drawdown a2 dt = Some a3" "actuary_wf slot a3"
    using okD[OF fade_drawdown_ok[of a2 dt]] a2 by (fastforce simp: wf_defs)
  define a4 where "a4 = a3\<lparr>last_price := price, last_price_slot := slot,
               window_ref_price := price, window_since := slot\<rparr>"
  have a4: "engine_wf slot a4" "last_price a4 = price" "last_price_slot a4 = slot"
    using a3(2) p by (simp_all add: a4_def wf_defs)
  obtain a5 where a5: "decay_activity a4 dt = Some a5" "engine_wf slot a5" "last_price a5 = price" "last_price_slot a5 = slot"
    using okD[OF decay_activity_ok[of a4 dt]] a4 dt by (fastforce simp: wf_defs)
  obtain al where al: "twap_alpha_bps dt = Some al" "1 \<le> al" "al \<le> BPS" using okD[OF twap_alpha_ok] by blast
  have t: "0 \<le> twap_price a5" "twap_price a5 \<le> I64_MAX" "0 \<le> price" "is_i64 (obs_count a5 + 1)"
    using a5 p by (simp_all add: wf_defs is_i64_def)
  note tw = twap_blend_ok[OF t(1-3) p(2) al(2,3)]
  have "as_i64 ((twap_price a5 * (BPS - al) + price * al) sdiv BPS) =
      (twap_price a5 * (BPS - al) + price * al) sdiv BPS"
    using tw(4,5) by (simp add: as_i64_id is_i64_def)
  moreover define a6 where "a6 = a5\<lparr>twap_price := (twap_price a5 * (BPS - al) + price * al) sdiv BPS\<rparr>"
  ultimately have body: "update_gap a price slot dt c floor =
    Some (if qualifies_gap c floor then a6\<lparr>obs_count := min 500 (obs_count a5 + 1)\<rparr> else a6)"
    unfolding update_gap_def Let_def a1 a2_def[symmetric] Option.bind_lunit a3 a4_def[symmetric] a5 al
    using tw(1-3) t(4) by simp
  have "engine_wf slot a6" "last_price a6 = price" "last_price_slot a6 = slot" "obs_count a6 = obs_count a5"
    using a5 tw(4,5) by (simp_all add: a6_def wf_defs)
  then show ?thesis unfolding body by (simp add: wf_defs)
qed

lemma update_session_ok:
  assumes wf: "engine_wf slot a" and p: "0 < price" "price \<le> I64_MAX"
    and old: "0 \<le> old" "old \<le> I64_MAX"
    and dt: "0 \<le> dt" "dt \<le> 4611686018427387904" and c: "0 \<le> c" "c \<le> BPS"
    and fl: "0 \<le> floor" "floor \<le> BPS"
  shows "ok (update_session a price slot old dt c floor)
    (\<lambda>a'. engine_wf slot a' \<and> last_price a' = price \<and> last_price_slot a' = slot)"
proof -
  define a1 where "a1 = (if window_ref_price a = 0
              then a\<lparr>window_ref_price := old, window_since := last_price_slot a\<rparr> else a)"
  have a1: "actuary_wf slot a1" using wf old by (simp add: a1_def wf_defs)
  obtain a2 where a2: "observe_jump a1 c = Some a2" "actuary_wf slot a2"
    using okD[OF observe_jump_ok[of a1 c]] a1 c by (fastforce simp: wf_defs)
  obtain a3 sampled s down where a3: "sample_window a2 price slot = Some (a3, sampled, s, down)"
    "0 \<le> s" "s \<le> BPS" "a3 = (if sampled then a2\<lparr>window_ref_price := price, window_since := slot\<rparr> else a2)"
    "sampled \<longrightarrow> window_since a2 + LADDER_WINDOW_SLOTS \<le> slot"
    using okD[OF sample_window_ok[of slot a2 price]] a2 p by (auto simp: actuary_wf_def)
  have w3: "actuary_wf slot a3" "sampled \<longrightarrow> 9000 * (exceed_count a3 + 1) \<le> window_since a3"
    using a2(2) p a3(4,5) by (auto simp: wf_defs)
  have n3: "sampled \<longrightarrow> exceed_count a3 < 512409557603043"
    using w3 by (auto simp: wf_defs)
  obtain a4 where a4: "observe_window a3 dt floor sampled s down = Some a4"
    "learned (if sampled then exceed_count a3 + 1 else exceed_count a3) a3 a4"
    using okD[OF observe_window_ok[of a3 sampled s floor dt down, OF _ _ n3 a3(2,3) fl]] w3
    by (auto simp: actuary_wf_def)
  have w4: "actuary_wf slot a4"
  proof (rule learned_wf[where a = a3])
    show "learned (exceed_count a3 + 1) a3 a4" using a4(2) by (simp add: learned_def split: if_splits)
    show "9000 * exceed_count a4 \<le> window_since a3"
      using a4(2) w3 by (auto simp: learned_def wf_defs split: if_splits)
  qed (use w3 in \<open>simp_all add: actuary_wf_def\<close>)
  then have "fit_wf a4" by (simp add: actuary_wf_def)
  then obtain es where es: "expected_shortfall_bps a4 COLLAR_BREACH_BPS = Some es" "2 \<le> es" "es \<le> 2208576"
    using okD[OF expected_shortfall_ok] by blast
  have w5: "actuary_wf slot (a4\<lparr>shortfall_bps := es\<rparr>)" using w4 es by (simp add: wf_defs)
  then obtain a5 where a5: "decay_activity (a4\<lparr>shortfall_bps := es\<rparr>) dt = Some a5" "actuary_wf slot a5"
    using okD[OF decay_activity_ok[of "a4\<lparr>shortfall_bps := es\<rparr>" dt]] dt by (fastforce simp: wf_defs)
  obtain al where al: "twap_alpha_bps dt = Some al" "1 \<le> al" "al \<le> BPS" using okD[OF twap_alpha_ok] by blast
  have t: "0 \<le> twap_price a5" "twap_price a5 \<le> I64_MAX" "0 \<le> price"
    using a5 p by (simp_all add: wf_defs)
  note tw = twap_blend_ok[OF t p(2) al(2,3)]
  define t' where "t' = min (twap_price a5 * (BPS - al) sdiv BPS + price * al sdiv BPS) I64_MAX"
  have t': "0 \<le> t'" "t' \<le> I64_MAX" "as_i64 t' = t'"
    using tw(7) by (auto simp: t'_def as_i64_id is_i64_def)
  have body: "update_session a price slot old dt c floor =
    Some (a5\<lparr>twap_price := t', last_price := price, last_price_slot := slot\<rparr>)"
    unfolding update_session_def Let_def a1_def[symmetric] a2(1) a3(1) Option.bind_lunit prod.case a4(1) es(1) a5(1) al(1)
    using tw(1,2,6) t'(3) by (simp add: t'_def)
  show ?thesis unfolding body using a5(2) t' p by (simp add: wf_defs)
qed

lemma update_price_ok:
  assumes "engine_wf slot a" "0 < price" "price \<le> I64_MAX"
  shows "ok (update_price a price slot)
    (\<lambda>a'. engine_wf slot a' \<and> last_price a' = price \<and> last_price_slot a' = slot)"
proof (cases "last_price a = 0")
  case True
  then show ?thesis using assms update_first_ok[of slot a price] by (simp add: update_price_def engine_wf_def)
next
  case False
  have w: "actuary_wf slot a" "book_wf a" using assms by (simp_all add: engine_wf_def actuary_wf_def)
  define dt where "dt = max 1 (slot - last_price_slot a)"
  have l: "0 \<le> last_price a" "last_price a \<le> I64_MAX" "is_i64 (slot - last_price_slot a)"
    "0 \<le> dt" "dt \<le> 4611686018427387904"
    using w by (auto simp: wf_defs is_i64_def dt_def)
  obtain a1 where a1: "remark_book a price (last_price a) = Some a1" "engine_wf slot a1"
    using okD[OF remark_book_ok[of a price "last_price a"]] w assms by (fastforce simp: wf_defs)
  then have w1: "actuary_wf slot a1" "fit_wf a1" by (simp_all add: engine_wf_def actuary_wf_def)
  obtain c where c: "raw_change_bps price (last_price a) = Some c" "0 \<le> c" "c \<le> BPS"
    using okD[OF raw_change_ok[of price "last_price a"]] l assms by auto
  obtain f where f: "vol_floor a1 = Some f" "0 \<le> f" "f \<le> BPS"
    using okD[OF vol_floor_ok[OF w1(2)]] fit_wfD(3)[OF w1(2)] by auto
  have body: "update_price a price slot =
    (if dt \<ge> GAP_MIN_SLOTS then update_gap a1 price slot dt c f
     else update_session a1 price slot (last_price a) dt c f)"
    unfolding update_price_def Let_def using False l(3) a1(1) c(1) f(1) by (simp flip: dt_def)
  show ?thesis
    unfolding body
    using update_gap_ok[OF w1(1) assms(2,3) l(4,5) c(2,3), of f]
      update_session_ok[OF a1(2) assms(2,3) l(1,2,4,5) c(2,3) f(2,3)] by (simp only: ok_if simp_thms)
qed

subsection \<open>Outcomes and activity\<close>

lemma record_outcome_ok:
  assumes "meter_wf a" "is_i64 pnl"
  shows "ok (record_outcome a pnl notional long)
    (\<lambda>a'. \<exists>e. a' = a\<lparr>experience_bps := e\<rparr> \<and> - BPS \<le> e \<and> e \<le> BPS)"
proof (cases "notional = 0 \<or> pnl = 0")
  case True
  then show ?thesis
    using assms(1) unfolding record_outcome_def
    by (simp only: if_True ok_Some) (rule exI[of _ "experience_bps a"], simp add: meter_wf_def)
next
  case False
  have e: "- BPS \<le> experience_bps a" "experience_bps a \<le> BPS" using assms(1) by (simp_all add: meter_wf_def)
  have "\<bar>(pnl * BPS) sdiv notional\<bar> \<le> \<bar>pnl * BPS\<bar>"
    using False by (simp add: abs_sdiv div_le_self)
  moreover have "\<bar>pnl * BPS\<bar> \<le> 92233720368547758080000" using assms(2) by (auto simp: is_i64_def abs_le_iff)
  ultimately have r: "is_i128 (pnl * BPS)" "is_i128 ((pnl * BPS) sdiv notional)"
    unfolding is_i128_def by linarith+
  define g where "g = (if long then clamp (- BPS) BPS ((pnl * BPS) sdiv notional)
    else - clamp (- BPS) BPS ((pnl * BPS) sdiv notional))"
  have g: "- BPS \<le> g" "g \<le> BPS" by (auto simp: g_def clamp_def)
  have "record_outcome a pnl notional long = do {
      e \<leftarrow> ewma (experience_bps a) 8 g; Some (a\<lparr>experience_bps := e\<rparr>) }"
    using False r unfolding record_outcome_def ewma_def Let_def div_i128_def by (simp flip: g_def)
  moreover have "ok (ewma (experience_bps a) 8 g) (\<lambda>e. - BPS \<le> e \<and> e \<le> BPS)"
    by (rule ok_mono[OF ewma_ok]) (use e g in auto)
  ultimately show ?thesis by (auto simp: wp elim!: ok_mono)
qed

lemma trade_velocity_wf:
  assumes "trade_velocity a dt sz pool = Some a'" "meter_wf a"
  shows "\<exists>v. a' = a\<lparr>velocity := v\<rparr> \<and> 0 \<le> v \<and> v \<le> 255"
proof -
  have v: "0 \<le> velocity a" "velocity a \<le> 255" using assms(2) by (simp_all add: meter_wf_def)
  have decayed: "0 \<le> (velocity a * max 10 (100 - dt * 20)) sdiv 100"
    "(velocity a * max 10 (100 - dt * 20)) sdiv 100 \<le> 255" if "dt > 0"
  proof -
    have "velocity a * max 10 (100 - dt * 20) \<le> 255 * 100" by (rule mult_mono) (use v that in auto)
    moreover have "0 \<le> velocity a * max 10 (100 - dt * 20)" using v by simp
    ultimately show "0 \<le> (velocity a * max 10 (100 - dt * 20)) sdiv 100"
      "(velocity a * max 10 (100 - dt * 20)) sdiv 100 \<le> 255" by (simp_all add: sdiv_nonneg)
  qed
  define P where "P a' \<longleftrightarrow> (\<exists>v. a' = a\<lparr>velocity := v\<rparr> \<and> 0 \<le> v \<and> v \<le> 255)" for a'
  have P: "P (a\<lparr>velocity := v\<rparr>)" if "0 \<le> v" "v \<le> 255" for v using that unfolding P_def by blast
  have "P a" using P[OF v] by simp
  obtain a1 where a1: "P a1" and rest: "do {
     let min_size_for_vel = max 1 (pool sdiv 1000);
     local \<leftarrow> (if sz < min_size_for_vel then Some 0
              else if pool > 0 then do { m \<leftarrow> i64 (sz * 50); q \<leftarrow> div_i64 m pool; Some (min 50 q) }
              else Some 5);
     if local > 0 then do { v \<leftarrow> i64 (velocity a1 + local); Some (a1\<lparr>velocity := min 255 v\<rparr>) }
     else Some a1
   } = Some a'"
    using assms(1) P decayed \<open>P a\<close> unfolding trade_velocity_def
    by (cases "dt > 0") (auto simp: bind_eq_Some_conv)
  define loc where "loc = (if sz < max 1 (pool sdiv 1000) then Some 0
              else if pool > 0 then do { m \<leftarrow> i64 (sz * 50); q \<leftarrow> div_i64 m pool; Some (min 50 q) }
              else Some 5)"
  have "loc \<bind> (\<lambda>local. if local > 0
      then do { v \<leftarrow> i64 (velocity a1 + local); Some (a1\<lparr>velocity := min 255 v\<rparr>) } else Some a1) = Some a'"
    using rest unfolding Let_def loc_def .
  then obtain l where "a' = a1 \<or> 0 < l \<and> a' = a1\<lparr>velocity := min 255 (velocity a1 + l)\<rparr>"
    by (cases loc) (auto simp: bind_eq_Some_conv split: if_splits)
  then have "P a'" using a1 unfolding P_def by fastforce
  then show ?thesis unfolding P_def .
qed

lemma trade_momentum_wf:
  assumes "trade_momentum a r = Some a'" "meter_wf a" "0 \<le> r"
  shows "\<exists>m. a' = a\<lparr>momentum_bps := m\<rparr> \<and> - BPS \<le> m \<and> m \<le> BPS \<and> (0 \<le> momentum_bps a \<longrightarrow> 0 \<le> m)"
proof -
  have v: "- BPS \<le> momentum_bps a" "momentum_bps a \<le> BPS" using assms(2) by (simp_all add: meter_wf_def)
  define P where "P a' \<longleftrightarrow> (\<exists>m. a' = a\<lparr>momentum_bps := m\<rparr> \<and> - BPS \<le> m \<and> m \<le> BPS \<and>
    (0 \<le> momentum_bps a \<longrightarrow> 0 \<le> m))" for a'
  have P: "P (a\<lparr>momentum_bps := m\<rparr>)" if "- BPS \<le> m" "m \<le> BPS" "0 \<le> momentum_bps a \<longrightarrow> 0 \<le> m" for m
    using that unfolding P_def by blast
  have "P a" using P[of "momentum_bps a"] v by simp
  have blend: "P (a\<lparr>momentum_bps := momentum_bps a * 70 sdiv 100 + max (- BPS) (min BPS d) * 30 sdiv 100\<rparr>)"
    if "0 \<le> d" for d
  proof (rule P)
    let ?n = "max (- BPS) (min BPS d)"
    have n: "0 \<le> ?n" "?n \<le> BPS" using that by auto
    have b: "\<bar>momentum_bps a * 70 sdiv 100\<bar> \<le> 7000" using v by (simp add: abs_sdiv abs_mult)
    have c: "0 \<le> ?n * 30 sdiv 100" "?n * 30 sdiv 100 \<le> 3000" using n by (simp_all add: sdiv_nonneg)
    show "- BPS \<le> momentum_bps a * 70 sdiv 100 + ?n * 30 sdiv 100"
      "momentum_bps a * 70 sdiv 100 + ?n * 30 sdiv 100 \<le> BPS" using b c by linarith+
    show "0 \<le> momentum_bps a \<longrightarrow> 0 \<le> momentum_bps a * 70 sdiv 100 + ?n * 30 sdiv 100"
      using c by (simp add: sdiv_nonneg_nonneg)
  qed
  have d: "0 \<le> (o' - l) * BPS sdiv l" if "l > 0" "l \<le> o'" for o' l :: int
    using that by (simp add: sdiv_nonneg_nonneg)
  obtain l where l0: "(if last_trade_slot a = 0 then Some (total_exposure a) else i64 (total_exposure a - r)) = Some l"
    and rest: "(if l > 0 then do {
       w \<leftarrow> i64 (total_exposure a - l);
       m \<leftarrow> i64 (w * BPS);
       delta \<leftarrow> div_i64 m l;
       x \<leftarrow> i64 (momentum_bps a * 70);
       y \<leftarrow> i64 (max (- BPS) (min BPS delta) * 30);
       s \<leftarrow> i64 (x sdiv 100 + y sdiv 100);
       Some (a\<lparr>momentum_bps := s\<rparr>)
     } else Some a) = Some a'"
    using assms(1) unfolding trade_momentum_def Let_def by (rule bind_SomeE)
  have l: "l \<le> total_exposure a" using l0 assms(3) by (auto split: if_splits)
  have "P a'"
    using rest \<open>P a\<close> blend[OF d[OF _ l]]
    by (cases "l > 0") (auto simp: bind_eq_Some_conv div_i64_def Let_def)
  then show ?thesis unfolding P_def .
qed

lemma book_trade_wf:
  assumes "book_trade a expo vd = Some (a', r)" "engine_wf now a"
  shows "engine_wf now a'" "momentum_bps a' = momentum_bps a" "0 \<le> r"
proof -
  have "0 \<le> total_exposure a" using assms(2) by (simp add: wf_defs)
  then have t: "0 \<le> t \<and> t \<le> I64_MAX" if "open_interest a g \<bar>vd\<bar> = Some t" for g t
    using that by (auto simp: open_interest_def bind_eq_Some_conv is_i64_def split: if_splits)
  obtain g n t where "a' = a\<lparr>net_exposure := n, total_exposure := t\<rparr>" "is_i64 n"
      "open_interest a g \<bar>vd\<bar> = Some t" "r = \<bar>vd\<bar>"
    using assms(1) unfolding book_trade_def by (auto simp: bind_eq_Some_conv)
  then show "engine_wf now a'" "momentum_bps a' = momentum_bps a" "0 \<le> r"
    using assms(2) t by (simp_all add: wf_defs)
qed

lemma record_activity_wf:
  assumes "record_activity a expo vd slot sz pool = Some a'" "engine_wf now a"
  shows "engine_wf now a' \<and> (0 \<le> momentum_bps a \<longrightarrow> 0 \<le> momentum_bps a')"
proof -
  from assms(1) obtain b r a1 a2 where
    s: "book_trade a expo vd = Some (b, r)"
      "trade_velocity b (max 0 (slot - last_trade_slot b)) sz pool = Some a1"
      "trade_momentum a1 r = Some a2" "a' = a2\<lparr>last_trade_slot := slot\<rparr>"
    unfolding record_activity_def Let_def by (auto simp: bind_eq_Some_conv)
  note b = book_trade_wf[OF s(1) assms(2)]
  then have "meter_wf b" by (simp add: engine_wf_def actuary_wf_def)
  from trade_velocity_wf[OF s(2) this] obtain v where
    v: "a1 = b\<lparr>velocity := v\<rparr>" "0 \<le> v" "v \<le> 255" by blast
  then have w1: "engine_wf now a1" "momentum_bps a1 = momentum_bps a" using b by (simp_all add: wf_defs)
  then have "meter_wf a1" by (simp add: engine_wf_def actuary_wf_def)
  from trade_momentum_wf[OF s(3) this b(3)] obtain m where
    m: "a2 = a1\<lparr>momentum_bps := m\<rparr>" "- BPS \<le> m" "m \<le> BPS" "0 \<le> momentum_bps a1 \<longrightarrow> 0 \<le> m" by blast
  show ?thesis using w1 m s(4) by (simp add: wf_defs)
qed

end
