(* ===== verification/Pricing.thy ===== *)
theory Pricing
  imports Price_Engine
begin

section \<open>Margin, premium, funding and fees (etc.rs)\<close>

text \<open>
  The functions of \<^verbatim>\<open>svm/programs/quid/src/etc.rs\<close> that turn a ticker's statistics into
  money: the loss profile and the margin it demands, the hazard and loss-given-default
  rates, the premium and borrowing rates, the two-sided funding rate with its running
  indices, the leverage ceiling, the collar and the fee. The lemmas show that each returns
  on every well-formed ticker and in which range, that the funding rate pays the smaller
  side, and that a reachable ticker never refuses the next print.
\<close>

subsection \<open>Margin\<close>

record loss_profile =
  lp_margin_bps :: int
  lp_capital_bps :: int
  lp_expected_loss_bps :: int
  lp_premium_bps :: int
  lp_trigger_bps :: int

definition profile_max_leverage_pct :: "loss_profile \<Rightarrow> int" where
  "profile_max_leverage_pct lp =
     (if lp_margin_bps lp \<le> 0 then I64_MAX else max (BPS * 100 sdiv lp_margin_bps lp) 100)"

definition mean_open_bps :: "int \<Rightarrow> int option" where
  "mean_open_bps windows = do {
     let r = clamp 1 BPS MAX_TRANCHE_BPS;
     remaining \<leftarrow> pow_bps (BPS - r) windows;
     d \<leftarrow> i64 (BPS - remaining);
     m \<leftarrow> i128 (d * BPS);
     let area = m sdiv r;
     Some (clamp 1 BPS (area sdiv max windows 1))
   }"

definition hazard_bps :: "int \<Rightarrow> actuary \<Rightarrow> int option" where
  "hazard_bps distance s = do {
     t \<leftarrow> tail_prob_fine s (max 0 distance);
     m \<leftarrow> i64 (2 * t);
     Some (min TAIL_FINE m)
   }"

definition lgd_bps :: "int \<Rightarrow> actuary \<Rightarrow> int option" where
  "lgd_bps collar s = do {
     overshoot \<leftarrow> bounded_mean_excess_bps s collar;
     let residual = BPS - min BPS MAX_TRANCHE_BPS;
     m \<leftarrow> i64 (overshoot * residual);
     Some (max 1 (m sdiv BPS))
   }"

definition gapped_margin_bps :: "int \<Rightarrow> int \<Rightarrow> int option" where
  "gapped_margin_bps laddered gap =
     (if gap \<le> 0 then Some laddered
      else do {
        x \<leftarrow> i128 (laddered * laddered);
        y \<leftarrow> i128 (gap * gap);
        z \<leftarrow> i128 (x + y);
        let sq = min z I64_MAX;
        r \<leftarrow> sqrt_x100 sq;
        Some (clamp 1 BPS (r sdiv 100))
      })"

definition loss_profile_of :: "actuary \<Rightarrow> int \<Rightarrow> int \<Rightarrow> loss_profile option" where
  "loss_profile_of a sz ticker_net = do {
     q \<leftarrow> quantile_bps a INSOLVENCY_TARGET_BPS;
     let q1 = max q 1;
     ux \<leftarrow> unwind_exposure_x100;
     m \<leftarrow> i128 (q1 * ux);
     let laddered = clamp 1 BPS (m sdiv 100);
     gap \<leftarrow> gap_quantile_bps a INSOLVENCY_TARGET_BPS;
     margin \<leftarrow> gapped_margin_bps laddered gap;
     let same_side = (if ticker_net = 0 then True else (ticker_net > 0) = (sz \<ge> 0));
     let capital = (if sz = 0 then 0 else if same_side then margin else - margin);
     t \<leftarrow> i128 (margin * LADDER_TRIGGER_BPS);
     let trigger = max (t sdiv BPS) 1;
     h \<leftarrow> hazard_bps trigger a;
     l \<leftarrow> lgd_bps trigger a;
     e \<leftarrow> i128 (h * l);
     let expected_loss = as_i64 (e sdiv TAIL_FINE);
     adv \<leftarrow> adverse_bps a (sz \<ge> 0);
     Some \<lparr>lp_margin_bps = margin, lp_capital_bps = capital,
           lp_expected_loss_bps = expected_loss,
           lp_premium_bps = sat_i64 (expected_loss + adv), lp_trigger_bps = trigger\<rparr>
   }"

definition margin_bps :: "actuary \<Rightarrow> int option" where
  "margin_bps a = do { lp \<leftarrow> loss_profile_of a 0 0; Some (lp_margin_bps lp) }"

subsection \<open>Rates\<close>

definition crowding_bps :: "actuary \<Rightarrow> int \<Rightarrow> int option" where
  "crowding_bps s amount =
     (let net = get_net s; total = get_total s in
      if total \<le> 0 \<or> amount = 0 then Some BPS
      else do {
        n \<leftarrow> i64 \<bar>net\<bar>;
        m \<leftarrow> i64 (n * BPS);
        q \<leftarrow> div_i64 m total;
        let lean = min q BPS;
        let same_side = (net > 0 \<and> amount > 0 \<or> net < 0 \<and> amount < 0);
        Some (if same_side then BPS + lean sdiv 2 else max (BPS sdiv 2) (BPS - lean sdiv 2))
      })"

definition solvency_bps :: "int \<Rightarrow> int \<Rightarrow> int option" where
  "solvency_bps deposits liability =
     (if deposits = 0 then Some (4 * BPS)
      else do {
        m \<leftarrow> u128 (liability * BPS);
        q \<leftarrow> div_u m deposits;
        Some (BPS + min q (4 * BPS))
      })"

definition ticker_reserve_dollars :: "int \<Rightarrow> actuary \<Rightarrow> int option" where
  "ticker_reserve_dollars net_value s = do {
     mg \<leftarrow> margin_bps s;
     let m = max mg 0;
     Some (min (sat_u128 (net_value * m) div BPS) U64_MAX)
   }"

definition hazard_rate_bps :: "int \<Rightarrow> int \<Rightarrow> int \<Rightarrow> actuary \<Rightarrow> int \<Rightarrow> int \<Rightarrow> int option" where
  "hazard_rate_bps distance collar amount s deposits liability = do {
     intensity \<leftarrow> hazard_bps distance s;
     lgd \<leftarrow> lgd_bps collar s;
     crowd \<leftarrow> crowding_bps s amount;
     solv \<leftarrow> solvency_bps deposits liability;
     x \<leftarrow> i128 (intensity * lgd);
     y \<leftarrow> i128 (x * crowd);
     z \<leftarrow> i128 (y * solv);
     Some (clamp 0 50000 (z sdiv (TAIL_FINE * BPS * BPS)))
   }"

definition rate_bps :: "int \<Rightarrow> int \<Rightarrow> actuary \<Rightarrow> int option" where
  "rate_bps util lev s = do {
     sig \<leftarrow> eff_sigma s;
     m \<leftarrow> i64 (sig * util);
     let base = m sdiv max 1 (BPS * BPS sdiv 4000);
     n \<leftarrow> i64 (lev * 100);
     let lev_norm = n sdiv max 1 MAX_LEVERAGE_PCT;
     lev_adj \<leftarrow> (if lev_norm > 50 then do { x \<leftarrow> i64 (base * (lev_norm - 50)); Some (x sdiv 200) }
                else Some 0);
     s \<leftarrow> i64 (base + lev_adj);
     Some (max MIN_FEE_BPS (min 50000 s))
   }"

subsection \<open>Funding\<close>

definition funding_rate_bps :: "actuary \<Rightarrow> int option" where
  "funding_rate_bps s =
     (let total = get_total s in
      if total \<le> 0 then Some 0
      else do {
        let net = get_net s;
        mg \<leftarrow> margin_bps s;
        let k = sat_i64 (mg * REQUIRED_RETURN_BPS) sdiv BPS;
        d \<leftarrow> i128 (total * FUNDING_DEADBAND_BPS);
        let deadband = max (d sdiv BPS) 1;
        m \<leftarrow> i128 (k * net);
        n \<leftarrow> i128 \<bar>net\<bar>;
        q \<leftarrow> div_i128 m (max n deadband);
        Some (as_i64 q)
      })"

definition accrue_premium_index :: "actuary \<Rightarrow> int \<Rightarrow> int \<Rightarrow> actuary option" where
  "accrue_premium_index a now util_bps =
     (if index_updated a = 0 then Some (a\<lparr>index_updated := now\<rparr>)
      else do {
        d \<leftarrow> i64 (now - index_updated a);
        let dt = max d 0;
        if dt = 0 then Some a
        else do {
          r \<leftarrow> rate_bps util_bps 100 a;
          let base = as_u128 r;
          let a = a\<lparr>premium_index := sat_u128 (premium_index a + sat_u128 (base * dt))\<rparr>;
          f \<leftarrow> funding_rate_bps a;
          m \<leftarrow> i128 (f * dt);
          Some (a\<lparr>funding_index := sat_i128 (funding_index a + m), index_updated := now\<rparr>)
        }
      })"

record ticker_risk =
  tr_ticker :: string
  risk_actuary :: actuary
  tr_bump :: int
  funding_pot :: int
  tr_reserved :: int

definition funding_owed :: "ticker_risk \<Rightarrow> int \<Rightarrow> int \<Rightarrow> (int \<times> int) option" where
  "funding_owed risk signed_value checkpoint =
     (let index = funding_index (risk_actuary risk) in
      if signed_value = 0 then Some (0, index)
      else let delta = sat_i128 (index - checkpoint) in
      if delta = 0 then Some (0, index)
      else do {
        n \<leftarrow> i128 (- sat_i128 (signed_value * delta));
        let owed = n sdiv (BPS * SECONDS_PER_YEAR);
        Some (clamp I64_MIN I64_MAX owed, index)
      })"

subsection \<open>Leverage, collar and fees\<close>

definition max_leverage_pct :: "actuary \<Rightarrow> int \<Rightarrow> int \<Rightarrow> int option" where
  "max_leverage_pct s slot util = do {
     let class_max = MAX_LEVERAGE_PCT;
     let floor = STARTING_FLOOR_BPS;
     sig \<leftarrow> eff_sigma s;
     d \<leftarrow> i64 (slot - last_price_slot s);
     let staleness = max 0 d;
     if staleness > 3000 then Some 110
     else do {
       let k = class_max * (BPS + 8 * floor) sdiv BPS;
       v \<leftarrow> i64 (8 * sig);
       w \<leftarrow> i64 (BPS + v);
       base \<leftarrow> div_i64 (k * BPS) w;
       sm \<leftarrow> staleness_mult s slot;
       x \<leftarrow> i64 (100 - sm);
       x \<leftarrow> i64 (x * base);
       let stale_penalty = max 0 (x sdiv 200);
       cf \<leftarrow> confidence s;
       y \<leftarrow> i64 (100 - cf);
       y \<leftarrow> i64 (base * y);
       let conf_penalty = y sdiv 300;
       util_penalty \<leftarrow> (if util > 7500 then do {
                         u \<leftarrow> i64 (util - 7500);
                         z \<leftarrow> i64 (base * u);
                         Some (z sdiv 10000)
                       }
                       else Some 0);
       r \<leftarrow> i64 (base - stale_penalty);
       r \<leftarrow> i64 (r - conf_penalty);
       result \<leftarrow> i64 (r - util_penalty);
       Some (max 110 (min class_max result))
     }
   }"

definition collar_bps :: "int \<Rightarrow> actuary \<Rightarrow> int option" where
  "collar_bps lev s = do {
     sig \<leftarrow> eff_sigma s;
     if sig = 0 then Some STARTING_FLOOR_BPS
     else do {
       es \<leftarrow> (if shortfall_bps s > 0 then Some (shortfall_bps s)
             else expected_shortfall_bps s COLLAR_BREACH_BPS);
       base \<leftarrow> (if lev > 0 then do { m \<leftarrow> i64 (es * 100); div_i64 m lev } else Some es);
       Some (max sig (min MAX_COLLAR_BPS base))
     }
   }"

definition compound_factor :: "int \<Rightarrow> int \<Rightarrow> int \<Rightarrow> actuary \<Rightarrow> int option" where
  "compound_factor expo amount lev s = do {
     (is_adding, is_hedging) \<leftarrow> classify s expo amount;
     le \<leftarrow> i64 (lev - LEV_THRESHOLD);
     let lev_excess = max 0 le;
     im \<leftarrow> imbalance_bps s;
     im \<leftarrow> i64 \<bar>im\<bar>;
     let imb_mag = min BPS im;
     jump \<leftarrow> jump_regime s;
     x \<leftarrow> i64 (lev_excess * imb_mag);
     if is_adding then do {
       y \<leftarrow> i64 (lev_excess * jump);
       if \<not> is_hedging then do {
         penalty \<leftarrow> i64 (x sdiv (BPS * 15) + y sdiv 400);
         t \<leftarrow> i64 (100 + max 10 penalty);
         Some (min 300 t)
       }
       else do {
         penalty \<leftarrow> i64 (x sdiv (BPS * 30) + y sdiv 600);
         t \<leftarrow> i64 (100 + max 3 penalty);
         Some (min 200 t)
       }
     }
     else if \<not> is_hedging then do {
       let penalty = x sdiv (BPS * 40);
       t \<leftarrow> i64 (100 + penalty);
       Some (min 150 t)
     }
     else do {
       let discount = x sdiv (BPS * 50);
       t \<leftarrow> i64 (100 - discount);
       Some (max 70 t)
     }
   }"

definition spread_bps :: "actuary \<Rightarrow> int \<Rightarrow> int \<Rightarrow> int option" where
  "spread_bps s sig trade_size = do {
     t \<leftarrow> i64 (trade_size * BPS);
     u \<leftarrow> i64 (get_total s + trade_size);
     f \<leftarrow> div_i64 t (max 1 u);
     let pool_frac = min BPS f;
     sqrt_frac \<leftarrow> newton_sqrt pool_frac;
     v \<leftarrow> i64 (sqrt_frac * 50);
     impact_mult \<leftarrow> i64 (100 + v sdiv 100);
     im \<leftarrow> imbalance_bps s;
     imb_abs \<leftarrow> i64 \<bar>im\<bar>;
     w \<leftarrow> i64 (imb_abs * imb_abs);
     info_mult \<leftarrow> i64 (100 + w sdiv (BPS * 50));
     x \<leftarrow> i64 (sig * impact_mult);
     y \<leftarrow> i64 (x * info_mult);
     Some (y sdiv (10000 * 150))
   }"

definition mom_mult :: "actuary \<Rightarrow> bool \<Rightarrow> int" where
  "mom_mult s is_adding_risk =
     (if momentum_bps s < 0 then
        (let cascade_intensity = sat_i64 (- momentum_bps s) in
         if is_adding_risk then 100 + min 150 (cascade_intensity sdiv 15)
         else max 70 (100 - min 30 (cascade_intensity sdiv 333)))
      else 100)"

definition fee_bps :: "int \<Rightarrow> int \<Rightarrow> int \<Rightarrow> actuary \<Rightarrow> int \<Rightarrow> int \<Rightarrow> int option" where
  "fee_bps conc expo amount s lev distance = do {
     sig \<leftarrow> eff_sigma s;
     if sig = 0 then Some MIN_FEE_BPS
     else do {
       b \<leftarrow> i64 \<bar>amount\<bar>;
       m \<leftarrow> i128 (b * lev);
       let trade_size = as_i64 (m sdiv 100);
       if trade_size = 0 then Some MIN_FEE_BPS
       else do {
         spread \<leftarrow> spread_bps s sig trade_size;
         (is_adding_risk, _) \<leftarrow> classify s expo amount;
         intensity \<leftarrow> hazard_bps distance s;
         sl \<leftarrow> i64 (sig * lev);
         bi \<leftarrow> i64 (BPS + intensity);
         let lev_fee = (if is_adding_risk
                        then sat_i64 (sl sdiv max 1 (MAX_LEVERAGE_PCT * 10) * bi) sdiv BPS
                        else 0);
         let conc_bps = max 2 (conc sdiv 300);
         collar \<leftarrow> collar_bps lev s;
         lgd \<leftarrow> lgd_bps collar s;
         g \<leftarrow> i128 (intensity * lgd);
         g \<leftarrow> i128 (g * MIN_HOLD_SECS);
         let gap_bps = as_i64 (g sdiv (BPS * SECONDS_PER_YEAR));
         v \<leftarrow> i64 (velocity s * velocity s);
         let vel_bps = v sdiv 1000;
         base \<leftarrow> i64 (spread + lev_fee);
         base \<leftarrow> i64 (base + conc_bps);
         base \<leftarrow> i64 (base + gap_bps);
         base \<leftarrow> i64 (base + vel_bps);
         cf \<leftarrow> compound_factor expo amount lev s;
         t \<leftarrow> i64 (base * cf);
         t \<leftarrow> i64 (t sdiv 100 * mom_mult s is_adding_risk);
         let total = t sdiv 100;
         let dynamic_cap = max 200 (sl sdiv max 1 MAX_LEVERAGE_PCT);
         Some (max MIN_FEE_BPS (min dynamic_cap total))
       }
     }
   }"

subsection \<open>Hazard and severity\<close>

lemma hazard_ok:
  assumes "fit_wf s" "d \<le> 1048576"
  shows "ok (hazard_bps d s) (\<lambda>h. 0 \<le> h \<and> h \<le> TAIL_FINE)"
  unfolding hazard_bps_def ok_bind
  by (rule ok_mono[OF tail_prob_fine_ok[OF assms(1)]])
     (use assms(2) in \<open>auto simp: wp is_i64_def\<close>)

lemma hazard_value:
  assumes "fit_wf s"
  obtains n beta u zeta where "tail_params (n, beta, u, zeta)"
    "\<And>d. d \<le> 1048576 \<Longrightarrow> hazard_bps d s = Some (min TAIL_FINE (2 * tail_spec (max 0 d) n beta u zeta))"
proof -
  obtain n beta u zeta sg where f: "gpd_params s = Some (n, beta)" "pot_threshold s = Some u"
    "exceedance_rate_bps s = Some zeta" "eff_sigma s = Some sg" "tail_params (n, beta, u, zeta)"
    using fit_params[OF assms] by metis
  have "hazard_bps d s = Some (min TAIL_FINE (2 * tail_spec (max 0 d) n beta u zeta))" if "d \<le> 1048576" for d
  proof -
    have "is_i64 (2 * tail_spec (max 0 d) n beta u zeta)"
      using tail_spec_bounds[OF f(5), of "max 0 d"] by (simp add: is_i64_def)
    then show ?thesis
      using that f(1-3) tail_at_fine_spec[OF f(5), of "max 0 d"]
      by (simp add: hazard_bps_def tail_prob_fine_def)
  qed
  with f(5) that show thesis by blast
qed

lemma hazard_antitone:
  assumes "fit_wf s" "d \<le> d'" "d' \<le> 1048576"
  shows "ok (hazard_bps d' s) (\<lambda>h'. ok (hazard_bps d s) (\<lambda>h. h' \<le> h))"
proof -
  obtain n beta u zeta where h: "tail_params (n, beta, u, zeta)"
    "\<And>d. d \<le> 1048576 \<Longrightarrow> hazard_bps d s = Some (min TAIL_FINE (2 * tail_spec (max 0 d) n beta u zeta))"
    using hazard_value[OF assms(1)] by blast
  have "tail_spec (max 0 d') n beta u zeta \<le> tail_spec (max 0 d) n beta u zeta"
    by (rule tail_spec_antitone[OF h(1)]) (use assms in auto)
  then show ?thesis using h(2)[of d] h(2)[of d'] assms by auto
qed

lemma lgd_ok:
  assumes "fit_wf s" "-1048576 \<le> c" "c \<le> 1048576"
  shows "ok (lgd_bps c s) (\<lambda>l. 1 \<le> l \<and> l \<le> 1708576)"
  unfolding lgd_bps_def ok_bind
proof (rule ok_mono[OF bounded_mean_excess_ok[OF assms]])
  fix m assume "1 \<le> m \<and> m \<le> 1708576 \<and> (net_exposure s < 0 \<longrightarrow> m \<le> max 1 (BPS - c))"
  then have "1 \<le> m" "m \<le> 1708576" by auto
  moreover from this have "m * 9815 sdiv BPS \<le> 1708576" by (simp add: sdiv_nonneg)
  ultimately show "ok (let residual = BPS - min BPS MAX_TRANCHE_BPS in
      i64 (m * residual) \<bind> (\<lambda>m. Some (max 1 (m sdiv BPS)))) (\<lambda>l. 1 \<le> l \<and> l \<le> 1708576)"
    by (simp add: wp is_i64_def)
qed

subsection \<open>The margin\<close>

lemma sqrt_hypot_ok:
  assumes "0 \<le> l" "l \<le> BPS" "0 \<le> g" "g \<le> BPS"
  shows "ok (sqrt_x100 (l * l + g * g)) (\<lambda>r. 1 \<le> r \<and> 100 * l \<le> r)"
proof -
  have s: "0 \<le> l * l" "l * l \<le> BPS * BPS" "0 \<le> g * g" "g * g \<le> BPS * BPS"
    using assms mult_mono[of l BPS l BPS] mult_mono[of g BPS g BPS] by simp_all
  show ?thesis
  proof (rule ok_mono[OF sqrt_x100_ok])
    show "l * l + g * g \<le> 461168601842738" using s by linarith
    fix r assume r: "1 \<le> r \<and> r * r \<le> max (l * l + g * g) 1 * 10000 \<and>
      max (l * l + g * g) 1 * 10000 < (r + 1) * (r + 1)"
    have "\<not> r < 100 * l"
    proof
      assume "r < 100 * l"
      then have "(r + 1) * (r + 1) \<le> (100 * l) * (100 * l)" using r by (intro mult_mono) auto
      also have "\<dots> = (l * l) * 10000" by simp
      also have "\<dots> \<le> max (l * l + g * g) 1 * 10000" using s(3) by (intro mult_right_mono) linarith+
      finally show False using r by simp
    qed
    then show "1 \<le> r \<and> 100 * l \<le> r" using r by simp
  qed
qed

lemma gapped_margin_ok:
  assumes "1 \<le> l" "l \<le> BPS" "0 \<le> g" "g \<le> BPS"
  shows "ok (gapped_margin_bps l g) (\<lambda>m. l \<le> m \<and> m \<le> BPS)"
proof (cases "g \<le> 0")
  case True
  then show ?thesis using assms by (simp add: gapped_margin_bps_def)
next
  case False
  have s: "0 \<le> l * l" "l * l \<le> BPS * BPS" "0 \<le> g * g" "g * g \<le> BPS * BPS"
    using assms mult_mono[of l BPS l BPS] mult_mono[of g BPS g BPS] by simp_all
  have r: "is_i128 (l * l)" "is_i128 (g * g)" "is_i128 (l * l + g * g)" "min (l * l + g * g) I64_MAX = l * l + g * g"
    using s unfolding is_i128_def by linarith+
  have h: "ok (sqrt_x100 (l * l + g * g)) (\<lambda>r. 1 \<le> r \<and> 100 * l \<le> r)" using sqrt_hypot_ok[of l g] assms by simp
  have fin: "l \<le> clamp 1 BPS (x sdiv 100) \<and> clamp 1 BPS (x sdiv 100) \<le> BPS" if "1 \<le> x \<and> 100 * l \<le> x" for x
  proof -
    have "l \<le> x div 100" using that by linarith
    then have "l \<le> x sdiv 100" using that by (simp add: sdiv_nonneg)
    then show ?thesis using assms by (auto simp: clamp_def)
  qed
  show ?thesis
    unfolding gapped_margin_bps_def using False r
    by (simp add: ok_bind ok_Let) (rule ok_mono[OF h fin])
qed

lemma loss_profile_ok:
  assumes "fit_wf a" "gap_wf a" "meter_wf a"
  shows "ok (loss_profile_of a sz net) (\<lambda>lp. 1 \<le> lp_margin_bps lp \<and> lp_margin_bps lp \<le> BPS \<and>
    \<bar>lp_capital_bps lp\<bar> \<le> lp_margin_bps lp \<and> 0 \<le> lp_expected_loss_bps lp \<and>
    lp_expected_loss_bps lp \<le> lp_premium_bps lp \<and> lp_premium_bps lp \<le> 1718576 \<and>
    1 \<le> lp_trigger_bps lp \<and> lp_trigger_bps lp \<le> lp_margin_bps lp)"
proof -
  obtain q where q: "quantile_bps a INSOLVENCY_TARGET_BPS = Some q" "1 \<le> q" "q \<le> 500000"
    using okD[OF quantile_ok[OF assms(1)]] by blast
  have qr: "is_i128 (max q 1 * 519)" using q by (simp add: is_i128_def)
  define l where "l = clamp 1 BPS (max q 1 * 519 sdiv 100)"
  have l: "1 \<le> l" "l \<le> BPS" by (simp_all add: l_def clamp_def)
  obtain g where g: "gap_quantile_bps a INSOLVENCY_TARGET_BPS = Some g" "0 \<le> g" "g \<le> BPS"
    using okD[OF gap_quantile_ok[OF assms(1)]] assms(2) by (auto simp: gap_wf_def)
  obtain m where m: "gapped_margin_bps l g = Some m" "l \<le> m" "m \<le> BPS"
    using okD[OF gapped_margin_ok[OF l g(2,3)]] by blast
  have mr: "is_i128 (m * 5000)" using m l by (simp add: is_i128_def)
  define t where "t = max (m * 5000 sdiv BPS) 1"
  have t: "1 \<le> t" "t \<le> m" "t \<le> BPS" using m l by (auto simp: t_def sdiv_nonneg)
  obtain h where h: "hazard_bps t a = Some h" "0 \<le> h" "h \<le> TAIL_FINE"
    using okD[OF hazard_ok[OF assms(1), of t]] t by auto
  obtain d where d: "lgd_bps t a = Some d" "1 \<le> d" "d \<le> 1708576"
    using okD[OF lgd_ok[OF assms(1), of t]] t by auto
  have hd: "0 \<le> h * d" "h * d \<le> TAIL_FINE * 1708576"
    using h d mult_mono[of h TAIL_FINE d 1708576] by simp_all
  have "h * d sdiv TAIL_FINE = h * d div TAIL_FINE" using hd by (simp add: sdiv_nonneg)
  then have e: "0 \<le> h * d sdiv TAIL_FINE" "h * d sdiv TAIL_FINE \<le> 1708576"
    using hd by (simp_all add: div_nonneg div_le_bound)
  have x: "- BPS \<le> experience_bps a" "experience_bps a \<le> BPS" using assms(3) by (simp_all add: meter_wf_def)
  obtain v where v: "adverse_bps a (sz \<ge> 0) = Some v" "0 \<le> v" "v \<le> BPS"
    using x by (cases "sz \<ge> 0") (auto simp: adverse_bps_def is_i64_def clamp_def)
  have er: "is_i128 (h * d)" "as_i64 (h * d sdiv TAIL_FINE) = h * d sdiv TAIL_FINE"
    "sat_i64 (h * d sdiv TAIL_FINE + v) = h * d sdiv TAIL_FINE + v"
    using hd e v by (simp_all add: is_i128_def as_i64_id sat_i64_id is_i64_def)
  let ?c = "if sz = 0 then 0 else if (if net = 0 then True else (net > 0) = (sz \<ge> 0)) then m else - m"
  have "loss_profile_of a sz net = Some \<lparr>lp_margin_bps = m, lp_capital_bps = ?c,
      lp_expected_loss_bps = h * d sdiv TAIL_FINE, lp_premium_bps = h * d sdiv TAIL_FINE + v, lp_trigger_bps = t\<rparr>"
    unfolding loss_profile_of_def Let_def q(1) Option.bind_lunit unwind_exposure_value i128_ok[OF qr]
      l_def[symmetric] g(1) m(1) i128_ok[OF mr] t_def[symmetric] h(1) d(1) i128_ok[OF er(1)] v(1) er(2,3) ..
  moreover have "\<bar>?c\<bar> \<le> m" using m l by auto
  ultimately show ?thesis using m l t e v by simp
qed

lemma margin_ok:
  assumes "fit_wf a" "gap_wf a" "meter_wf a"
  shows "ok (margin_bps a) (\<lambda>m. 1 \<le> m \<and> m \<le> BPS)"
  unfolding margin_bps_def ok_bind
  by (rule ok_mono[OF loss_profile_ok[OF assms]]) simp

subsection \<open>Funding\<close>

text \<open>
  Where the numbers stay in range, the rate is \<open>k\<close>, the return on the margin, times the net
  lean of the book, damped below the deadband.
\<close>

definition funding_spec :: "int \<Rightarrow> int \<Rightarrow> int \<Rightarrow> int" where
  "funding_spec margin net oi =
     (if oi \<le> 0 then 0
      else (margin * REQUIRED_RETURN_BPS sdiv BPS * net)
             sdiv max \<bar>net\<bar> (max (oi * FUNDING_DEADBAND_BPS sdiv BPS) 1))"

lemma funding_rate_spec:
  assumes "margin_bps s = Some m" "1 \<le> m" "m \<le> BPS" "book_wf s"
  shows "funding_rate_bps s = Some (funding_spec m (get_net s) (get_total s))"
proof (cases "get_total s \<le> 0")
  case True
  then show ?thesis by (simp add: funding_rate_bps_def funding_spec_def)
next
  case False
  have b: "- 9223372036854775808 \<le> get_net s" "get_net s \<le> I64_MAX" "get_total s \<le> I64_MAX"
    using assms(4) by (simp_all add: book_wf_def is_i64_def)
  define k where "k = m * REQUIRED_RETURN_BPS sdiv BPS"
  have k: "0 \<le> k" "k \<le> 1500" using assms(2,3) by (simp_all add: k_def sdiv_nonneg)
  have sat: "sat_i64 (m * REQUIRED_RETURN_BPS) sdiv BPS = k"
    using assms(2,3) by (simp add: k_def sat_i64_id is_i64_def)
  have tot: "is_i128 (get_total s * FUNDING_DEADBAND_BPS)" using b False by (simp add: is_i128_def)
  have net: "is_i128 \<bar>get_net s\<bar>" using b unfolding is_i128_def by linarith
  have "\<bar>k * get_net s\<bar> \<le> 1500 * 9223372036854775808"
    unfolding abs_mult by (rule mult_mono) (use k b in auto)
  then have kn: "is_i128 (k * get_net s)" unfolding is_i128_def by linarith
  define dn where "dn = max \<bar>get_net s\<bar> (max (get_total s * FUNDING_DEADBAND_BPS sdiv BPS) 1)"
  have dn: "1 \<le> dn" "\<bar>get_net s\<bar> \<le> dn" by (auto simp: dn_def)
  define q where "q = k * get_net s sdiv dn"
  have "\<bar>k * get_net s\<bar> div dn \<le> 1500"
    by (rule div_le_bound) (use dn k in \<open>auto simp: abs_mult intro: mult_mono\<close>)
  then have "\<bar>q\<bar> \<le> 1500" using dn by (simp add: q_def abs_sdiv)
  then have "is_i128 q" "is_i64 q" unfolding is_i128_def is_i64_def by linarith+
  then have qr: "is_i128 q" "as_i64 q = q" by (simp_all add: as_i64_id)
  have "funding_rate_bps s = Some q"
    unfolding funding_rate_bps_def Let_def assms(1) Option.bind_lunit sat i128_ok[OF tot] i128_ok[OF net]
      i128_ok[OF kn] div_i128_def
    using False dn qr by (simp flip: dn_def q_def)
  moreover have "q = funding_spec m (get_net s) (get_total s)"
    using False by (simp add: q_def dn_def k_def funding_spec_def)
  ultimately show ?thesis by simp
qed

lemma funding_spec_bound:
  assumes "1 \<le> m" "m \<le> BPS"
  shows "\<bar>funding_spec m net oi\<bar> \<le> REQUIRED_RETURN_BPS"
proof (cases "oi \<le> 0")
  case False
  define k where "k = m * REQUIRED_RETURN_BPS sdiv BPS"
  have k: "0 \<le> k" "k \<le> 1500" using assms by (simp_all add: k_def sdiv_nonneg)
  define dn where "dn = max \<bar>net\<bar> (max (oi * FUNDING_DEADBAND_BPS sdiv BPS) 1)"
  have dn: "1 \<le> dn" "\<bar>net\<bar> \<le> dn" by (auto simp: dn_def)
  have "\<bar>k * net\<bar> div dn \<le> 1500"
    by (rule div_le_bound) (use dn k in \<open>auto simp: abs_mult intro: mult_mono\<close>)
  then show ?thesis using False dn by (simp add: funding_spec_def abs_sdiv flip: k_def dn_def)
qed (simp add: funding_spec_def)

lemma funding_spec_odd: "funding_spec m (- net) oi = - funding_spec m net oi"
  by (simp add: funding_spec_def sdiv_minus_left)

lemma funding_spec_sign:
  assumes "1 \<le> m" "0 \<le> net"
  shows "0 \<le> funding_spec m net oi"
proof -
  have "0 \<le> m * REQUIRED_RETURN_BPS sdiv BPS * net"
    using assms by (intro mult_nonneg_nonneg sdiv_nonneg_nonneg) auto
  then show ?thesis by (auto simp: funding_spec_def intro: sdiv_nonneg_nonneg)
qed

lemma funding_owed_spec:
  assumes "is_i64 v" "is_i128 ckpt" "\<bar>v * (funding_index (risk_actuary r) - ckpt)\<bar> \<le> I128_MAX"
    "is_i128 (funding_index (risk_actuary r) - ckpt)"
  shows "funding_owed r v ckpt = Some
    (clamp I64_MIN I64_MAX (- (v * (funding_index (risk_actuary r) - ckpt)) sdiv (BPS * SECONDS_PER_YEAR)),
     funding_index (risk_actuary r))"
proof -
  let ?d = "funding_index (risk_actuary r) - ckpt"
  have "is_i128 (v * ?d)" "is_i128 (- (v * ?d))"
    using assms(3) unfolding is_i128_def by linarith+
  then have "sat_i128 (v * ?d) = v * ?d" "i128 (- (v * ?d)) = Some (- (v * ?d))" by (simp_all add: sat_i128_id)
  then show ?thesis
    using assms(4) by (simp add: funding_owed_def Let_def sat_i128_id clamp_def)
qed

subsection \<open>The premium rate and the indices\<close>

lemma rate_ok:
  assumes "fit_wf s" "0 \<le> util" "util \<le> 100000000" "0 \<le> lev" "lev \<le> 100000"
  shows "ok (rate_bps util lev s) (\<lambda>r. MIN_FEE_BPS \<le> r \<and> r \<le> 50000)"
  unfolding rate_bps_def ok_bind
proof (rule ok_mono[OF eff_sigma_ok[OF assms(1)]], goal_cases)
  case (1 sig)
  then have sig: "0 \<le> sig" "sig \<le> BPS" using fit_wfD(3)[OF assms(1)] by auto
  define b where "b = sig * util sdiv 25000"
  have su: "0 \<le> sig * util" "sig * util \<le> BPS * 100000000"
    using sig assms mult_mono[of sig BPS util 100000000] by simp_all
  then have b: "0 \<le> b" "b \<le> 40000000" by (simp_all add: b_def sdiv_nonneg)
  define n where "n = lev * 100 sdiv 1000"
  have n: "0 \<le> n" "n \<le> 10000" using assms by (simp_all add: n_def sdiv_nonneg)
  have adj: "0 \<le> b * (n - 50)" "b * (n - 50) \<le> 40000000 * 9950" if "50 < n"
    using that b n mult_mono[of b 40000000 "n - 50" 9950] by simp_all
  have r: "is_i64 (sig * util)" "is_i64 (lev * 100)" using su assms by (simp_all add: is_i64_def)
  have r2: "is_i64 (b * (n - 50))" "is_i64 (b + b * (n - 50) sdiv 200)" if "50 < n"
    using adj[OF that] b by (auto simp: is_i64_def sdiv_nonneg)
  have r3: "is_i64 b" using b by (simp add: is_i64_def)
  show ?case
    using r r2 r3 unfolding b_def n_def by (simp add: wp signed_divide_int_def)
qed

lemma rate_nonneg_as_u128: "4 \<le> r \<Longrightarrow> r \<le> 50000 \<Longrightarrow> as_u128 r = r"
  by (simp add: as_u128_id is_u128_def)

lemma fit_wf_index [simp]:
  "fit_wf (a\<lparr>premium_index := x\<rparr>) = fit_wf a" "gap_wf (a\<lparr>premium_index := x\<rparr>) = gap_wf a"
  "meter_wf (a\<lparr>premium_index := x\<rparr>) = meter_wf a" "book_wf (a\<lparr>premium_index := x\<rparr>) = book_wf a"
  by (simp_all add: wf_defs)

text \<open>
  Accrual never fails, only ever adds to the premium index, and leaves everything but the
  two indices and their clock alone.
\<close>

lemma accrue_premium_index_ok:
  assumes "engine_wf slot a" "0 \<le> util" "util \<le> 100000000" "0 \<le> index_updated a" "index_updated a \<le> 4611686018427387904"
    "0 \<le> now" "now \<le> 4611686018427387904" "0 \<le> premium_index a" "premium_index a \<le> U128_MAX"
  shows "ok (accrue_premium_index a now util) (\<lambda>a'. \<exists>p f t.
    a' = a\<lparr>premium_index := p, funding_index := f, index_updated := t\<rparr> \<and>
    premium_index a \<le> p \<and> p \<le> U128_MAX \<and> t = max (index_updated a) now)"
proof -
  have w: "fit_wf a" "gap_wf a" "meter_wf a" "book_wf a" using assms(1) by (simp_all add: engine_wf_def actuary_wf_def)
  define P where "P a' \<longleftrightarrow> (\<exists>p f t.
    a' = a\<lparr>premium_index := p, funding_index := f, index_updated := t\<rparr> \<and>
    premium_index a \<le> p \<and> p \<le> U128_MAX \<and> t = max (index_updated a) now)" for a'
  have P: "P (a\<lparr>premium_index := p, funding_index := f, index_updated := t\<rparr>)"
    if "premium_index a \<le> p" "p \<le> U128_MAX" "t = max (index_updated a) now" for p f t
    using that unfolding P_def by blast
  have stay: "P (a\<lparr>index_updated := t\<rparr>)" if "t = max (index_updated a) now" for t
    using P[of "premium_index a" t "funding_index a"] that assms(9) by simp
  have "ok (accrue_premium_index a now util) P"
  proof (cases "index_updated a = 0 \<or> now \<le> index_updated a")
    case True
    have "is_i64 (now - index_updated a)" using assms by (simp add: is_i64_def)
    then show ?thesis
      using True stay[of now] stay[of "index_updated a"] assms(6)
      by (auto simp: accrue_premium_index_def)
  next
    case False
    define dt where "dt = now - index_updated a"
    have dt: "0 < dt" "dt \<le> 4611686018427387904" "is_i64 dt"
      using False assms by (auto simp: dt_def is_i64_def)
    obtain r where r: "rate_bps util 100 a = Some r" "4 \<le> r" "r \<le> 50000"
      using okD[OF rate_ok[OF w(1) assms(2,3), of 100]] by auto
    have rd: "0 \<le> r * dt" using r dt by simp
    define p where "p = sat_u128 (premium_index a + sat_u128 (r * dt))"
    have p: "premium_index a \<le> p" "p \<le> U128_MAX"
      using assms(8,9) rd by (auto simp: p_def sat_u128_def clamp_def)
    define b where "b = a\<lparr>premium_index := p\<rparr>"
    have wb: "fit_wf b" "gap_wf b" "meter_wf b" "book_wf b" using w by (simp_all add: b_def)
    obtain m where m: "margin_bps b = Some m" "1 \<le> m" "m \<le> BPS" using okD[OF margin_ok[OF wb(1-3)]] by blast
    define f where "f = funding_spec m (get_net b) (get_total b)"
    have f: "funding_rate_bps b = Some f" "\<bar>f\<bar> \<le> 1500"
      using funding_rate_spec[OF m wb(4)] funding_spec_bound[OF m(2,3)] by (simp_all add: f_def)
    have "\<bar>f * dt\<bar> \<le> 1500 * 4611686018427387904"
      unfolding abs_mult by (rule mult_mono) (use f dt in auto)
    then have fd: "is_i128 (f * dt)" unfolding is_i128_def by linarith
    have "accrue_premium_index a now util =
      Some (a\<lparr>premium_index := p, funding_index := sat_i128 (funding_index a + f * dt), index_updated := now\<rparr>)"
      unfolding accrue_premium_index_def dt_def[symmetric] i64_ok[OF dt(3)] Option.bind_lunit Let_def
        r(1) rate_nonneg_as_u128[OF r(2,3)]
      using False dt f(1) fd by (simp add: b_def p_def)
    moreover have "now = max (index_updated a) now" using False by simp
    ultimately show ?thesis using P[OF p] by simp
  qed
  then show ?thesis unfolding P_def .
qed

subsection \<open>The life of a ticker\<close>

text \<open>Nothing in the price engine touches the momentum; only trades do.\<close>

abbreviation keeps_momentum :: "actuary \<Rightarrow> actuary option \<Rightarrow> bool" where
  "keeps_momentum a m \<equiv> part m (\<lambda>a'. momentum_bps a' = momentum_bps a)"

lemmas estimator_parts = part_checked part_any[of _ "vol_floor a" for a]
  part_any[of _ "fade_loop k f d" for k f d] part_any[of _ "ewma x y z" for x y z]
  part_any[of _ "twap_alpha_bps t" for t] part_any[of _ "raw_change_bps p q" for p q]
  part_any[of _ "sqrt_x100 n" for n] part_any[of _ "pot_threshold a" for a]
  part_any[of _ "expected_shortfall_bps a p" for a p] part_any[of _ "remark p q r" for p q r]
  part_any[of _ "rate_bps u l a" for u l a] part_any[of _ "funding_rate_bps a" for a]

lemma momentum_frames:
  "keeps_momentum a (fade_drawdown a dt)"
  "keeps_momentum a (observe_gap a c dt)"
  "keeps_momentum a (decay_activity a dt)"
  "keeps_momentum a (observe_jump a c)"
  "keeps_momentum a (record_exceedance a c)"
  "keeps_momentum a (remark_book a price old)"
  "keeps_momentum a (update_first a price slot)"
  "keeps_momentum a (record_outcome a pnl notional long)"
  "keeps_momentum a (accrue_premium_index a unix util)"
  "part (sample_window a price slot) (\<lambda>(a', _). momentum_bps a' = momentum_bps a)"
  by (auto simp: fade_drawdown_def observe_gap_def decay_activity_def observe_jump_def
      sample_window_def record_exceedance_def remark_book_def update_first_def record_outcome_def
      accrue_premium_index_def part_simps intro!: estimator_parts)

lemma learn_change_momentum: "keeps_momentum a (learn_change a c down)"
  by (auto simp: learn_change_def part_simps intro!: estimator_parts part_mono[OF momentum_frames(5)])

lemma observe_window_momentum: "keeps_momentum a (observe_window a dt floor sampled c down)"
  by (auto simp: observe_window_def part_simps
      intro!: estimator_parts part_mono[OF momentum_frames(1)] part_mono[OF learn_change_momentum])

lemma update_gap_momentum: "keeps_momentum a (update_gap a price slot dt c floor)"
  by (auto simp: update_gap_def part_simps
      intro!: estimator_parts part_mono[OF momentum_frames(1)] part_mono[OF momentum_frames(2)]
        part_mono[OF momentum_frames(3)])

lemma update_session_momentum: "keeps_momentum a (update_session a price slot old dt c floor)"
  by (auto simp: update_session_def part_simps
      intro!: estimator_parts part_mono[OF momentum_frames(3)] part_mono[OF momentum_frames(4)]
        part_mono[OF momentum_frames(10)] part_mono[OF observe_window_momentum])

lemma update_price_momentum: "keeps_momentum a (update_price a price slot)"
  by (auto simp: update_price_def part_simps
      intro!: estimator_parts momentum_frames part_mono[OF momentum_frames(6)]
        part_mono[OF update_gap_momentum] part_mono[OF update_session_momentum])

text \<open>
  Every way the program changes a ticker's statistics: a print, a trade, the outcome of a
  closed trade, and the accrual of the indices. A step that fails aborts its transaction, so
  only the steps that return appear. \<open>now\<close> is the slot of the last print, trade or start.
\<close>

inductive ticker_reach :: "int \<Rightarrow> actuary \<Rightarrow> bool" where
  start: "ticker_reach 0 actuary_default"
| bootstrap: "ticker_reach slot a \<Longrightarrow> ticker_reach slot (a\<lparr>obs_count := 10\<rparr>)"
| wait: "ticker_reach now a \<Longrightarrow> now \<le> slot \<Longrightarrow> slot \<le> 4611686018427387904 \<Longrightarrow> ticker_reach slot a"
| print: "ticker_reach slot a \<Longrightarrow> 0 < price \<Longrightarrow> price \<le> I64_MAX \<Longrightarrow>
    update_price a price slot = Some a' \<Longrightarrow> ticker_reach slot a'"
| trade: "ticker_reach slot a \<Longrightarrow> record_activity a expo vd slot sz pool = Some a' \<Longrightarrow> ticker_reach slot a'"
| outcome: "ticker_reach slot a \<Longrightarrow> is_i64 pnl \<Longrightarrow>
    record_outcome a pnl notional long = Some a' \<Longrightarrow> ticker_reach slot a'"
| accrue: "ticker_reach slot a \<Longrightarrow> accrue_premium_index a unix util = Some a' \<Longrightarrow> ticker_reach slot a'"

lemma engine_wf_index [simp]:
  "engine_wf now (a\<lparr>premium_index := x\<rparr>) = engine_wf now a"
  "engine_wf now (a\<lparr>funding_index := x\<rparr>) = engine_wf now a"
  "engine_wf now (a\<lparr>index_updated := x\<rparr>) = engine_wf now a"
  by (simp_all add: wf_defs)

lemma accrue_frame: "part (accrue_premium_index a unix util) (\<lambda>a'. engine_wf now a' = engine_wf now a)"
  by (auto simp: accrue_premium_index_def part_simps intro!: estimator_parts)

lemma record_outcome_wf:
  assumes "record_outcome a pnl notional long = Some a'" "engine_wf now a" "is_i64 pnl"
  shows "engine_wf now a'"
proof -
  have "meter_wf a" using assms(2) by (simp add: engine_wf_def actuary_wf_def)
  from record_outcome_ok[OF this assms(3), of notional long] assms(1)
  obtain e where "a' = a\<lparr>experience_bps := e\<rparr>" "- BPS \<le> e" "e \<le> BPS" by (auto simp: ok_def)
  then show ?thesis using assms(2) by (simp add: wf_defs)
qed

lemma ticker_reach_wf:
  "ticker_reach now a \<Longrightarrow> engine_wf now a \<and> 0 \<le> momentum_bps a"
proof (induction rule: ticker_reach.induct)
  case start
  show ?case using engine_wf_default by (simp add: actuary_default_def)
next
  case (bootstrap slot a)
  then show ?case by (simp add: wf_defs)
next
  case (wait now a slot)
  then show ?case using engine_wf_later by blast
next
  case (print slot a price a')
  then show ?case using update_price_ok[of slot a price] partD[OF update_price_momentum] by (auto simp: ok_def)
next
  case (trade slot a expo vd sz pool a')
  then show ?case using record_activity_wf by blast
next
  case (outcome slot a pnl notional long a')
  then show ?case using record_outcome_wf partD[OF momentum_frames(8)] by metis
next
  case (accrue slot a unix util a')
  then show ?case using partD[OF accrue_frame] partD[OF momentum_frames(9)] by metis
qed

subsection \<open>Ranges of the rates, the collar and the fee\<close>

lemma crowding_ok:
  assumes "\<bar>get_net s\<bar> \<le> 922337203685477"
  shows "ok (crowding_bps s amount) (\<lambda>c. 5000 \<le> c \<and> c \<le> 15000)"
proof (cases "get_total s \<le> 0 \<or> amount = 0")
  case False
  have n: "is_i64 \<bar>get_net s\<bar>" "is_i64 (\<bar>get_net s\<bar> * BPS)" using assms by (auto simp: is_i64_def)
  define q where "q = \<bar>get_net s\<bar> * BPS sdiv get_total s"
  have "0 \<le> q" using False by (simp add: q_def sdiv_nonneg_nonneg)
  moreover have "q \<le> \<bar>get_net s\<bar> * BPS" using False by (simp add: q_def sdiv_nonneg div_le_self)
  ultimately have q: "0 \<le> min q BPS" "min q BPS \<le> BPS" "is_i64 q" using assms by (auto simp: is_i64_def)
  then have h: "0 \<le> min q BPS sdiv 2" "min q BPS sdiv 2 \<le> 5000" by (simp_all add: sdiv_nonneg)
  have five: "BPS sdiv 2 = 5000" by (simp add: sdiv_nonneg)
  have body: "crowding_bps s amount = Some (if get_net s > 0 \<and> amount > 0 \<or> get_net s < 0 \<and> amount < 0
      then BPS + min q BPS sdiv 2 else max 5000 (BPS - min q BPS sdiv 2))"
    using False n q(3) by (simp add: crowding_bps_def Let_def div_i64_def five flip: q_def)
  show ?thesis unfolding body using h by auto
qed (simp add: crowding_bps_def)

text \<open>Past that size of the net book the same computation aborts.\<close>

lemma crowding_overflow:
  assumes "922337203685477 < \<bar>get_net s\<bar>" "0 < get_total s" "amount \<noteq> 0"
  shows "crowding_bps s amount = None"
proof -
  have "\<not> is_i64 (\<bar>get_net s\<bar> * BPS)" using assms(1) by (simp add: is_i64_def)
  then show ?thesis using assms by (simp add: crowding_bps_def Let_def i64_def)
qed

lemma solvency_ok:
  assumes "0 \<le> dep" "0 \<le> liab" "liab \<le> U64_MAX"
  shows "ok (solvency_bps dep liab) (\<lambda>s. BPS \<le> s \<and> s \<le> 5 * BPS)"
  using assms by (auto simp: solvency_bps_def wp is_u128_def div_nonneg)

lemma hazard_rate_ok:
  assumes "fit_wf s" "d \<le> 1048576" "-1048576 \<le> c" "c \<le> 1048576" "\<bar>get_net s\<bar> \<le> 922337203685477"
    "0 \<le> dep" "0 \<le> liab" "liab \<le> U64_MAX"
  shows "ok (hazard_rate_bps d c amount s dep liab) (\<lambda>r. 0 \<le> r \<and> r \<le> 50000)"
proof -
  obtain h where h: "hazard_bps d s = Some h" "0 \<le> h" "h \<le> TAIL_FINE" using okD[OF hazard_ok[OF assms(1,2)]] by blast
  obtain l where l: "lgd_bps c s = Some l" "1 \<le> l" "l \<le> 1708576" using okD[OF lgd_ok[OF assms(1,3,4)]] by blast
  obtain w where w: "crowding_bps s amount = Some w" "5000 \<le> w" "w \<le> 15000" using okD[OF crowding_ok[OF assms(5)]] by blast
  obtain v where v: "solvency_bps dep liab = Some v" "BPS \<le> v" "v \<le> 5 * BPS" using okD[OF solvency_ok[OF assms(6-8)]] by blast
  define x where "x = h * l"
  have x: "0 \<le> x" "x \<le> 170857600000000" using h l mult_mono[of h TAIL_FINE l 1708576] by (simp_all add: x_def)
  define y where "y = x * w"
  have y: "0 \<le> y" "y \<le> 170857600000000 * 15000" using x w mult_mono[of x 170857600000000 w 15000] by (simp_all add: y_def)
  define z where "z = y * v"
  have z: "0 \<le> z" "z \<le> (170857600000000 * 15000) * 50000" using y v mult_mono[of y "170857600000000 * 15000" v 50000] by (simp_all add: z_def)
  have "is_i128 x" "is_i128 y" "is_i128 z" using x y z by (simp_all add: is_i128_def)
  then show ?thesis
    using h(1) l(1) w(1) v(1) by (simp add: hazard_rate_bps_def wp clamp_def flip: x_def y_def z_def)
qed

lemma collar_ok:
  assumes "fit_wf s" "0 \<le> shortfall_bps s" "shortfall_bps s \<le> 2208576"
  shows "ok (collar_bps lev s) (\<lambda>c. 0 \<le> c \<and> c \<le> BPS)"
  unfolding collar_bps_def ok_bind
proof (rule ok_mono[OF eff_sigma_ok[OF assms(1)]], goal_cases)
  case (1 sig)
  then have sig: "0 \<le> sig" "sig \<le> BPS" using fit_wfD(3)[OF assms(1)] by auto
  obtain es where es: "(if shortfall_bps s > 0 then Some (shortfall_bps s)
      else expected_shortfall_bps s COLLAR_BREACH_BPS) = Some es" "1 \<le> es" "es \<le> 2208576"
    using okD[OF expected_shortfall_ok[OF assms(1)], of COLLAR_BREACH_BPS] assms
    by (cases "shortfall_bps s > 0") auto
  have m: "is_i64 (es * 100)" using es by (simp add: is_i64_def)
  have d: "is_i64 (es * 100 sdiv lev)" if "lev > 0"
  proof -
    have "0 \<le> es * 100 sdiv lev" "es * 100 sdiv lev \<le> es * 100"
      using that es by (simp_all add: sdiv_nonneg div_nonneg div_le_self)
    then show ?thesis using es unfolding is_i64_def by linarith
  qed
  show ?case
    unfolding ok_if es(1) Option.bind_lunit
    using sig m d by (auto simp: wp)
qed

lemma mom_mult_nonneg: "0 \<le> momentum_bps s \<Longrightarrow> mom_mult s g = 100"
  by (simp add: mom_mult_def)

lemma max_leverage_range: "part (max_leverage_pct s slot util) (\<lambda>l. 110 \<le> l \<and> l \<le> MAX_LEVERAGE_PCT)"
  by (auto simp: max_leverage_pct_def part_simps
      intro!: part_any[of _ "eff_sigma s"] part_any[of _ "staleness_mult s slot"] part_any[of _ "confidence s"] part_checked)

text \<open>
  The fee is never below the minimum and never above the cap: 2%, or the volatility at the
  leverage of the trade if that is more.
\<close>

lemma fee_range:
  assumes "eff_sigma s = Some sig"
  shows "part (fee_bps conc expo amount s lev distance)
    (\<lambda>f. MIN_FEE_BPS \<le> f \<and> f \<le> max 200 (sig * lev sdiv MAX_LEVERAGE_PCT))"
  unfolding fee_bps_def assms Option.bind_lunit
  by (auto simp: part_simps part_i64 le_max_iff_disj intro!: part_checked part_any[of _ "spread_bps s sig t" for t]
      part_any[of _ "classify s expo amount"] part_any[of _ "hazard_bps d s" for d]
      part_any[of _ "collar_bps lev s"] part_any[of _ "lgd_bps c s" for c]
      part_any[of _ "compound_factor expo amount lev s"])

lemma ticker_reserve_ok:
  assumes "fit_wf s" "gap_wf s" "meter_wf s" "0 \<le> v" "v \<le> U64_MAX"
  shows "ok (ticker_reserve_dollars v s) (\<lambda>r. 0 \<le> r \<and> r \<le> v)"
  unfolding ticker_reserve_dollars_def ok_bind
proof (rule ok_mono[OF margin_ok[OF assms(1-3)]], goal_cases)
  case (1 m)
  have vm: "0 \<le> v * m" "v * m \<le> U64_MAX * BPS"
    using 1 assms mult_mono[of v U64_MAX m BPS] by auto
  have "v * m div BPS \<le> v" by (rule muldiv_le_left) (use 1 assms in auto)
  moreover have "sat_u128 (v * m) = v * m" using vm by (simp add: sat_u128_id is_u128_def)
  ultimately show ?case using 1 assms vm by (auto simp: wp div_nonneg max_def)
qed

end
