(* ===== verification/Depository.thy ===== *)
theory Depository
  imports Pricing
begin

section \<open>The vault's books (stay.rs: Depository)\<close>

text \<open>
  The pool's aggregate state and the operations of \<open>impl Depository\<close> in
  \<^verbatim>\<open>svm/programs/quid/src/stay.rs\<close>: what is drawn, what is reserved against open positions
  (\<open>max_liability\<close>), what may be withdrawn, the queue of redemptions the pool could not meet
  and the margin schedule it drives, and the index that pays yield on pledged SOL. Amounts
  are unsigned and saturate as in the source.
\<close>

abbreviation (input) SOL_YIELD_SCALE :: int where "SOL_YIELD_SCALE \<equiv> 1000000000000"
abbreviation (input) REDEMPTION_MAX_MARGIN_BPS :: int where "REDEMPTION_MAX_MARGIN_BPS \<equiv> 20000"
abbreviation (input) PRICE_SCALE :: int where "PRICE_SCALE \<equiv> 1000000"

type_synonym pubkey = nat

record depository =
  bank_last_updated :: int
  total_deposits :: int
  total_deposit_seconds :: int
  total_drawn :: int
  yield_pool :: int
  max_liability :: int
  sol_lamports :: int
  sol_usd_contrib :: int
  sol_star_shares :: int
  sol_star_cost_lamports :: int
  sol_star_credited_lamports :: int
  sol_star_parked_at :: int
  swept_at :: int
  swept_count :: int
  pool_realized_pnl :: int
  pool_collar_dollar_seconds :: int
  paper_in_transit :: int
  unwind_demand :: int
  paper_backed :: int
  sol_yield_index :: int

definition depository_default :: depository where
  "depository_default = \<lparr>bank_last_updated = 0, total_deposits = 0, total_deposit_seconds = 0,
     total_drawn = 0, yield_pool = 0, max_liability = 0, sol_lamports = 0, sol_usd_contrib = 0,
     sol_star_shares = 0, sol_star_cost_lamports = 0, sol_star_credited_lamports = 0,
     sol_star_parked_at = 0, swept_at = 0, swept_count = 0, pool_realized_pnl = 0,
     pool_collar_dollar_seconds = 0, paper_in_transit = 0, unwind_demand = 0, paper_backed = 0,
     sol_yield_index = 0\<rparr>"

record flash_loan =
  flash_lamports :: int
  flash_token_mint :: pubkey
  flash_token_amount :: int

subsection \<open>Dollars and units\<close>

definition units_value :: "int \<Rightarrow> int \<Rightarrow> int" where
  "units_value units price = min (sat_u128 (units * price) div PRICE_SCALE) U64_MAX"

definition units_value_i :: "int \<Rightarrow> int \<Rightarrow> int" where
  "units_value_i units price = clamp I64_MIN I64_MAX (sat_i128 (units * price) sdiv PRICE_SCALE)"

definition value_units :: "int \<Rightarrow> int \<Rightarrow> int" where
  "value_units dollars price =
     (if price = 0 then 0 else min (sat_u128 (dollars * PRICE_SCALE) div price) U64_MAX)"

subsection \<open>Operations\<close>

definition utilisation :: "depository \<Rightarrow> int \<Rightarrow> depository" where
  "utilisation b drawn_change =
     (if drawn_change > 0 then b\<lparr>total_drawn := sat_u64 (total_drawn b + drawn_change)\<rparr>
      else b\<lparr>total_drawn := sat_u64 (total_drawn b - \<bar>drawn_change\<bar>)\<rparr>)"

definition utilisation_bps :: "depository \<Rightarrow> int option" where
  "utilisation_bps b =
     (if total_deposits b = 0 then Some 0
      else do {
        m \<leftarrow> u128 (total_drawn b * 10000);
        q \<leftarrow> div_u m (total_deposits b);
        Some (as_i64 (as_u64 q))
      })"

definition accrue_sol_yield :: "depository \<Rightarrow> int \<Rightarrow> (depository \<times> bool) option" where
  "accrue_sol_yield b signed_usd =
     (let principal = sat_u64 (sol_lamports b + sol_star_cost_lamports b) in
      if principal = 0 \<or> signed_usd = 0 then Some (b, False)
      else
        let magnitude = sat_u128 (\<bar>signed_usd\<bar> * SOL_YIELD_SCALE) div principal in
        if signed_usd > 0
        then Some (b\<lparr>sol_yield_index := sat_u128 (sol_yield_index b + magnitude)\<rparr>, True)
        else if magnitude > sol_yield_index b then Some (b, False)
        else do {
          i \<leftarrow> u128 (sol_yield_index b - magnitude);
          Some (b\<lparr>sol_yield_index := i\<rparr>, True)
        })"

definition has_capacity :: "depository \<Rightarrow> int \<Rightarrow> bool" where
  "has_capacity b additional_collar \<longleftrightarrow>
     total_deposits b \<noteq> 0 \<and> sat_u64 (max_liability b + additional_collar) \<le> total_deposits b"

definition withdrawable :: "depository \<Rightarrow> int" where
  "withdrawable b =
     sat_u64 (sat_u64 (sat_u64 (total_deposits b + yield_pool b) - max_liability b) - paper_in_transit b)"

definition unwindable_reserve :: "depository \<Rightarrow> int" where
  "unwindable_reserve b = sat_u64 (max_liability b - paper_backed b)"

definition defer_redemption :: "depository \<Rightarrow> int \<Rightarrow> depository" where
  "defer_redemption b unmet =
     b\<lparr>unwind_demand := min (sat_u64 (unwind_demand b + unmet)) (unwindable_reserve b)\<rparr>"

definition redemption_margin_bps :: "depository \<Rightarrow> int option" where
  "redemption_margin_bps b =
     (let reachable = unwindable_reserve b in
      if unwind_demand b = 0 \<or> reachable = 0 then Some 10000
      else do {
        m \<leftarrow> u128 (unwind_demand b * 10000);
        q \<leftarrow> div_u m reachable;
        let served = min q 10000;
        Some (10000 + served * (REDEMPTION_MAX_MARGIN_BPS - 10000) sdiv 10000)
      })"

subsection \<open>Their contract\<close>

definition bank_wf :: "depository \<Rightarrow> bool" where
  "bank_wf b \<longleftrightarrow> is_u64 (total_deposits b) \<and> is_u64 (total_drawn b) \<and> is_u64 (yield_pool b) \<and>
     is_u64 (max_liability b) \<and> is_u64 (sol_lamports b) \<and> is_u64 (sol_usd_contrib b) \<and>
     is_u64 (sol_star_cost_lamports b) \<and> is_u64 (sol_star_credited_lamports b) \<and>
     is_u64 (sol_star_shares b) \<and> is_u64 (paper_in_transit b) \<and>
     is_u64 (unwind_demand b) \<and> is_u64 (paper_backed b) \<and> is_u128 (total_deposit_seconds b) \<and>
     is_u128 (sol_yield_index b)"

lemma bank_wf_default: "bank_wf depository_default"
  by (simp add: bank_wf_def depository_default_def ranges)

lemma units_value_range: "0 \<le> units_value u p" "units_value u p \<le> U64_MAX"
  by (auto simp: units_value_def sat_u128_def clamp_def)

lemma units_value_exact:
  assumes "0 \<le> u" "u \<le> U64_MAX" "0 \<le> p" "p \<le> U64_MAX"
  shows "units_value u p = min (u * p div PRICE_SCALE) U64_MAX"
proof -
  have "0 \<le> u * p" "u * p \<le> U64_MAX * U64_MAX" using assms mult_mono[of u U64_MAX p U64_MAX] by simp_all
  then show ?thesis by (simp add: units_value_def sat_u128_id is_u128_def)
qed

text \<open>Buying units with dollars and valuing them at the same price never creates value.\<close>

lemma value_units_round_trip:
  assumes "0 \<le> d" "d \<le> U64_MAX" "0 < p" "p \<le> U64_MAX"
  shows "units_value (value_units d p) p \<le> d" "value_units d p < U64_MAX \<Longrightarrow> d \<le> units_value (value_units d p) p + p div PRICE_SCALE + 1"
proof -
  define u where "u = value_units d p"
  have s: "sat_u128 (d * PRICE_SCALE) = d * PRICE_SCALE" using assms by (simp add: sat_u128_id is_u128_def)
  have u: "u = min (d * PRICE_SCALE div p) U64_MAX" using assms s by (simp add: u_def value_units_def)
  have u0: "0 \<le> u" "u \<le> U64_MAX" using assms by (simp_all add: u div_nonneg)
  have "u * p \<le> d * PRICE_SCALE div p * p" using u assms by simp
  also have "\<dots> \<le> d * PRICE_SCALE" using assms pos_mod_sign[of p "d * PRICE_SCALE"]
    by (simp add: minus_mod_eq_div_mult [symmetric])
  finally have up: "u * p \<le> d * PRICE_SCALE" .
  have "u * p div PRICE_SCALE \<le> d" by (rule div_le_bound) (use up in auto)
  then show "units_value (value_units d p) p \<le> d"
    using units_value_exact[of u p] u0 assms by (simp flip: u_def)
  assume "value_units d p < U64_MAX"
  then have "u = d * PRICE_SCALE div p" using u by (simp flip: u_def)
  then have "d * PRICE_SCALE < u * p + p" using assms
    by (metis add.commute mult.commute pos_mod_bound add_less_cancel_left mult_div_mod_eq)
  then have "d \<le> u * p div PRICE_SCALE + p div PRICE_SCALE + 1" by linarith
  then show "d \<le> units_value (value_units d p) p + p div PRICE_SCALE + 1"
    using units_value_exact[of u p] u0 assms by (auto simp: min_def simp flip: u_def)
qed

lemma utilisation_wf: "bank_wf b \<Longrightarrow> bank_wf (utilisation b d)"
  by (simp add: utilisation_def bank_wf_def is_sat)

lemma utilisation_bps_ok:
  assumes "bank_wf b"
  shows "ok (utilisation_bps b) (\<lambda>u. I64_MIN \<le> u \<and> u \<le> I64_MAX)"
proof -
  have "is_u128 (total_drawn b * 10000)" using assms by (simp add: bank_wf_def is_u64_def is_u128_def)
  moreover have "I64_MIN \<le> as_i64 x \<and> as_i64 x \<le> I64_MAX" for x using is_as_i64[of x] by (simp add: is_i64_def)
  ultimately show ?thesis by (auto simp: utilisation_bps_def wp)
qed

text \<open>A drawn amount within the deposits reads as a utilisation within 100%.\<close>

lemma utilisation_bps_bounded:
  assumes "bank_wf b" "total_drawn b \<le> total_deposits b"
  shows "ok (utilisation_bps b) (\<lambda>u. 0 \<le> u \<and> u \<le> BPS)"
proof -
  have w: "0 \<le> total_drawn b" "total_drawn b \<le> U64_MAX" "0 \<le> total_deposits b"
    using assms by (simp_all add: bank_wf_def is_u64_def)
  define q where "q = total_drawn b * 10000 div total_deposits b"
  have q: "0 \<le> q \<and> q \<le> 10000" if "total_deposits b \<noteq> 0"
    using assms(2) w that unfolding q_def by (auto intro: div_nonneg div_le_bound)
  then have "as_i64 (as_u64 q) = q" if "total_deposits b \<noteq> 0"
    using that by (simp add: as_u64_id as_i64_id is_u64_def is_i64_def)
  moreover have "is_u128 (total_drawn b * 10000)" using w by (simp add: is_u128_def)
  ultimately show ?thesis using q by (auto simp: utilisation_bps_def wp simp flip: q_def)
qed

lemma accrue_sol_yield_ok:
  assumes "bank_wf b"
  shows "ok (accrue_sol_yield b d) (\<lambda>(b', done). bank_wf b' \<and> (\<exists>i. b' = b\<lparr>sol_yield_index := i\<rparr>))"
proof -
  define P where "P b' \<longleftrightarrow> bank_wf b' \<and> (\<exists>i. b' = b\<lparr>sol_yield_index := i\<rparr>)" for b'
  have P: "P (b\<lparr>sol_yield_index := i\<rparr>)" if "is_u128 i" for i
    using that assms by (auto simp: P_def bank_wf_def)
  have u: "is_u128 (sol_yield_index b)" using assms by (simp add: bank_wf_def)
  have keep: "P b" using P[OF u] by simp
  define p where "p = sat_u64 (sol_lamports b + sol_star_cost_lamports b)"
  define m where "m = sat_u128 (\<bar>d\<bar> * SOL_YIELD_SCALE) div p"
  have m: "0 \<le> m" unfolding m_def p_def by (intro div_nonneg) simp_all
  have "is_u128 (sol_yield_index b - m)" if "m \<le> sol_yield_index b" using u m that by (simp add: is_u128_def)
  then have "ok (accrue_sol_yield b d) (\<lambda>(b', done). P b')"
    using keep P[of "sol_yield_index b - m"] P[of "sat_u128 (sol_yield_index b + m)"]
    by (simp add: accrue_sol_yield_def Let_def wp flip: p_def m_def)
  then show ?thesis by (simp only: P_def)
qed

text \<open>A credit that did not saturate is undone by the same debit.\<close>

lemma accrue_sol_yield_undo:
  assumes "accrue_sol_yield b d = Some (b', True)" "0 < d" "bank_wf b" "sol_yield_index b' < U128_MAX"
  shows "accrue_sol_yield b' (- d) = Some (b, True)"
proof -
  define p where "p = sat_u64 (sol_lamports b + sol_star_cost_lamports b)"
  define m where "m = sat_u128 (d * SOL_YIELD_SCALE) div p"
  have p: "p \<noteq> 0" and b': "b' = b\<lparr>sol_yield_index := sat_u128 (sol_yield_index b + m)\<rparr>"
    using assms(1,2) by (auto simp: accrue_sol_yield_def Let_def m_def p_def split: if_splits)
  have w: "is_u128 (sol_yield_index b)" using assms(3) by (simp add: bank_wf_def)
  have "0 \<le> p" by (simp add: p_def sat_u64_nonneg)
  moreover have "0 \<le> sat_u128 (d * SOL_YIELD_SCALE)" by (simp add: sat_u128_def clamp_def)
  ultimately have "0 \<le> m" unfolding m_def by (intro div_nonneg)
  moreover have "sat_u128 (sol_yield_index b + m) = sol_yield_index b + m"
    using assms(4) w b' \<open>0 \<le> m\<close> by (auto simp: sat_u128_def clamp_def is_u128_def split: if_splits)
  ultimately show ?thesis
    using p w assms(2) b' by (simp add: accrue_sol_yield_def Let_def is_u128_def flip: p_def m_def)
qed

lemma has_capacity_reserve:
  assumes "has_capacity b c" "bank_wf b" "0 \<le> c" "total_deposits b < U64_MAX"
  shows "max_liability b + c \<le> total_deposits b"
  using assms by (auto simp: has_capacity_def sat_u64_def clamp_def bank_wf_def is_u64_def split: if_splits)

lemma withdrawable_covers:
  assumes "bank_wf b" "0 < withdrawable b"
  shows "withdrawable b + max_liability b + paper_in_transit b \<le> total_deposits b + yield_pool b"
proof -
  define x where "x = sat_u64 (total_deposits b + yield_pool b)"
  define y where "y = sat_u64 (x - max_liability b)"
  have w: "withdrawable b = sat_u64 (y - paper_in_transit b)" by (simp add: withdrawable_def x_def y_def)
  have nn: "0 \<le> paper_in_transit b" "0 \<le> max_liability b" using assms(1) by (simp_all add: bank_wf_def is_u64_def)
  have "withdrawable b \<le> y - paper_in_transit b" using assms(2) w sat_u64_pos by metis
  moreover from this have "0 < y" using assms(2) nn by linarith
  then have "y \<le> x - max_liability b" unfolding y_def by (rule sat_u64_pos)
  moreover from this have "0 < x" using \<open>0 < y\<close> nn by linarith
  then have "x \<le> total_deposits b + yield_pool b" unfolding x_def by (rule sat_u64_pos)
  ultimately show ?thesis by linarith
qed

lemma defer_redemption_bound:
  "unwind_demand (defer_redemption b u) \<le> unwindable_reserve (defer_redemption b u)"
  by (simp add: defer_redemption_def unwindable_reserve_def)

lemma defer_redemption_wf: "bank_wf b \<Longrightarrow> bank_wf (defer_redemption b u)"
  by (auto simp: defer_redemption_def unwindable_reserve_def bank_wf_def is_u64_def sat_u64_def clamp_def)

lemma redemption_margin_ok:
  assumes "bank_wf b"
  shows "ok (redemption_margin_bps b) (\<lambda>m. 10000 \<le> m \<and> m \<le> REDEMPTION_MAX_MARGIN_BPS)"
proof -
  have w: "0 \<le> unwind_demand b" "is_u128 (unwind_demand b * 10000)"
    using assms by (simp_all add: bank_wf_def is_u64_def is_u128_def)
  have "0 \<le> unwind_demand b * 10000 div unwindable_reserve b"
    using w by (intro div_nonneg) (simp_all add: unwindable_reserve_def sat_u64_nonneg)
  then show ?thesis
    using w by (auto simp: redemption_margin_bps_def Let_def wp sdiv_nonneg)
qed

end
