(* ===== verification/Position.thy ===== *)
theory Position
  imports Depository
begin

section \<open>One position (stay.rs: Stock)\<close>

text \<open>
  A depositor's position in one ticker and the routines of \<^verbatim>\<open>svm/programs/quid/src/stay.rs\<close>
  that change it: the collar (\<open>LiabilityUpdate\<close>), the premium charged against the pledge,
  the graduated unwinding of a breached position, variation margin, the release of a closed
  part, and the reinstatement of exposure. \<open>LiabilityUpdate::apply\<close> ignores the depository it
  is given, so here it takes the position only. Routines that change the position and the
  owner's balance through \<open>&mut\<close> arguments return both.
\<close>

record stock =
  pod_ticker :: string
  pledged :: int
  exposure :: int
  updated :: int
  pod_collar_bps :: int
  cost_basis :: int
  interest_paid :: int
  collar_dollar_seconds :: int
  collar_dollars :: int
  premium_checkpoint :: int
  funding_checkpoint :: int
  marked :: int
  breached_at :: int

definition value_at :: "stock \<Rightarrow> int \<Rightarrow> int" where
  "value_at pod price = units_value \<bar>exposure pod\<bar> price"

definition excursion :: "stock \<Rightarrow> int \<Rightarrow> (stock \<times> int) option" where
  "excursion pod now = do {
     let pod = (if breached_at pod = 0 then pod\<lparr>breached_at := now\<rparr> else pod);
     d \<leftarrow> i64 (now - breached_at pod);
     Some (pod, max d 0)
   }"

definition spend_grace :: "stock \<Rightarrow> stock" where
  "spend_grace pod = pod\<lparr>breached_at := sat_i64 (breached_at pod + LIQ_GRACE_SECS)\<rparr>"

subsection \<open>The collar\<close>

definition collar_notional :: "int \<Rightarrow> int \<Rightarrow> int" where
  "collar_notional exposure_value pledge = max exposure_value pledge"

record liability_update =
  old_collar_dollars :: int
  new_collar_bps :: int
  new_collar_dollars :: int

text \<open>Leverage in percent, as the source computes it wherever it needs it.\<close>

definition leverage_of :: "int \<Rightarrow> int \<Rightarrow> int option" where
  "leverage_of exposure_value pledge =
     (if pledge > 0 then do {
        m \<leftarrow> u128 (exposure_value * 100);
        q \<leftarrow> div_u m pledge;
        Some (min q I64_MAX)
      }
      else Some (if exposure_value > 0 then I64_MAX else 100))"

definition liability_compute :: "int \<Rightarrow> int \<Rightarrow> int \<Rightarrow> int \<Rightarrow> actuary \<Rightarrow> liability_update option" where
  "liability_compute old_exposure old_collar_bps new_exposure new_pledged a = do {
     let old_dollars = sat_u64 (old_exposure * old_collar_bps) div 10000;
     new_leverage \<leftarrow> leverage_of new_exposure new_pledged;
     new_collar \<leftarrow> collar_bps new_leverage a;
     let new_dollars = sat_u64 (collar_notional new_exposure new_pledged * as_u64 new_collar) div 10000;
     Some \<lparr>old_collar_dollars = old_dollars, new_collar_bps = as_u16 new_collar,
           new_collar_dollars = new_dollars\<rparr>
   }"

definition liability_apply :: "liability_update \<Rightarrow> stock \<Rightarrow> stock" where
  "liability_apply lu pod =
     pod\<lparr>pod_collar_bps := new_collar_bps lu, collar_dollars := new_collar_dollars lu\<rparr>"

definition collar_amount :: "stock \<Rightarrow> int \<Rightarrow> int" where
  "collar_amount pod price =
     (let mark = (if marked pod = 0 then collar_notional (value_at pod price) (pledged pod)
                  else marked pod) in
      if pod_collar_bps pod > 0 then sat_u64 (mark * pod_collar_bps pod) div 10000
      else mark div 10)"

subsection \<open>The premium\<close>

definition premium_due :: "int \<Rightarrow> int \<Rightarrow> int \<Rightarrow> int \<Rightarrow> int \<Rightarrow> int \<times> int" where
  "premium_due exposure_value position_rate_bps dt base_bps_seconds pledge =
     (let YEAR_BPS = 31536000 * 10000;
          dt = max dt 0;
          bps_seconds = sat_u128 (base_bps_seconds + sat_u128 (max position_rate_bps 0 * dt)) in
      if bps_seconds = 0 \<or> exposure_value = 0 then (0, dt)
      else
        let accrued = min (sat_u128 (exposure_value * bps_seconds) div YEAR_BPS) U64_MAX in
        if accrued \<le> pledge then (accrued, dt)
        else
          let billed = min (sat_u128 (pledge * dt) div max accrued 1) dt in
          (pledge, billed))"

subsection \<open>Unwinding\<close>

definition tranche_size :: "int \<Rightarrow> int \<Rightarrow> int \<Rightarrow> int option" where
  "tranche_size sz excurs util_bps = do {
     let speed_bps = 5000 + 15000 * clamp 1000 10000 util_bps sdiv 10000;
     d \<leftarrow> i64 (excurs - LIQ_GRACE_SECS);
     let over = max d 0;
     m \<leftarrow> i64 (over * 10000);
     let climbed = min (m sdiv (LIQ_GRACE_SECS * TRANCHE_RAMP_GRACES)) 10000;
     let frac_bps = MIN_TRANCHE_BPS + (MAX_TRANCHE_BPS - MIN_TRANCHE_BPS) * climbed sdiv 10000;
     let frac_bps = clamp MIN_TRANCHE_BPS MAX_TRANCHE_BPS (frac_bps * speed_bps sdiv 10000);
     t \<leftarrow> u128 (sz * frac_bps);
     Some (max (as_u64 (t div 10000)) 1)
   }"

text \<open>The dollars the position's value lies outside its collar by.\<close>

definition breach_of :: "stock \<Rightarrow> int \<Rightarrow> int" where
  "breach_of pod price =
     (let collar = collar_amount pod price;
          exposure_value = value_at pod price;
          mark = (if marked pod = 0 then pledged pod else marked pod);
          upper = sat_u64 (mark + collar);
          lower = sat_u64 (mark - collar) in
      if exposure_value > upper then exposure_value - upper
      else if lower > exposure_value then lower - exposure_value
      else 0)"

text \<open>The units to unwind: the schedule's tranche, or what restores the collar if that is more.\<close>

definition tranche_of :: "stock \<Rightarrow> int \<Rightarrow> int \<Rightarrow> int \<Rightarrow> int option" where
  "tranche_of pod price excurs util_bps = do {
     let restoring = value_units (breach_of pod price) price;
     t \<leftarrow> tranche_size \<bar>exposure pod\<bar> excurs util_bps;
     Some (min (max t restoring) \<bar>exposure pod\<bar>)
   }"

definition cut_exposure :: "int \<Rightarrow> int \<Rightarrow> int" where
  "cut_exposure expo tranche =
     (if expo > 0 then sat_i64 (expo - as_i64 tranche) else sat_i64 (expo + as_i64 tranche))"

text \<open>
  The slice's share of the mark and of the pledge, and the loss it realises: the slice of
  the mark, what the loss consumes of the slice of the pledge, and what it leaves.
\<close>

definition slice_loss :: "bool \<Rightarrow> int \<Rightarrow> int \<Rightarrow> int \<Rightarrow> int \<Rightarrow> int \<Rightarrow> (int \<times> int \<times> int) option" where
  "slice_loss long mark pledge tranche held unwound_value = do {
     m \<leftarrow> u128 (mark * tranche);
     let slice_mark = as_u64 (m div held);
     p \<leftarrow> u128 (pledge * tranche);
     let slice_pledge = as_u64 (p div held);
     let side = (if long then 1 else - 1);
     s \<leftarrow> i128 (unwound_value - slice_mark);
     slice_pnl \<leftarrow> i128 (s * side);
     let consumed = (if slice_pnl < 0 then min (as_u64 \<bar>slice_pnl\<bar>) slice_pledge else 0);
     Some (slice_mark, consumed, sat_u64 (slice_pledge - consumed))
   }"

definition shrink_pod :: "stock \<Rightarrow> int \<Rightarrow> int \<Rightarrow> int \<Rightarrow> int \<Rightarrow> stock" where
  "shrink_pod pod expo slice_mark consumed current_time =
     (let pod = (spend_grace pod)\<lparr>exposure := expo, pledged := sat_u64 (pledged pod - consumed),
                   marked := sat_u64 (marked pod - min slice_mark (marked pod))\<rparr>;
          pod = (if exposure pod = 0 then pod\<lparr>breached_at := 0, marked := 0\<rparr> else pod) in
      pod\<lparr>updated := current_time\<rparr>)"

definition close_books :: "stock \<Rightarrow> stock" where
  "close_books pod =
     (if exposure pod = 0 then pod\<lparr>cost_basis := 0, interest_paid := 0, collar_dollar_seconds := 0\<rparr>
      else pod)"

definition amortise_tranche :: "stock \<Rightarrow> int \<Rightarrow> int \<Rightarrow> int \<Rightarrow> actuary \<Rightarrow> int \<Rightarrow> int \<Rightarrow>
    (stock \<times> int \<times> int \<times> int \<times> int \<times> bool) option" where
  "amortise_tranche pod price excurs util_bps a old_exposure_value current_time = do {
     let mark = (if marked pod = 0 then pledged pod else marked pod);
     tranche \<leftarrow> tranche_of pod price excurs util_bps;
     let expo = cut_exposure (exposure pod) tranche;
     let unwound_value = units_value tranche price;
     let held = max (sat_u64 (\<bar>expo\<bar> + tranche)) 1;
     (slice_mark, consumed, retained) \<leftarrow>
       slice_loss (exposure pod > 0) mark (pledged pod) tranche held unwound_value;
     let pod = shrink_pod pod expo slice_mark consumed current_time;
     let new_exp = value_at pod price;
     lu \<leftarrow> liability_compute old_exposure_value (pod_collar_bps pod) new_exp (pledged pod) a;
     let pod = liability_apply lu pod;
     let dollars = - min (sat_u64 (unwound_value - retained)) I64_MAX;
     Some (close_books pod, dollars, cost_basis pod, interest_paid pod, collar_dollar_seconds pod,
           exposure pod = 0)
   }"

subsection \<open>Cures and partial closes\<close>

definition post_variation_margin :: "stock \<Rightarrow> int \<Rightarrow> depository \<Rightarrow> actuary \<Rightarrow> int \<Rightarrow> int \<Rightarrow> int \<Rightarrow> int \<Rightarrow>
    (stock \<times> int \<times> int option) result" where
  "post_variation_margin pod dq bank a old_exposure_value exposure_value excess current_time =
     (let gross = sat_u64 (excess + excess div 250) in
      if dq < gross then Ok (pod, dq, None)
      else do {
        let net = sat_u64 (gross - gross div 250);
        let mark = (if marked pod \<noteq> 0 then marked pod else pledged pod);
        let side = (if exposure pod \<ge> 0 then 1 else - 1);
        d \<leftarrow> i128 (exposure_value - mark);
        mtm \<leftarrow> i128 (d * side);
        s \<leftarrow> i128 (pledged pod + net);
        s \<leftarrow> i128 (s + mtm);
        let new_pledged = clamp 0 U64_MAX s;
        lu \<leftarrow> liability_compute old_exposure_value (pod_collar_bps pod) exposure_value new_pledged a;
        let increase = sat_u64 (new_collar_dollars lu - old_collar_dollars lu);
        require (has_capacity bank increase) PoolAtCapacity (do {
          dq' \<leftarrow> u64 (dq - gross);
          let pod = pod\<lparr>pledged := new_pledged, marked := exposure_value, breached_at := 0,
                        updated := current_time\<rparr>;
          Ok (liability_apply lu pod, dq', Some gross)
        })
      })"

definition pro_rata :: "int \<Rightarrow> int \<Rightarrow> int \<Rightarrow> int" where
  "pro_rata numer denom v = min (sat_u128 (v * numer) div denom) v"

definition settle_partial_close :: "stock \<Rightarrow> actuary \<Rightarrow> int \<Rightarrow> int \<Rightarrow> int \<Rightarrow> int \<Rightarrow> int \<Rightarrow> int \<Rightarrow>
    (stock \<times> int \<times> int \<times> int \<times> (int \<times> int \<times> int) \<times> bool) option" where
  "settle_partial_close pod a old_exposure_value closed_value position_value price current_time
      accrued_interest = do {
     let share = pro_rata closed_value (max position_value 1);
     let interest_on_closed = share accrued_interest;
     let pledged_released = share (pledged pod);
     let cost_basis_released = share (cost_basis pod);
     let mark_released = share (marked pod);
     let pod = pod\<lparr>pledged := sat_u64 (pledged pod - pledged_released),
                   cost_basis := sat_u64 (cost_basis pod - cost_basis_released),
                   marked := sat_u64 (marked pod - mark_released), updated := current_time\<rparr>;
     let new_exp = value_at pod price;
     lu \<leftarrow> liability_compute old_exposure_value (pod_collar_bps pod) new_exp (pledged pod) a;
     let fully_closed = (exposure pod = 0);
     let raroc = (cost_basis pod, interest_paid pod, collar_dollar_seconds pod);
     let pod = (if fully_closed
                then pod\<lparr>marked := 0, cost_basis := 0, interest_paid := 0, collar_dollar_seconds := 0\<rparr>
                else pod);
     Some (liability_apply lu pod, pledged_released, cost_basis_released, interest_on_closed,
           raroc, fully_closed)
   }"

definition reinstate_exposure :: "stock \<Rightarrow> int \<Rightarrow> depository \<Rightarrow> actuary \<Rightarrow> int \<Rightarrow> int \<Rightarrow> int \<Rightarrow> int \<Rightarrow> int \<Rightarrow>
    bool \<Rightarrow> (stock \<times> int \<times> int option) result" where
  "reinstate_exposure pod dq bank a old_exposure_value exposure_value gap price current_time by_owner =
     (if \<not> by_owner then Ok (pod, dq, None)
      else
        let gross = sat_u64 (gap + gap div 250) in
        if dq < gross \<or> price = 0 then Ok (pod, dq, None)
        else do {
          let net = sat_u64 (gross - gross div 250);
          let new_exp = sat_u64 (exposure_value + net);
          lu \<leftarrow> liability_compute old_exposure_value (pod_collar_bps pod) new_exp (pledged pod) a;
          let increase = sat_u64 (new_collar_dollars lu - old_collar_dollars lu);
          require (has_capacity bank increase) PoolAtCapacity (do {
            dq' \<leftarrow> u64 (dq - gross);
            let units = as_i64 (value_units net price);
            units \<leftarrow> (if exposure pod < 0 then i64 (- units) else Some units);
            let pod = pod\<lparr>exposure := sat_i64 (exposure pod + units), marked := sat_u64 (marked pod + net),
                          breached_at := 0, updated := current_time\<rparr>;
            Ok (liability_apply lu pod, dq', Some gross)
          })
        })"

subsection \<open>What the routines keep\<close>

text \<open>What pricing needs of a ticker; every reachable ticker has it.\<close>

definition rated :: "actuary \<Rightarrow> bool" where
  "rated a \<longleftrightarrow> fit_wf a \<and> gap_wf a \<and> meter_wf a \<and> book_wf a"

lemma engine_rated: "engine_wf now a \<Longrightarrow> rated a"
  by (simp add: rated_def engine_wf_def actuary_wf_def)

definition pod_wf :: "stock \<Rightarrow> bool" where
  "pod_wf pod \<longleftrightarrow> is_u64 (pledged pod) \<and> \<bar>exposure pod\<bar> \<le> I64_MAX \<and>
     0 \<le> pod_collar_bps pod \<and> pod_collar_bps pod \<le> 65535 \<and> is_u64 (cost_basis pod) \<and>
     is_u64 (interest_paid pod) \<and> is_u128 (collar_dollar_seconds pod) \<and> is_u64 (collar_dollars pod) \<and>
     is_u64 (marked pod) \<and> is_i64 (breached_at pod)"

lemma rated_collar_ok:
  assumes "rated a"
  shows "ok (collar_bps lev a) (\<lambda>c. 0 \<le> c \<and> c \<le> BPS)"
  using assms collar_ok[of a lev] by (simp add: rated_def meter_wf_def)

lemma leverage_of_ok:
  assumes "0 \<le> v" "v \<le> U64_MAX"
  shows "ok (leverage_of v p) (\<lambda>l. l \<le> I64_MAX)"
  using assms by (auto simp: leverage_of_def wp is_u128_def)

lemma liability_compute_ok:
  assumes "rated a" "0 \<le> ne" "ne \<le> U64_MAX" "0 \<le> oe"
  shows "ok (liability_compute oe ocb ne np a) (\<lambda>lu. 0 \<le> new_collar_bps lu \<and> new_collar_bps lu \<le> BPS \<and>
    is_u64 (new_collar_dollars lu))"
proof -
  obtain l where l: "leverage_of ne np = Some l"
    using okD[OF leverage_of_ok[OF assms(2,3)]] by blast
  obtain c where c: "collar_bps l a = Some c" "0 \<le> c" "c \<le> BPS" using okD[OF rated_collar_ok[OF assms(1)]] by blast
  have u: "as_u16 c = c" "as_u64 c = c" using c by (simp_all add: as_u16_id as_u64_id is_u64_def is_u16_def)
  define d where "d = sat_u64 (collar_notional ne np * c) div 10000"
  have "sat_u64 (collar_notional ne np * c) \<le> U64_MAX" by (simp add: sat_u64_def clamp_def)
  then have "is_u64 d" unfolding d_def is_u64_def by (auto intro: div_nonneg)
  then show ?thesis unfolding liability_compute_def l using c u by (simp add: wp flip: d_def)
qed

lemma premium_due_bound:
  assumes "0 \<le> v" "0 \<le> p"
  shows "0 \<le> fst (premium_due v r dt base p) \<and> fst (premium_due v r dt base p) \<le> p \<and>
    0 \<le> snd (premium_due v r dt base p) \<and> snd (premium_due v r dt base p) \<le> max dt 0"
proof -
  define y where "y = min (sat_u128 (v * sat_u128 (base + sat_u128 (max r 0 * max dt 0))) div (31536000 * 10000)) U64_MAX"
  define z where "z = min (sat_u128 (p * max dt 0) div max y 1) (max dt 0)"
  have "0 \<le> y" by (simp add: y_def div_nonneg)
  moreover have "0 \<le> z" "z \<le> max dt 0" by (simp_all add: z_def div_nonneg)
  ultimately show ?thesis
    using assms unfolding premium_due_def Let_def y_def[symmetric] z_def[symmetric] by (simp add: not_le)
qed

text \<open>What is charged is what has accrued, while the pledge lasts.\<close>

lemma premium_due_accrued:
  assumes "0 \<le> v" "v \<le> U64_MAX" "0 \<le> r" "r \<le> 50000" "0 \<le> dt" "dt \<le> 4294967296" "0 \<le> base" "base \<le> 4294967296000000"
    and "v * (base + r * dt) div (31536000 * 10000) \<le> p" "p \<le> U64_MAX"
  shows "premium_due v r dt base p = (v * (base + r * dt) div (31536000 * 10000), dt)"
proof -
  have rd: "0 \<le> r * dt" "r * dt \<le> 50000 * 4294967296" using assms mult_mono[of r 50000 dt 4294967296] by simp_all
  define s where "s = base + r * dt"
  have s: "0 \<le> s" "s \<le> 9000000000000000" using rd assms by (simp_all add: s_def)
  have vs: "0 \<le> v * s" "v * s \<le> U64_MAX * 9000000000000000"
    using s assms mult_mono[of v U64_MAX s 9000000000000000] by simp_all
  have e: "max r 0 = r" "max dt 0 = dt" using assms by auto
  have x: "sat_u128 (r * dt) = r * dt" "sat_u128 s = s" "sat_u128 (v * s) = v * s"
    using rd s vs by (simp_all add: sat_u128_id is_u128_def)
  define y where "y = v * s div (31536000 * 10000)"
  have y: "y \<le> p" "min y U64_MAX = y" using assms(9,10) by (simp_all add: y_def s_def)
  have z: "y = 0" if "s = 0 \<or> v = 0" using that by (auto simp: y_def)
  show ?thesis
    unfolding premium_due_def Let_def e x y_def[symmetric] y(2) s_def[symmetric] using z y(1) by auto
qed

subsection \<open>Tranches\<close>

text \<open>The share of the position a tranche unwinds, in basis points.\<close>

definition tranche_frac :: "int \<Rightarrow> int \<Rightarrow> int" where
  "tranche_frac ex util =
     clamp MIN_TRANCHE_BPS MAX_TRANCHE_BPS
       ((MIN_TRANCHE_BPS + (MAX_TRANCHE_BPS - MIN_TRANCHE_BPS) *
           min (max (ex - LIQ_GRACE_SECS) 0 * 10000 sdiv (LIQ_GRACE_SECS * TRANCHE_RAMP_GRACES)) 10000 sdiv 10000)
        * (5000 + 15000 * clamp 1000 10000 util sdiv 10000) sdiv 10000)"

lemma tranche_size_ok:
  assumes "0 \<le> sz" "sz \<le> U64_MAX" "0 \<le> ex" "ex \<le> 900000000000000"
  shows "ok (tranche_size sz ex util) (\<lambda>t. max 1 (sz * MIN_TRANCHE_BPS div BPS) \<le> t \<and>
    t \<le> max 1 (sz * MAX_TRANCHE_BPS div BPS))"
proof -
  define d where "d = max (ex - LIQ_GRACE_SECS) 0"
  have "0 \<le> d" "d \<le> 900000000000000" using assms by (simp_all add: d_def)
  then have r: "is_i64 (ex - LIQ_GRACE_SECS)" "is_i64 (d * 10000)" using assms by (simp_all add: is_i64_def)
  have fin: "is_u128 (sz * f) \<and> max 1 (sz * MIN_TRANCHE_BPS div BPS) \<le> max (as_u64 (sz * f div 10000)) 1 \<and>
      max (as_u64 (sz * f div 10000)) 1 \<le> max 1 (sz * MAX_TRANCHE_BPS div BPS)"
    if f: "MIN_TRANCHE_BPS \<le> f" "f \<le> MAX_TRANCHE_BPS" for f
  proof -
    have a: "sz * MIN_TRANCHE_BPS \<le> sz * f" "sz * f \<le> sz * MAX_TRANCHE_BPS" "0 \<le> sz * f"
      using f assms by (auto intro: mult_left_mono)
    have b: "sz * MIN_TRANCHE_BPS div BPS \<le> sz * f div BPS" "sz * f div BPS \<le> sz * MAX_TRANCHE_BPS div BPS"
      using a by (auto intro: zdiv_mono1)
    have c: "0 \<le> sz * f div BPS" using a by (simp add: div_nonneg)
    have "sz * f div BPS \<le> sz" by (rule div_le_bound) (use a assms in auto)
    then have "as_u64 (sz * f div BPS) = sz * f div BPS" using c assms(2) by (simp add: as_u64_id is_u64_def)
    moreover have "is_u128 (sz * f)" using a assms by (simp add: is_u128_def)
    ultimately show ?thesis using b by auto
  qed
  have body: "tranche_size sz ex util = do {
      t \<leftarrow> u128 (sz * tranche_frac ex util); Some (max (as_u64 (t div 10000)) 1) }"
    unfolding tranche_size_def tranche_frac_def Let_def using r by (simp flip: d_def)
  have "MIN_TRANCHE_BPS \<le> tranche_frac ex util" "tranche_frac ex util \<le> MAX_TRANCHE_BPS"
    by (simp_all add: tranche_frac_def clamp_def)
  then show ?thesis unfolding body wp by (rule fin)
qed

text \<open>A longer excursion or a fuller pool never slows the unwinding.\<close>

lemma tranche_frac_mono:
  assumes "ex \<le> ex'" "util \<le> util'"
  shows "tranche_frac ex util \<le> tranche_frac ex' util'"
proof -
  define over where "over e = max (e - LIQ_GRACE_SECS) 0 * 10000" for e
  define climb where "climb e = min (over e sdiv (LIQ_GRACE_SECS * TRANCHE_RAMP_GRACES)) 10000" for e
  define frac where "frac e = MIN_TRANCHE_BPS + (MAX_TRANCHE_BPS - MIN_TRANCHE_BPS) * climb e sdiv 10000" for e
  define speed where "speed u = 5000 + 15000 * clamp 1000 10000 u sdiv 10000" for u
  have "over ex \<le> over ex'" "0 \<le> over ex" "0 \<le> over ex'" using assms(1) by (auto simp: over_def)
  then have "over ex sdiv (LIQ_GRACE_SECS * TRANCHE_RAMP_GRACES) \<le> over ex' sdiv (LIQ_GRACE_SECS * TRANCHE_RAMP_GRACES)"
    "0 \<le> over ex sdiv (LIQ_GRACE_SECS * TRANCHE_RAMP_GRACES)"
    by (intro sdiv_mono sdiv_nonneg_nonneg; simp)+
  then have c: "climb ex \<le> climb ex'" "0 \<le> climb ex" unfolding climb_def by linarith+
  then have f: "frac ex \<le> frac ex'" "0 \<le> frac ex"
    unfolding frac_def by (auto intro!: sdiv_mono add_nonneg_nonneg sdiv_nonneg_nonneg)
  have k: "clamp 1000 10000 util \<le> clamp 1000 10000 util'" "0 \<le> clamp 1000 10000 util"
    using assms(2) by (auto simp: clamp_def)
  then have s: "speed util \<le> speed util'" "0 \<le> speed util"
    unfolding speed_def by (auto intro!: sdiv_mono add_nonneg_nonneg sdiv_nonneg_nonneg)
  have "frac ex * speed util \<le> frac ex' * speed util'"
    by (rule mult_mono) (use f s in linarith)+
  moreover have "0 \<le> frac ex * speed util" using f s by (intro mult_nonneg_nonneg)
  ultimately have "frac ex * speed util sdiv 10000 \<le> frac ex' * speed util' sdiv 10000"
    by (intro sdiv_mono) simp_all
  then show ?thesis
    unfolding tranche_frac_def over_def[symmetric] climb_def[symmetric] frac_def[symmetric] speed_def[symmetric]
    by (auto simp: clamp_def)
qed

lemma sat_u64_div_is_u64: "is_u64 (sat_u64 x div 10000)"
proof -
  have "sat_u64 x \<le> U64_MAX" "0 \<le> sat_u64 x" by (simp_all add: sat_u64_def clamp_def)
  then show ?thesis unfolding is_u64_def by (auto intro: div_nonneg)
qed

lemma collar_amount_nonneg: "pod_wf pod \<Longrightarrow> 0 \<le> collar_amount pod price"
  unfolding collar_amount_def Let_def collar_notional_def value_at_def
  using units_value_range(1)[of "\<bar>exposure pod\<bar>" price]
  by (auto simp: pod_wf_def is_u64_def intro!: div_nonneg)

lemma value_units_nonneg: "0 \<le> p \<Longrightarrow> 0 \<le> value_units d p"
  by (simp add: value_units_def div_nonneg)

lemma slice_bound:
  assumes "0 \<le> v" "v \<le> U64_MAX" "0 \<le> t" "t \<le> n" "1 \<le> n" "n \<le> U64_MAX"
  shows "is_u128 (v * t)" "as_u64 (v * t div n) = v * t div n" "0 \<le> v * t div n" "v * t div n \<le> v"
proof -
  have vt: "0 \<le> v * t" "v * t \<le> U64_MAX * U64_MAX" using assms mult_mono[of v U64_MAX t U64_MAX] by simp_all
  then show "is_u128 (v * t)" by (simp add: is_u128_def)
  show 1: "0 \<le> v * t div n" using vt assms by (simp add: div_nonneg)
  show 2: "v * t div n \<le> v" using assms by (intro muldiv_le_left) auto
  show "as_u64 (v * t div n) = v * t div n" using 1 2 assms by (simp add: as_u64_id is_u64_def)
qed

text \<open>
  The tranche: at least one unit, never more than the position, and never more than the
  larger of the schedule's and the restoring one.
\<close>

lemma tranche_of_ok:
  assumes "pod_wf pod" "exposure pod \<noteq> 0" "0 \<le> ex" "ex \<le> 900000000000000"
  shows "ok (tranche_of pod price ex util) (\<lambda>t. 1 \<le> t \<and> t \<le> \<bar>exposure pod\<bar>)"
proof -
  have w: "\<bar>exposure pod\<bar> \<le> I64_MAX" using assms(1) by (simp add: pod_wf_def)
  show ?thesis
    unfolding tranche_of_def ok_Let ok_bind ok_Some
    by (rule ok_mono[OF tranche_size_ok]) (use assms w in auto)
qed

lemma cut_exposure_shrinks:
  assumes "\<bar>e\<bar> \<le> I64_MAX" "1 \<le> t" "t \<le> \<bar>e\<bar>"
  shows "\<bar>cut_exposure e t\<bar> + t = \<bar>e\<bar>" "0 \<le> cut_exposure e t * sgn e"
proof -
  have "as_i64 t = t" using assms by (simp add: as_i64_id is_i64_def)
  then have "cut_exposure e t = (if e > 0 then e - t else e + t)"
    using assms by (auto simp: cut_exposure_def sat_i64_id is_i64_def)
  then show "\<bar>cut_exposure e t\<bar> + t = \<bar>e\<bar>" "0 \<le> cut_exposure e t * sgn e"
    using assms by (auto simp: sgn_if)
qed

lemma slice_loss_ok:
  assumes "0 \<le> mk" "mk \<le> U64_MAX" "0 \<le> pl" "pl \<le> U64_MAX" "0 \<le> t" "t \<le> n" "1 \<le> n" "n \<le> U64_MAX" "0 \<le> uv" "uv \<le> U64_MAX"
  shows "ok (slice_loss long mk pl t n uv) (\<lambda>(sm, c, r). 0 \<le> sm \<and> sm \<le> mk \<and> 0 \<le> c \<and> 0 \<le> r \<and> c + r = pl * t div n)"
proof -
  define m where "m = mk * t div n"
  define p where "p = pl * t div n"
  note sm = slice_bound[OF assms(1,2,5-8), folded m_def] and sp = slice_bound[OF assms(3-8), folded p_def]
  define s where "s = (uv - m) * (if long then 1 else - 1)"
  have s: "is_i128 (uv - m)" "is_i128 s" using sm assms by (auto simp: s_def is_i128_def)
  define c where "c = (if s < 0 then min (as_u64 \<bar>s\<bar>) p else 0)"
  have "0 \<le> as_u64 x" for x by (simp add: as_u64_def)
  then have c: "0 \<le> c" "c \<le> p" using sp by (auto simp: c_def)
  have r: "sat_u64 (p - c) = p - c" using c sp assms by (simp add: sat_u64_id is_u64_def)
  have "slice_loss long mk pl t n uv = Some (m, c, p - c)"
    unfolding slice_loss_def Let_def u128_ok[OF sm(1)] u128_ok[OF sp(1)] Option.bind_lunit
      m_def[symmetric] p_def[symmetric] sm(2) sp(2) i128_ok[OF s(1)] s_def[symmetric] i128_ok[OF s(2)]
      c_def[symmetric] r ..
  then show ?thesis using sm c by (simp add: p_def)
qed

lemma shrink_pod_wf:
  assumes "pod_wf pod" "\<bar>e\<bar> \<le> I64_MAX" "0 \<le> sm" "0 \<le> c"
  shows "pod_wf (shrink_pod pod e sm c now)" "exposure (shrink_pod pod e sm c now) = e"
    "pledged (shrink_pod pod e sm c now) \<le> pledged pod" "marked (shrink_pod pod e sm c now) \<le> marked pod"
    "pod_ticker (shrink_pod pod e sm c now) = pod_ticker pod"
proof -
  have w: "0 \<le> pledged pod" "pledged pod \<le> U64_MAX" "0 \<le> marked pod" "marked pod \<le> U64_MAX"
    using assms(1) by (simp_all add: pod_wf_def is_u64_def)
  have le: "sat_u64 (pledged pod - c) \<le> pledged pod" "sat_u64 (marked pod - min sm (marked pod)) \<le> marked pod"
    using w assms(3,4) by (auto simp: sat_u64_def clamp_def)
  show "pod_wf (shrink_pod pod e sm c now)"
    using assms(1,2) by (simp add: shrink_pod_def spend_grace_def Let_def pod_wf_def is_u64_def[of 0] is_i64_def[of 0])
  show "pledged (shrink_pod pod e sm c now) \<le> pledged pod" "marked (shrink_pod pod e sm c now) \<le> marked pod"
    using le w by (simp_all add: shrink_pod_def spend_grace_def Let_def)
qed (simp_all add: shrink_pod_def spend_grace_def Let_def)

lemma liability_apply_wf:
  assumes "pod_wf pod" "0 \<le> new_collar_bps lu" "new_collar_bps lu \<le> BPS" "is_u64 (new_collar_dollars lu)"
  shows "pod_wf (liability_apply lu pod)"
  using assms by (simp add: liability_apply_def pod_wf_def)

lemma close_books_wf: "pod_wf pod \<Longrightarrow> pod_wf (close_books pod)"
  by (simp add: close_books_def pod_wf_def is_u64_def is_u128_def)

lemma pod_keeps [simp]:
  "exposure (liability_apply lu pod) = exposure pod" "pledged (liability_apply lu pod) = pledged pod"
  "marked (liability_apply lu pod) = marked pod" "pod_ticker (liability_apply lu pod) = pod_ticker pod"
  "exposure (close_books pod) = exposure pod" "pledged (close_books pod) = pledged pod"
  "marked (close_books pod) = marked pod" "pod_ticker (close_books pod) = pod_ticker pod"
  by (simp_all add: liability_apply_def close_books_def)

text \<open>
  Unwinding always returns, strictly shrinks the position without turning it over, and never
  adds to the pledge; it reports the close exactly when nothing is left.
\<close>

lemma amortise_tranche_ok:
  assumes "pod_wf pod" "exposure pod \<noteq> 0" "rated a" "0 \<le> ex" "ex \<le> 900000000000000" "0 \<le> oev"
  shows "ok (amortise_tranche pod price ex util a oev now) (\<lambda>(pod', dollars, cb, ip, cds, closed).
    pod_wf pod' \<and> \<bar>exposure pod'\<bar> < \<bar>exposure pod\<bar> \<and> 0 \<le> exposure pod' * sgn (exposure pod) \<and>
    pledged pod' \<le> pledged pod \<and> marked pod' \<le> marked pod \<and> dollars \<le> 0 \<and> - I64_MAX \<le> dollars \<and>
    closed = (exposure pod' = 0) \<and> pod_ticker pod' = pod_ticker pod \<and>
    is_u64 cb \<and> is_u64 ip \<and> is_u128 cds)"
proof -
  have w: "0 \<le> pledged pod" "pledged pod \<le> U64_MAX" "\<bar>exposure pod\<bar> \<le> I64_MAX" "0 \<le> marked pod" "marked pod \<le> U64_MAX"
    using assms(1) by (simp_all add: pod_wf_def is_u64_def)
  obtain t where t: "tranche_of pod price ex util = Some t" "1 \<le> t" "t \<le> \<bar>exposure pod\<bar>"
    using okD[OF tranche_of_ok[OF assms(1,2,4,5)]] by blast
  define e where "e = cut_exposure (exposure pod) t"
  have e: "\<bar>e\<bar> + t = \<bar>exposure pod\<bar>" "0 \<le> e * sgn (exposure pod)"
    using cut_exposure_shrinks[OF w(3) t(2,3)] by (simp_all add: e_def)
  define mk where "mk = (if marked pod = 0 then pledged pod else marked pod)"
  have mk: "0 \<le> mk" "mk \<le> U64_MAX" using w by (simp_all add: mk_def)
  define n where "n = max (sat_u64 (\<bar>e\<bar> + t)) 1"
  have n: "n = \<bar>exposure pod\<bar>" using e w t by (simp add: n_def sat_u64_id is_u64_def)
  obtain sm c r where sl: "slice_loss (exposure pod > 0) mk (pledged pod) t n (units_value t price) = Some (sm, c, r)"
    "0 \<le> sm" "0 \<le> c"
    using okD[OF slice_loss_ok[of mk "pledged pod" t n "units_value t price" "exposure pod > 0"]] mk w t n units_value_range
    by auto
  define p where "p = shrink_pod pod e sm c now"
  have p: "pod_wf p" "exposure p = e" "pledged p \<le> pledged pod" "marked p \<le> marked pod" "pod_ticker p = pod_ticker pod"
    using shrink_pod_wf[OF assms(1) _ sl(2,3), of e now] e w t by (simp_all add: p_def)
  obtain lu where lu: "liability_compute oev (pod_collar_bps p) (value_at p price) (pledged p) a = Some lu"
    "0 \<le> new_collar_bps lu" "new_collar_bps lu \<le> BPS" "is_u64 (new_collar_dollars lu)"
    using okD[OF liability_compute_ok[OF assms(3) units_value_range assms(6)]] unfolding value_at_def by blast
  define q where "q = liability_apply lu p"
  have q: "pod_wf q" using liability_apply_wf[OF p(1) lu(2-4)] by (simp add: q_def)
  have "amortise_tranche pod price ex util a oev now = Some (close_books q,
      - min (sat_u64 (units_value t price - r)) I64_MAX, cost_basis q, interest_paid q, collar_dollar_seconds q, e = 0)"
    unfolding amortise_tranche_def Let_def mk_def[symmetric] t(1) Option.bind_lunit e_def[symmetric] n_def[symmetric]
      sl(1) prod.case p_def[symmetric] lu(1) q_def[symmetric] by (simp add: q_def p(2))
  then show ?thesis
    using close_books_wf[OF q] e p t q by (simp add: q_def pod_wf_def)
qed

subsection \<open>Cures and partial closes\<close>

text \<open>
  Posting variation margin: either the owner's balance cannot pay and nothing changes, or
  exactly the gross is taken, the mark moves to the current value and the breach is over.
\<close>

lemma post_variation_margin_cases:
  "commits (post_variation_margin pod dq bank a oev ev excess now) (\<lambda>(pod', dq', r).
    (r = None \<and> pod' = pod \<and> dq' = dq) \<or>
    (r = Some (sat_u64 (excess + excess div 250)) \<and> dq' = dq - sat_u64 (excess + excess div 250) \<and> 0 \<le> dq' \<and>
      marked pod' = ev \<and> breached_at pod' = 0 \<and> exposure pod' = exposure pod \<and> pod_ticker pod' = pod_ticker pod \<and>
      cost_basis pod' = cost_basis pod \<and> funding_checkpoint pod' = funding_checkpoint pod))"
  unfolding post_variation_margin_def Let_def
  by (simp add: wp liability_apply_def is_u64_def)

lemma reinstate_exposure_cases:
  "commits (reinstate_exposure pod dq bank a oev ev gap price now by_owner) (\<lambda>(pod', dq', r).
    (r = None \<and> pod' = pod \<and> dq' = dq) \<or>
    (r = Some (sat_u64 (gap + gap div 250)) \<and> by_owner \<and> dq' = dq - sat_u64 (gap + gap div 250) \<and> 0 \<le> dq' \<and>
      pledged pod' = pledged pod \<and> breached_at pod' = 0 \<and> pod_ticker pod' = pod_ticker pod))"
  unfolding reinstate_exposure_def Let_def
  by (simp add: wp liability_apply_def is_u64_def)

lemma pro_rata_range:
  assumes "0 \<le> v" "0 \<le> m" "0 < d"
  shows "0 \<le> pro_rata m d v" "pro_rata m d v \<le> v"
  using assms by (simp_all add: pro_rata_def div_nonneg)

lemma pro_rata_full:
  assumes "0 \<le> v" "v \<le> U64_MAX" "0 < d" "d \<le> U64_MAX" "d \<le> m" "m \<le> U64_MAX"
  shows "pro_rata m d v = v"
proof -
  have "0 \<le> v * m" "v * m \<le> U64_MAX * U64_MAX" using assms mult_mono[of v U64_MAX m U64_MAX] by simp_all
  then have "sat_u128 (v * m) = v * m" by (simp add: sat_u128_id is_u128_def)
  moreover have "v \<le> v * m div d"
  proof -
    have "v = v * d div d" using assms by simp
    also have "\<dots> \<le> v * m div d" using assms by (intro zdiv_mono1 mult_left_mono) auto
    finally show ?thesis .
  qed
  ultimately show ?thesis by (simp add: pro_rata_def)
qed

text \<open>What a partial close releases plus what stays is what was pledged, and a full close releases all.\<close>

lemma settle_partial_close_conserves:
  assumes "settle_partial_close pod a oev cv pv price now acc = Some (pod', rel, cbr, ioc, raroc, full)"
    "pod_wf pod" "0 \<le> cv"
  shows "pledged pod' + rel = pledged pod" "0 \<le> rel" "full = (exposure pod = 0)" "exposure pod' = exposure pod"
    "pod_ticker pod' = pod_ticker pod"
proof -
  have w: "0 \<le> pledged pod" "pledged pod \<le> U64_MAX" using assms(2) by (simp_all add: pod_wf_def is_u64_def)
  let ?r = "pro_rata cv (max pv 1) (pledged pod)"
  have r: "0 \<le> ?r" "?r \<le> pledged pod" using pro_rata_range[OF w(1) assms(3)] by simp_all
  then have "sat_u64 (pledged pod - ?r) = pledged pod - ?r" using w by (simp add: sat_u64_id is_u64_def)
  with assms(1) r show "pledged pod' + rel = pledged pod" "0 \<le> rel" "full = (exposure pod = 0)"
    "exposure pod' = exposure pod" "pod_ticker pod' = pod_ticker pod"
    by (auto simp: settle_partial_close_def Let_def bind_eq_Some_conv liability_apply_def)
qed

subsection \<open>The ladder comes to an end\<close>

text \<open>A position after \<open>n\<close> tranches, each at its own price, time and utilisation.\<close>

inductive laddered :: "actuary \<Rightarrow> nat \<Rightarrow> stock \<Rightarrow> stock \<Rightarrow> bool" for a where
  untouched: "laddered a 0 pod pod"
| tranche: "laddered a n pod pod' \<Longrightarrow> exposure pod' \<noteq> 0 \<Longrightarrow> 0 \<le> ex \<Longrightarrow> ex \<le> 900000000000000 \<Longrightarrow> 0 \<le> oev \<Longrightarrow>
    amortise_tranche pod' price ex util a oev now = Some (pod'', r) \<Longrightarrow> laddered a (Suc n) pod pod''"

lemma laddered_progress:
  assumes "laddered a n pod pod'" "pod_wf pod" "rated a"
  shows "pod_wf pod' \<and> int n + \<bar>exposure pod'\<bar> \<le> \<bar>exposure pod\<bar>"
  using assms
proof (induction rule: laddered.induct)
  case (tranche n pod pod' ex oev price util now pod'' r)
  then have "pod_wf pod'" "int n + \<bar>exposure pod'\<bar> \<le> \<bar>exposure pod\<bar>" by blast+
  from okD[OF amortise_tranche_ok[OF this(1) tranche.hyps(2) tranche.prems(2) tranche.hyps(3-5), of price util now]] this(2)
  show ?case using tranche.hyps(6) by (cases r) auto
qed simp

end
