(* ===== verification/Depositor.thy ===== *)
theory Depositor
  imports Position
begin

section \<open>A depositor (stay.rs: Depositor)\<close>

text \<open>
  A depositor's account and the methods of \<open>impl Depositor\<close> in
  \<^verbatim>\<open>svm/programs/quid/src/stay.rs\<close> other than \<open>repo\<close> and \<open>renege\<close>, which have theories of
  their own: deposits and withdrawals with their tenure accounting, the settlement of
  funding against a ticker's pot and of yield on pledged SOL, the grace period before a
  breached position is unwound, and the risk-adjusted return bookkeeping. A method that
  takes \<open>&mut self\<close> and \<open>&mut Depository\<close> returns both.
\<close>

record depositor =
  owner :: pubkey
  deposited_quid :: int
  deposited_lamports :: int
  sol_pledged_usd :: int
  deposit_seconds :: int
  last_updated :: int
  drawn :: int
  balances :: "stock list"
  realized_pnl :: int
  total_interest_paid :: int
  total_collar_dollar_seconds :: int
  sol_yield_checkpoint :: int

subsection \<open>Tickers\<close>

definition white_space :: "char \<Rightarrow> bool" where
  "white_space c \<longleftrightarrow> c \<in> {CHR '' '', CHR 0x09, CHR 0x0A, CHR 0x0B, CHR 0x0C, CHR 0x0D}"

definition trim :: "string \<Rightarrow> string" where
  "trim s = rev (dropWhile white_space (rev (dropWhile white_space s)))"

definition pad_ticker :: "string \<Rightarrow> string" where
  "pad_ticker ticker =
     (let bytes = trim ticker; len = min (length bytes) 8 in
      take len bytes @ replicate (8 - len) (CHR 0x00))"

fun find_pod :: "string \<Rightarrow> stock list \<Rightarrow> nat option" where
  "find_pod t [] = None"
| "find_pod t (p # ps) = (if pod_ticker p = t then Some 0 else map_option Suc (find_pod t ps))"

definition put_pod :: "depositor \<Rightarrow> nat \<Rightarrow> stock \<Rightarrow> depositor" where
  "put_pod d i pod = d\<lparr>balances := (balances d)[i := pod]\<rparr>"

subsection \<open>Tenure\<close>

definition adjust_deposit_seconds ::
  "depositor \<Rightarrow> depository \<Rightarrow> int \<Rightarrow> int \<Rightarrow> int \<Rightarrow> (depositor \<times> depository) option" where
  "adjust_deposit_seconds d bank base amount_reduced current_time =
     (if base = 0 \<or> amount_reduced = 0 then Some (d, bank)
      else do {
        t \<leftarrow> i64 (current_time - last_updated d);
        let time_delta = max t 0;
        let aged = sat_u128 (deposit_seconds d + sat_u128 (time_delta * base));
        let remaining = sat_u64 (base - amount_reduced);
        let after = (if is_u128 (aged * remaining) then aged * remaining div base else 0);
        let forfeited = sat_u128 (aged - after);
        Some (d\<lparr>deposit_seconds := after, last_updated := current_time\<rparr>,
              bank\<lparr>total_deposit_seconds := sat_u128 (total_deposit_seconds bank - forfeited)\<rparr>)
      })"

definition accrue_seconds :: "depositor \<Rightarrow> depository \<Rightarrow> int \<Rightarrow> (depositor \<times> depository) option" where
  "accrue_seconds d bank now = do {
     let dc = as_u64 (sat_i64 (now - last_updated d));
     x \<leftarrow> u128 (deposited_quid d * dc);
     let db = as_u64 (sat_i64 (now - bank_last_updated bank));
     y \<leftarrow> u128 (total_deposits bank * db);
     Some (d\<lparr>deposit_seconds := sat_u128 (deposit_seconds d + x)\<rparr>,
           bank\<lparr>total_deposit_seconds := sat_u128 (total_deposit_seconds bank + y)\<rparr>)
   }"

definition update_drawn :: "depositor \<Rightarrow> int \<Rightarrow> depositor" where
  "update_drawn d change =
     (if change > 0 then d\<lparr>drawn := sat_u64 (drawn d + change)\<rparr>
      else d\<lparr>drawn := sat_u64 (drawn d - \<bar>change\<bar>)\<rparr>)"

definition accrue :: "depositor \<Rightarrow> depository \<Rightarrow> int \<Rightarrow> (depositor \<times> depository) option" where
  "accrue d bank now = do {
     (d, bank) \<leftarrow> accrue_seconds d bank now;
     Some (d\<lparr>last_updated := now\<rparr>, bank\<lparr>bank_last_updated := now\<rparr>)
   }"

definition pool_deposit :: "depositor \<Rightarrow> depository \<Rightarrow> int \<Rightarrow> int \<Rightarrow> (depositor \<times> depository) option" where
  "pool_deposit d bank usd now = do {
     (d, bank) \<leftarrow> accrue_seconds d bank now;
     Some (d\<lparr>deposited_quid := sat_u64 (deposited_quid d + usd), last_updated := now\<rparr>,
           bank\<lparr>total_deposits := sat_u64 (total_deposits bank + usd), bank_last_updated := now\<rparr>)
   }"

definition pool_withdraw :: "depositor \<Rightarrow> depository \<Rightarrow> int \<Rightarrow> int \<Rightarrow> (depositor \<times> depository) result" where
  "pool_withdraw d bank usd now = do {
     (d, bank) \<leftarrow> accrue_seconds d bank now;
     let new_total = sat_u64 (total_deposits bank - usd);
     require (new_total \<ge> max_liability bank) Undercollateralised
       (Ok (d\<lparr>deposited_quid := sat_u64 (deposited_quid d - usd), last_updated := now\<rparr>,
            bank\<lparr>bank_last_updated := now, total_deposits := new_total\<rparr>))
   }"

subsection \<open>Funding and yield\<close>

definition settle_pod_funding :: "stock \<Rightarrow> ticker_risk \<Rightarrow> int \<Rightarrow> (stock \<times> ticker_risk \<times> int) option" where
  "settle_pod_funding pod risk price = do {
     let signed_value = units_value_i (exposure pod) price;
     (owed, index) \<leftarrow> funding_owed risk signed_value (funding_checkpoint pod);
     let pod = pod\<lparr>funding_checkpoint := index\<rparr>;
     if owed > 0 then do {
       let pay = min owed (funding_pot risk);
       pot \<leftarrow> u64 (funding_pot risk - pay);
       Some (pod\<lparr>pledged := sat_u64 (pledged pod + pay)\<rparr>, risk\<lparr>funding_pot := pot\<rparr>, min pay I64_MAX)
     }
     else if owed < 0 then do {
       let take = min \<bar>owed\<bar> (pledged pod);
       p \<leftarrow> u64 (pledged pod - take);
       Some (pod\<lparr>pledged := p\<rparr>, risk\<lparr>funding_pot := sat_u64 (funding_pot risk + take)\<rparr>, - min take I64_MAX)
     }
     else Some (pod, risk, 0)
   }"

definition settle_funding :: "depositor \<Rightarrow> string \<Rightarrow> ticker_risk \<Rightarrow> int \<Rightarrow> (depositor \<times> ticker_risk \<times> int) option" where
  "settle_funding d ticker risk price =
     (case find_pod (pad_ticker ticker) (balances d) of
        None \<Rightarrow> Some (d, risk, 0)
      | Some i \<Rightarrow> do {
          (pod, risk, settled) \<leftarrow> settle_pod_funding (balances d ! i) risk price;
          Some (put_pod d i pod, risk, settled)
        })"

definition settle_sol_yield :: "depositor \<Rightarrow> depository \<Rightarrow> depositor \<times> depository \<times> int" where
  "settle_sol_yield d bank =
     (if deposited_lamports d = 0
      then (d\<lparr>sol_yield_checkpoint := sol_yield_index bank\<rparr>, bank, 0)
      else
        let delta = sat_u128 (sol_yield_index bank - sol_yield_checkpoint d);
            d = d\<lparr>sol_yield_checkpoint := sol_yield_index bank\<rparr> in
        if delta = 0 then (d, bank, 0)
        else
          let owed = min (sat_u128 (delta * deposited_lamports d) div SOL_YIELD_SCALE) U64_MAX in
          if owed > 0
          then (d\<lparr>sol_pledged_usd := sat_u64 (sol_pledged_usd d + owed)\<rparr>,
                bank\<lparr>sol_usd_contrib := sat_u64 (sol_usd_contrib bank + owed)\<rparr>, owed)
          else (d, bank, owed))"

subsection \<open>Return on capital and unwinding\<close>

definition accumulate_collar_seconds :: "stock \<Rightarrow> int \<Rightarrow> stock option" where
  "accumulate_collar_seconds pod current_time = do {
     t \<leftarrow> i64 (current_time - updated pod);
     let elapsed = max t 0;
     Some (if elapsed > 0 \<and> pod_collar_bps pod > 0
           then let dollars = (if collar_dollars pod > 0 then collar_dollars pod
                               else sat_u64 (pledged pod * pod_collar_bps pod) div 10000) in
                pod\<lparr>collar_dollar_seconds :=
                      sat_u128 (collar_dollar_seconds pod + sat_u128 (elapsed * dollars))\<rparr>
           else pod)
   }"

definition flush_raroc :: "depositor \<Rightarrow> int \<Rightarrow> int \<Rightarrow> int \<Rightarrow> int \<Rightarrow> (depositor \<times> int) option" where
  "flush_raroc d cb ip cds transfer = do {
     n \<leftarrow> i64 (as_i64 transfer - as_i64 cb);
     net \<leftarrow> i64 (n - as_i64 ip);
     Some (d\<lparr>realized_pnl := sat_i64 (realized_pnl d + net),
             total_interest_paid := sat_u64 (total_interest_paid d + ip),
             total_collar_dollar_seconds := sat_u128 (total_collar_dollar_seconds d + cds)\<rparr>, net)
   }"

definition flush_raroc_pool :: "depository \<Rightarrow> int \<Rightarrow> int \<Rightarrow> depository" where
  "flush_raroc_pool bank net cds =
     bank\<lparr>pool_realized_pnl := sat_i64 (pool_realized_pnl bank + net),
          pool_collar_dollar_seconds := sat_u128 (pool_collar_dollar_seconds bank + cds)\<rparr>"

definition reset_raroc :: "depositor \<Rightarrow> depositor" where
  "reset_raroc d = d\<lparr>realized_pnl := 0, total_collar_dollar_seconds := 0\<rparr>"

text \<open>Flush a closed position's figures to the depositor and the pool.\<close>

definition flush_both :: "depositor \<Rightarrow> depository \<Rightarrow> int \<Rightarrow> int \<Rightarrow> int \<Rightarrow> int \<Rightarrow> (depositor \<times> depository) option" where
  "flush_both d bank cb ip cds transfer = do {
     (d, net) \<leftarrow> flush_raroc d cb ip cds transfer;
     Some (d, flush_raroc_pool bank net cds)
   }"

definition unwind_a_tranche :: "depositor \<Rightarrow> nat \<Rightarrow> int \<Rightarrow> int \<Rightarrow> actuary \<Rightarrow> depository \<Rightarrow> int \<Rightarrow> int \<Rightarrow> int \<Rightarrow> int \<Rightarrow>
    (depositor \<times> depository \<times> int \<times> int) option" where
  "unwind_a_tranche d i price util_bps a bank old_exposure_value current_time now accrued_interest =
     (if i \<ge> length (balances d) then None
      else do {
        (pod, ex) \<leftarrow> excursion (balances d ! i) now;
        let d = put_pod d i pod;
        if ex \<le> LIQ_GRACE_SECS then Some (d, bank, 0, accrued_interest)
        else do {
          (pod, dollars, cb, ip, cds, closed) \<leftarrow>
            amortise_tranche pod price ex util_bps a old_exposure_value current_time;
          let d = update_drawn (put_pod d i pod) dollars;
          let bank = utilisation bank dollars;
          if closed then do {
            (d, bank) \<leftarrow> flush_both d bank cb ip cds 0;
            Some (d, bank, dollars, accrued_interest)
          }
          else Some (d, bank, dollars, accrued_interest)
        }
      })"

subsection \<open>Finding positions\<close>

lemma pad_ticker_length [simp]: "length (pad_ticker t) = 8"
  by (simp add: pad_ticker_def Let_def)

definition trim_nul :: "string \<Rightarrow> string" where
  "trim_nul s = rev (dropWhile (\<lambda>c. c = CHR 0x00) (rev s))"

definition plain_ticker :: "string \<Rightarrow> bool" where
  "plain_ticker t \<longleftrightarrow> t \<noteq> [] \<and> length t \<le> 8 \<and> \<not> white_space (hd t) \<and> \<not> white_space (last t) \<and> last t \<noteq> CHR 0x00"

lemma dropWhile_hd: "xs \<noteq> [] \<Longrightarrow> \<not> P (hd xs) \<Longrightarrow> dropWhile P xs = xs"
  by (cases xs) auto

lemma trim_plain: "plain_ticker t \<Longrightarrow> trim t = t"
  by (simp add: plain_ticker_def trim_def dropWhile_hd hd_rev)

lemma trim_nul_pad:
  assumes "plain_ticker t"
  shows "trim_nul (pad_ticker t) = t"
proof -
  have len: "min (length t) 8 = length t" "t \<noteq> []" "last t \<noteq> CHR 0x00" using assms by (simp_all add: plain_ticker_def)
  have "pad_ticker t = t @ replicate (8 - length t) (CHR 0x00)"
    using trim_plain[OF assms] len by (simp add: pad_ticker_def Let_def)
  moreover have "dropWhile (\<lambda>c. c = CHR 0x00) (replicate n (CHR 0x00) @ rev t) = rev t" for n
    using len by (induction n) (simp_all add: dropWhile_hd hd_rev)
  ultimately show ?thesis by (simp add: trim_nul_def)
qed

lemma find_pod_Some:
  "find_pod t ps = Some i \<longleftrightarrow> i < length ps \<and> pod_ticker (ps ! i) = t \<and> (\<forall>j < i. pod_ticker (ps ! j) \<noteq> t)"
proof (induction ps arbitrary: i)
  case (Cons p ps)
  then show ?case by (cases i) (auto simp: All_less_Suc2)
qed simp

lemma find_pod_SomeD:
  assumes "find_pod t ps = Some i"
  shows "i < length ps" "pod_ticker (ps ! i) = t"
  using assms by (simp_all add: find_pod_Some)

lemma find_pod_update:
  assumes "i < length ps" "pod_ticker pod = pod_ticker (ps ! i)"
  shows "find_pod t (ps[i := pod]) = find_pod t ps"
  using assms
proof (induction ps arbitrary: i)
  case (Cons p ps)
  then show ?case by (cases i) auto
qed simp

text \<open>
  The contract a depositor's book of positions offers its users: looking a position up after
  it was stored finds it, and every other ticker is as it was.
\<close>

locale keyed_book =
  fixes lookup :: "'k \<Rightarrow> 's \<Rightarrow> 'v option" and store :: "'k \<Rightarrow> 'v \<Rightarrow> 's \<Rightarrow> 's" and key :: "'v \<Rightarrow> 'k"
  assumes lookup_store: "lookup k s \<noteq> None \<Longrightarrow> key v = k \<Longrightarrow> lookup k (store k v s) = Some v"
    and lookup_other: "lookup k s \<noteq> None \<Longrightarrow> key v = k \<Longrightarrow> k' \<noteq> k \<Longrightarrow> lookup k' (store k v s) = lookup k' s"
begin

fun stores :: "('k \<times> 'v) list \<Rightarrow> 's \<Rightarrow> 's" where
  "stores [] s = s"
| "stores ((k, v) # kvs) s = stores kvs (store k v s)"

lemma stores_other:
  assumes "\<forall>(k, v) \<in> set kvs. key v = k \<and> k \<noteq> k'" "\<forall>(k, v) \<in> set kvs. lookup k s \<noteq> None"
  shows "lookup k' (stores kvs s) = lookup k' s"
  using assms
proof (induction kvs arbitrary: s)
  case (Cons kv kvs)
  obtain k v where kv: "kv = (k, v)" by (cases kv)
  have *: "lookup k s \<noteq> None" "key v = k" "k \<noteq> k'" using Cons.prems kv by auto
  have keep: "lookup j (store k v s) \<noteq> None" if "lookup j s \<noteq> None" for j
    using lookup_store[OF *(1,2)] lookup_other[OF *(1,2), of j] that by (cases "j = k") auto
  have "lookup k' (stores kvs (store k v s)) = lookup k' (store k v s)"
    by (rule Cons.IH) (use Cons.prems keep in auto)
  then show ?case using lookup_other[OF *(1,2)] *(3) kv by simp
qed simp

end

definition pod_at :: "string \<Rightarrow> depositor \<Rightarrow> stock option" where
  "pod_at t d = map_option (\<lambda>i. balances d ! i) (find_pod t (balances d))"

definition store_pod :: "string \<Rightarrow> stock \<Rightarrow> depositor \<Rightarrow> depositor" where
  "store_pod t pod d = (case find_pod t (balances d) of None \<Rightarrow> d | Some i \<Rightarrow> put_pod d i pod)"

interpretation pods: keyed_book pod_at store_pod pod_ticker
proof
  fix t d and pod :: stock
  assume "pod_at t d \<noteq> None" and k: "pod_ticker pod = t"
  then obtain i where i: "find_pod t (balances d) = Some i" by (auto simp: pod_at_def)
  note b = find_pod_SomeD[OF i]
  show "pod_at t (store_pod t pod d) = Some pod"
    using i b k by (simp add: pod_at_def store_pod_def put_pod_def find_pod_update)
  fix t' assume "t' \<noteq> t"
  moreover have "j \<noteq> i" if "find_pod t' (balances d) = Some j" for j
    using that b(2) \<open>t' \<noteq> t\<close> find_pod_SomeD(2) by metis
  ultimately show "pod_at t' (store_pod t pod d) = pod_at t' d"
    using i b k by (cases "find_pod t' (balances d)") (auto simp: pod_at_def store_pod_def put_pod_def find_pod_update)
qed

subsection \<open>Deposits and tenure\<close>

definition dep_wf :: "depositor \<Rightarrow> bool" where
  "dep_wf d \<longleftrightarrow> is_u64 (deposited_quid d) \<and> is_u64 (deposited_lamports d) \<and> is_u64 (sol_pledged_usd d) \<and>
     is_u128 (deposit_seconds d) \<and> is_u64 (drawn d) \<and> is_u128 (sol_yield_checkpoint d) \<and>
     (\<forall>pod \<in> set (balances d). pod_wf pod)"

lemma dep_wf_put: "dep_wf d \<Longrightarrow> pod_wf pod \<Longrightarrow> dep_wf (put_pod d i pod)"
  by (auto simp: dep_wf_def put_pod_def dest: set_update_subset_insert[THEN subsetD])

lemma dep_wf_nth: "dep_wf d \<Longrightarrow> i < length (balances d) \<Longrightarrow> pod_wf (balances d ! i)"
  by (simp add: dep_wf_def)

lemma accrue_seconds_eq:
  assumes "dep_wf d" "bank_wf bank"
  shows "accrue_seconds d bank now = Some
    (d\<lparr>deposit_seconds := sat_u128 (deposit_seconds d + deposited_quid d * as_u64 (sat_i64 (now - last_updated d)))\<rparr>,
     bank\<lparr>total_deposit_seconds := sat_u128 (total_deposit_seconds bank +
       total_deposits bank * as_u64 (sat_i64 (now - bank_last_updated bank)))\<rparr>)"
proof -
  have u: "0 \<le> as_u64 x" "as_u64 x \<le> U64_MAX" for x using is_as_u64[of x] by (simp_all add: is_u64_def)
  have m: "is_u128 (v * as_u64 x)" if "0 \<le> v" "v \<le> U64_MAX" for v x
    using that u[of x] mult_mono[of v U64_MAX "as_u64 x" U64_MAX] by (simp add: is_u128_def)
  have "is_u128 (deposited_quid d * as_u64 a)" "is_u128 (total_deposits bank * as_u64 b)" for a b
    using m assms by (simp_all add: dep_wf_def bank_wf_def is_u64_def)
  then show ?thesis unfolding accrue_seconds_def Let_def by simp
qed

text \<open>A withdrawal never leaves the deposits below what is reserved.\<close>

lemma pool_withdraw_solvent:
  "commits (pool_withdraw d bank usd now) (\<lambda>(d', bank'). max_liability bank' \<le> total_deposits bank')"
  by (auto simp: pool_withdraw_def wp accrue_seconds_def)

lemma pool_withdraw_refused:
  assumes "dep_wf d" "bank_wf bank" "sat_u64 (total_deposits bank - usd) < max_liability bank"
  shows "pool_withdraw d bank usd now = Err Undercollateralised"
  using assms(3) by (simp add: pool_withdraw_def accrue_seconds_eq[OF assms(1,2)] require_def Let_def)

text \<open>What is deposited can be withdrawn at once, leaving the balances as they were.\<close>

lemma deposit_withdraw_round_trip:
  assumes "dep_wf d" "bank_wf bank" "0 \<le> usd" "deposited_quid d + usd \<le> U64_MAX" "total_deposits bank + usd \<le> U64_MAX"
    "max_liability bank \<le> total_deposits bank"
  shows "ok (pool_deposit d bank usd now) (\<lambda>(d1, b1). ok (pool_withdraw d1 b1 usd now) (\<lambda>r.
    \<exists>d2 b2. r = Inr (d2, b2) \<and> deposited_quid d2 = deposited_quid d \<and> total_deposits b2 = total_deposits bank \<and>
      deposit_seconds d2 = deposit_seconds d1 \<and> total_deposit_seconds b2 = total_deposit_seconds b1))"
proof -
  have w: "0 \<le> deposited_quid d" "0 \<le> total_deposits bank" "total_deposits bank \<le> U64_MAX" "deposited_quid d \<le> U64_MAX"
    using assms(1,2) by (simp_all add: dep_wf_def bank_wf_def is_u64_def)
  have z: "as_u64 (sat_i64 0) = 0" by (simp add: sat_i64_id is_i64_def as_u64_def)
  have s: "sat_u64 (deposited_quid d + usd) = deposited_quid d + usd" "sat_u64 (total_deposits bank + usd) = total_deposits bank + usd"
    "sat_u64 (deposited_quid d) = deposited_quid d" "sat_u64 (total_deposits bank) = total_deposits bank"
    "is_u128 0"
    using assms(3-5) w by (simp_all add: sat_u64_id sat_u128_id is_u64_def is_u128_def)
  have ss: "sat_u128 (sat_u128 x) = sat_u128 x" for x by (rule sat_u128_id) simp
  define d1 where "d1 = d\<lparr>deposit_seconds := sat_u128 (deposit_seconds d + deposited_quid d * as_u64 (sat_i64 (now - last_updated d))),
    deposited_quid := deposited_quid d + usd, last_updated := now\<rparr>"
  define b1 where "b1 = bank\<lparr>total_deposit_seconds := sat_u128 (total_deposit_seconds bank +
       total_deposits bank * as_u64 (sat_i64 (now - bank_last_updated bank))),
    total_deposits := total_deposits bank + usd, bank_last_updated := now\<rparr>"
  have dep: "pool_deposit d bank usd now = Some (d1, b1)"
    using s by (simp add: pool_deposit_def accrue_seconds_eq[OF assms(1,2)] d1_def b1_def)
  have "dep_wf d1" "bank_wf b1" using assms by (simp_all add: d1_def b1_def dep_wf_def bank_wf_def is_u64_def)
  note e = accrue_seconds_eq[OF this, of now]
  have "last_updated d1 = now" "bank_last_updated b1 = now" "max_liability b1 = max_liability bank"
    "sat_u128 (deposit_seconds d1) = deposit_seconds d1" "sat_u128 (total_deposit_seconds b1) = total_deposit_seconds b1"
    by (simp_all add: d1_def b1_def ss)
  moreover have "deposited_quid d1 = deposited_quid d + usd" "total_deposits b1 = total_deposits bank + usd"
    by (simp_all add: d1_def b1_def)
  ultimately show ?thesis
    unfolding dep pool_withdraw_def using z s(3,4) assms(6) by (simp add: require_def e)
qed


text \<open>The seconds a withdrawer gives up leave the pool's total with them: what the others hold is untouched.\<close>

lemma adjust_deposit_seconds_shares:
  assumes "adjust_deposit_seconds d bank base red now = Some (d', bank')" "0 < base" "0 \<le> red"
    "is_u128 (deposit_seconds d)" "0 \<le> last_updated d" "last_updated d \<le> now" "now \<le> 4294967296" "base \<le> U64_MAX"
    "deposit_seconds d + (now - last_updated d) * base \<le> total_deposit_seconds bank" "total_deposit_seconds bank \<le> U128_MAX" "red \<noteq> 0"
  shows "total_deposit_seconds bank' - deposit_seconds d' =
      total_deposit_seconds bank - (deposit_seconds d + (now - last_updated d) * base) \<and>
    deposit_seconds d' \<le> deposit_seconds d + (now - last_updated d) * base"
proof -
  define t where "t = now - last_updated d"
  have t: "0 \<le> t" "t \<le> 4294967296" "is_i64 t" using assms by (simp_all add: t_def is_i64_def)
  have tb: "0 \<le> t * base" "t * base \<le> 4294967296 * U64_MAX" using t assms mult_mono[of t 4294967296 base U64_MAX] by simp_all
  define before where "before = deposit_seconds d + t * base"
  have b: "0 \<le> before" "before \<le> total_deposit_seconds bank" using tb assms by (simp_all add: before_def t_def is_u128_def)
  have sat: "sat_u128 (t * base) = t * base" "sat_u128 before = before"
    using tb b assms(10) by (simp_all add: sat_u128_id is_u128_def)
  define after where "after = (if is_u128 (before * sat_u64 (base - red)) then before * sat_u64 (base - red) div base else 0)"
  have "sat_u64 (base - red) \<le> base" using assms by (auto simp: sat_u64_def clamp_def)
  then have a: "0 \<le> after" "after \<le> before"
    using b assms(2) by (auto simp: after_def intro!: div_nonneg muldiv_le_left)
  have f: "sat_u128 (before - after) = before - after"
    "sat_u128 (total_deposit_seconds bank - (before - after)) = total_deposit_seconds bank - (before - after)"
    using a b assms(10) by (simp_all add: sat_u128_id is_u128_def)
  have mt: "max t 0 = t" "\<not> (base = 0 \<or> red = 0)" using t assms(2,11) by simp_all
  have "adjust_deposit_seconds d bank base red now = Some (d\<lparr>deposit_seconds := after, last_updated := now\<rparr>,
    bank\<lparr>total_deposit_seconds := total_deposit_seconds bank - (before - after)\<rparr>)"
    unfolding adjust_deposit_seconds_def Let_def t_def[symmetric] i64_ok[OF t(3)] Option.bind_lunit mt(1) if_not_P[OF mt(2)]
      sat(1) before_def[symmetric] sat(2) after_def[symmetric] f ..
  with assms(1) have "d' = d\<lparr>deposit_seconds := after, last_updated := now\<rparr>"
    "bank' = bank\<lparr>total_deposit_seconds := total_deposit_seconds bank - (before - after)\<rparr>" by simp_all
  then show ?thesis using a by (simp add: before_def t_def)
qed

subsection \<open>Funding and yield are paid once, from the pot\<close>

lemma settle_pod_funding_conserves:
  assumes "settle_pod_funding pod risk price = Some (pod', risk', s)"
    "is_u64 (pledged pod)" "is_u64 (funding_pot risk)" "pledged pod + funding_pot risk \<le> U64_MAX"
  shows "pledged pod' + funding_pot risk' = pledged pod + funding_pot risk" "is_u64 (pledged pod')" "is_u64 (funding_pot risk')"
    "funding_checkpoint pod' = funding_index (risk_actuary risk)" "risk_actuary risk' = risk_actuary risk"
    "exposure pod' = exposure pod" "pod_ticker pod' = pod_ticker pod"
proof -
  obtain owed index where o: "funding_owed risk (units_value_i (exposure pod) price) (funding_checkpoint pod) = Some (owed, index)"
    using assms(1) by (auto simp: settle_pod_funding_def bind_eq_Some_conv)
  have ix: "index = funding_index (risk_actuary risk)"
    using o by (auto simp: funding_owed_def Let_def bind_eq_Some_conv split: if_splits)
  have u: "0 \<le> pledged pod" "0 \<le> funding_pot risk" using assms(2,3) by (simp_all add: is_u64_def)
  have sat: "sat_u64 x = x" if "0 \<le> x" "x \<le> pledged pod + funding_pot risk" for x
    using that assms(4) by (simp add: sat_u64_id is_u64_def)
  define pay where "pay = min owed (funding_pot risk)"
  define tk where "tk = min \<bar>owed\<bar> (pledged pod)"
  have res: "(pledged pod' = pledged pod + pay \<and> funding_pot risk' = funding_pot risk - pay \<and> owed > 0 \<or>
      pledged pod' = pledged pod - tk \<and> funding_pot risk' = funding_pot risk + tk \<and> owed < 0 \<or>
      pledged pod' = pledged pod \<and> funding_pot risk' = funding_pot risk \<and> owed = 0) \<and>
      funding_checkpoint pod' = index \<and> risk_actuary risk' = risk_actuary risk \<and> exposure pod' = exposure pod \<and>
      pod_ticker pod' = pod_ticker pod"
    using assms(1) u o sat[of "pledged pod + pay"] sat[of "funding_pot risk + tk"]
    unfolding settle_pod_funding_def Let_def o Option.bind_lunit prod.case pay_def[symmetric] tk_def[symmetric]
    by (auto simp: bind_eq_Some_conv pay_def tk_def split: if_splits)
  then show "pledged pod' + funding_pot risk' = pledged pod + funding_pot risk" "funding_checkpoint pod' = funding_index (risk_actuary risk)"
    "risk_actuary risk' = risk_actuary risk" "exposure pod' = exposure pod" "pod_ticker pod' = pod_ticker pod"
    using ix by auto
  show "is_u64 (pledged pod')" "is_u64 (funding_pot risk')"
    using res u assms(4) by (auto simp: is_u64_def pay_def tk_def)
qed

lemma settle_pod_funding_twice:
  assumes "settle_pod_funding pod risk price = Some (pod', risk', s)"
    "funding_checkpoint pod' = funding_index (risk_actuary risk)" "risk_actuary risk' = risk_actuary risk"
  shows "settle_pod_funding pod' risk' price' = Some (pod', risk', 0)"
  using assms(2,3) by (simp add: settle_pod_funding_def funding_owed_def Let_def sat_i128_id is_i128_def)

lemma settle_sol_yield_twice:
  assumes "settle_sol_yield d bank = (d', bank', owed)"
  shows "settle_sol_yield d' bank' = (d', bank', 0)"
proof -
  have "sol_yield_checkpoint d' = sol_yield_index bank'" "deposited_lamports d' = deposited_lamports d"
    using assms by (auto simp: settle_sol_yield_def Let_def split: if_splits)
  then show ?thesis by (simp add: settle_sol_yield_def sat_u128_id is_u128_def)
qed

subsection \<open>The grace period\<close>

lemma unwind_within_grace:
  assumes "i < length (balances d)" "excursion (balances d ! i) now = Some (pod, ex)" "ex \<le> LIQ_GRACE_SECS"
  shows "unwind_a_tranche d i price util a bank oev t now acc = Some (put_pod d i pod, bank, 0, acc)"
  using assms by (simp add: unwind_a_tranche_def)

lemma excursion_ok:
  assumes "0 \<le> breached_at pod" "breached_at pod \<le> 4611686018427387904" "0 \<le> now" "now \<le> 4611686018427387904"
  shows "ok (excursion pod now) (\<lambda>(pod', ex). pod' = (if breached_at pod = 0 then pod\<lparr>breached_at := now\<rparr> else pod) \<and>
    0 \<le> ex \<and> ex \<le> now \<and> (breached_at pod = 0 \<longrightarrow> ex = 0))"
  using assms by (auto simp: excursion_def wp is_i64_def Let_def)

subsection \<open>The pool as a ledger\<close>

text \<open>
  What the pool promises its depositors, without tenure or clocks: a balance, the pool's
  total, and the part of it that is reserved. A deposit raises both; a withdrawal lowers both
  unless it would reach the reserve.
\<close>

record ledger =
  lg_balance :: int
  lg_total :: int
  lg_reserved :: int

definition ledger_of :: "depositor \<Rightarrow> depository \<Rightarrow> ledger" where
  "ledger_of d bank = \<lparr>lg_balance = deposited_quid d, lg_total = total_deposits bank, lg_reserved = max_liability bank\<rparr>"

definition lg_deposit :: "int \<Rightarrow> ledger \<Rightarrow> ledger" where
  "lg_deposit usd l = l\<lparr>lg_balance := lg_balance l + usd, lg_total := lg_total l + usd\<rparr>"

definition lg_withdraw :: "int \<Rightarrow> ledger \<Rightarrow> ledger option" where
  "lg_withdraw usd l =
     (if lg_total l - usd < lg_reserved l then None
      else Some (l\<lparr>lg_balance := lg_balance l - usd, lg_total := lg_total l - usd\<rparr>))"

lemma pool_deposit_refines:
  assumes "dep_wf d" "bank_wf bank" "0 \<le> usd" "deposited_quid d \<le> total_deposits bank" "total_deposits bank + usd \<le> U64_MAX"
  shows "ok (pool_deposit d bank usd now) (\<lambda>(d', bank'). ledger_of d' bank' = lg_deposit usd (ledger_of d bank) \<and>
    dep_wf d' \<and> bank_wf bank')"
  using assms
  by (simp add: pool_deposit_def accrue_seconds_eq[OF assms(1,2)] ledger_of_def lg_deposit_def dep_wf_def bank_wf_def
      sat_u64_id is_u64_def)

lemma pool_withdraw_refines:
  assumes "dep_wf d" "bank_wf bank" "0 \<le> usd" "usd \<le> deposited_quid d" "deposited_quid d \<le> total_deposits bank"
  shows "case lg_withdraw usd (ledger_of d bank) of
      None \<Rightarrow> pool_withdraw d bank usd now = Err Undercollateralised
    | Some l \<Rightarrow> (\<exists>d' bank'. pool_withdraw d bank usd now = Ok (d', bank') \<and> ledger_of d' bank' = l \<and> dep_wf d' \<and> bank_wf bank')"
proof -
  have "sat_u64 (total_deposits bank - usd) = total_deposits bank - usd" "sat_u64 (deposited_quid d - usd) = deposited_quid d - usd"
    using assms by (simp_all add: dep_wf_def bank_wf_def sat_u64_id is_u64_def)
  then show ?thesis
    using assms
    by (simp add: pool_withdraw_def accrue_seconds_eq[OF assms(1,2)] ledger_of_def lg_withdraw_def require_def dep_wf_def
        bank_wf_def is_u64_def)
qed

text \<open>A run of deposits and withdrawals with their times; a refused withdrawal is rolled back.\<close>

datatype (plugins only: code) pool_op = Put int int | Get int int

fun run_pool :: "pool_op list \<Rightarrow> depositor \<Rightarrow> depository \<Rightarrow> (depositor \<times> depository) option" where
  "run_pool [] d bank = Some (d, bank)"
| "run_pool (Put usd now # ops) d bank = do {
     (d, bank) \<leftarrow> pool_deposit d bank usd now;
     run_pool ops d bank
   }"
| "run_pool (Get usd now # ops) d bank = do {
     r \<leftarrow> pool_withdraw d bank usd now;
     case r of Inl _ \<Rightarrow> run_pool ops d bank | Inr (d, bank) \<Rightarrow> run_pool ops d bank
   }"

fun run_ledger :: "pool_op list \<Rightarrow> ledger \<Rightarrow> ledger" where
  "run_ledger [] l = l"
| "run_ledger (Put usd now # ops) l = run_ledger ops (lg_deposit usd l)"
| "run_ledger (Get usd now # ops) l = run_ledger ops (case lg_withdraw usd l of None \<Rightarrow> l | Some l' \<Rightarrow> l')"

text \<open>The run asks for no more than the balance of the moment, and the total stays a \<open>u64\<close>.\<close>

fun affordable :: "pool_op list \<Rightarrow> ledger \<Rightarrow> bool" where
  "affordable [] l \<longleftrightarrow> True"
| "affordable (Put usd now # ops) l \<longleftrightarrow> 0 \<le> usd \<and> lg_total l + usd \<le> U64_MAX \<and> affordable ops (lg_deposit usd l)"
| "affordable (Get usd now # ops) l \<longleftrightarrow> 0 \<le> usd \<and> usd \<le> lg_balance l \<and>
     affordable ops (case lg_withdraw usd l of None \<Rightarrow> l | Some l' \<Rightarrow> l')"

lemma lg_withdraw_below:
  "lg_withdraw usd l = Some l' \<Longrightarrow> lg_balance l \<le> lg_total l \<Longrightarrow> lg_balance l' \<le> lg_total l'"
  by (auto simp: lg_withdraw_def split: if_splits)

lemma run_pool_refines:
  assumes "dep_wf d" "bank_wf bank" "deposited_quid d \<le> total_deposits bank" "affordable ops (ledger_of d bank)"
  shows "\<exists>d' bank'. run_pool ops d bank = Some (d', bank') \<and> ledger_of d' bank' = run_ledger ops (ledger_of d bank)"
  using assms
proof (induction ops arbitrary: d bank)
  case (Cons op ops)
  show ?case
  proof (cases op)
    case (Put usd now)
    from okD[OF pool_deposit_refines[of d bank usd now]] Cons.prems Put obtain d1 b1 where
      s: "pool_deposit d bank usd now = Some (d1, b1)" "ledger_of d1 b1 = lg_deposit usd (ledger_of d bank)" "dep_wf d1" "bank_wf b1"
      by (auto simp: ledger_of_def)
    then have "deposited_quid d1 \<le> total_deposits b1" using Cons.prems(3) by (simp add: ledger_of_def lg_deposit_def)
    then show ?thesis using Cons.IH[OF s(3,4)] Cons.prems(4) s Put by simp
  next
    case (Get usd now)
    have a: "0 \<le> usd" "usd \<le> deposited_quid d" using Cons.prems(4) Get by (simp_all add: ledger_of_def)
    note w = pool_withdraw_refines[OF Cons.prems(1,2) a Cons.prems(3), of now]
    show ?thesis
    proof (cases "lg_withdraw usd (ledger_of d bank)")
      case None
      then show ?thesis using Cons.IH[OF Cons.prems(1-3)] Cons.prems(4) w Get by simp
    next
      case (Some l)
      then obtain d1 b1 where s: "pool_withdraw d bank usd now = Ok (d1, b1)" "ledger_of d1 b1 = l" "dep_wf d1" "bank_wf b1"
        using w by auto
      then have "deposited_quid d1 \<le> total_deposits b1"
        using lg_withdraw_below[OF Some] Cons.prems(3) by (auto simp: ledger_of_def)
      then show ?thesis using Cons.IH[OF s(3,4)] Cons.prems(4) s Some Get by simp
    qed
  qed
qed simp

end
