(* ===== verification/Repo.thy ===== *)
theory Repo
  imports Depositor
begin

section \<open>Repositioning (stay.rs: Depositor::repo)\<close>

text \<open>
  \<open>repo\<close> is the one entry point through which a position changes exposure or is unwound; it
  is called with a signed number of units by the owner's handler and with zero by the
  cranks. The theory follows its text: the quote (band, trigger, premium, leverage cap), the
  margin call a shrinking pool makes, then the long and the short side, each with its
  over-profit cure, its under-collateralised branch, the reduction of the position and the
  addition to it. Every branch returns the depositor, the depository and the pair the source
  returns; an error carries no state, as the transaction is rolled back.
\<close>

abbreviation (input) BPS_MAX :: int where "BPS_MAX \<equiv> 10000"

type_synonym repo_result = "(depositor \<times> depository \<times> int \<times> int) result"

subsection \<open>The quote\<close>

record quote =
  q_old_value :: int
  q_reducing :: bool
  q_had_mark :: bool
  q_mark :: int
  q_band_bps :: int
  q_required_bps :: int
  q_collar_amt :: int
  q_trigger_amt :: int
  q_accrued :: int
  q_billed :: int
  q_util_bps :: int
  q_max_lev :: int

definition share_of :: "int \<Rightarrow> int \<Rightarrow> int" where
  "share_of v bps = min (sat_u128 (v * bps) div 10000) U64_MAX"

definition distance_to_edge :: "int \<Rightarrow> int \<Rightarrow> int \<Rightarrow> int" where
  "distance_to_edge mark collar_amt old_value =
     (let barrier = sat_u64 (mark + collar_amt);
          lower = sat_u64 (mark - collar_amt) in
      if old_value > 0 then
        let to_upper = sat_u64 (barrier - old_value);
            to_lower = sat_u64 (old_value - lower);
            nearest = min to_upper to_lower in
        min (sat_u128 (nearest * 10000) div old_value) I64_MAX
      else 10000)"

definition position_rate :: "loss_profile \<Rightarrow> int \<Rightarrow> int \<Rightarrow> int \<Rightarrow> actuary \<Rightarrow> depository \<Rightarrow> int option" where
  "position_rate profile distance collar amount a bank = do {
     h \<leftarrow> hazard_rate_bps distance collar amount a (total_deposits bank) (max_liability bank);
     Some (sat_i64 (lp_premium_bps profile + h))
   }"

definition signed_notional :: "stock \<Rightarrow> int \<Rightarrow> int option" where
  "signed_notional pod old_value =
     (if exposure pod < 0 then i64 (- as_i64 old_value) else Some (as_i64 old_value))"

definition position_quote :: "stock \<Rightarrow> int \<Rightarrow> int \<Rightarrow> int \<Rightarrow> int \<Rightarrow> actuary \<Rightarrow> depository \<Rightarrow> quote option" where
  "position_quote pod amount price current_time slot a bank = do {
     let old_value = value_at pod price;
     leverage \<leftarrow> leverage_of old_value (pledged pod);
     collar \<leftarrow> collar_bps leverage a;
     let reducing = (amount \<noteq> 0 \<and> exposure pod \<noteq> 0 \<and> (amount < 0) = (exposure pod > 0));
     let had_mark = (marked pod \<noteq> 0);
     let mark = (if had_mark then marked pod else pledged pod);
     sn \<leftarrow> signed_notional pod old_value;
     profile \<leftarrow> loss_profile_of a sn (net_exposure a);
     let band = clamp 1 10000 (lp_margin_bps profile);
     let trig = clamp 1 band (lp_trigger_bps profile);
     rm \<leftarrow> redemption_margin_bps bank;
     let required = clamp 1 BPS_MAX (band * rm sdiv 10000);
     let collar_amt = share_of mark band;
     let trigger_amt = share_of mark trig;
     let elapsed = sat_i64 (current_time - updated pod);
     conc \<leftarrow> utilisation_bps bank;
     let distance = distance_to_edge mark collar_amt old_value;
     let base_bps_seconds = sat_u128 (premium_index a - premium_checkpoint pod);
     rate \<leftarrow> position_rate profile distance collar amount a bank;
     let (accrued, billed) = premium_due old_value rate elapsed base_bps_seconds (pledged pod);
     let util = clamp 1000 10000 conc;
     max_lev \<leftarrow> max_leverage_pct a slot conc;
     Some \<lparr>q_old_value = old_value, q_reducing = reducing, q_had_mark = had_mark, q_mark = mark,
           q_band_bps = band, q_required_bps = required, q_collar_amt = collar_amt,
           q_trigger_amt = trigger_amt, q_accrued = accrued, q_billed = billed,
           q_util_bps = util, q_max_lev = max_lev\<rparr>
   }"

subsection \<open>Shared pieces\<close>

text \<open>The margin call: a crank, unmet redemptions, and a pledge below the raised requirement.\<close>

definition margin_call :: "quote \<Rightarrow> stock \<Rightarrow> int \<Rightarrow> depository \<Rightarrow> bool" where
  "margin_call q pod amount bank \<longleftrightarrow>
     amount = 0 \<and> unwind_demand bank > 0 \<and>
     pledged pod < sat_u128 (q_old_value q * q_required_bps q) div 10000 \<and> q_old_value q > 0"

definition book_drawn :: "depositor \<Rightarrow> depository \<Rightarrow> int \<Rightarrow> depositor \<times> depository" where
  "book_drawn d bank change = (update_drawn d change, utilisation bank change)"

text \<open>The outcome of a variation margin call: the owner paid, or the position is unwound.\<close>

definition cure_or_unwind :: "depositor \<Rightarrow> nat \<Rightarrow> stock \<Rightarrow> quote \<Rightarrow> int \<Rightarrow> int \<Rightarrow> int \<Rightarrow> int \<Rightarrow> int \<Rightarrow> int \<Rightarrow>
    actuary \<Rightarrow> depository \<Rightarrow> repo_result" where
  "cure_or_unwind d i pod q amount price exposure_value excess stamp now a bank =
     attempt (post_variation_margin pod (deposited_quid d) bank a (q_old_value q) exposure_value excess stamp)
       (\<lambda>(pod, dq, paid). let d = put_pod (d\<lparr>deposited_quid := dq\<rparr>) i pod in
          case paid of
            Some gross \<Rightarrow> let (d, bank) = book_drawn d bank (as_i64 gross) in
                          Ok (d, bank, as_i64 gross, q_accrued q)
          | None \<Rightarrow> if amount \<noteq> 0 then Err Undercollateralised
                    else do {
                      r \<leftarrow> unwind_a_tranche d i price (q_util_bps q) a bank (q_old_value q) stamp now (q_accrued q);
                      Ok r
                    })"

definition heal :: "stock \<Rightarrow> quote \<Rightarrow> int \<Rightarrow> stock" where
  "heal pod q exposure_value =
     (if exposure_value \<le> sat_u64 (q_mark q + q_collar_amt q) \<and>
         exposure_value \<ge> sat_u64 (q_mark q - q_collar_amt q)
      then pod\<lparr>breached_at := 0\<rparr> else pod)"

definition new_mark :: "stock \<Rightarrow> quote \<Rightarrow> int \<Rightarrow> int option" where
  "new_mark pod q final_exp =
     (if \<not> q_had_mark q then Some final_exp
      else do {
        s \<leftarrow> i128 (marked pod + final_exp);
        s \<leftarrow> i128 (s - q_old_value q);
        Some (as_u64 (max s 0))
      })"

definition value_change :: "int \<Rightarrow> int \<Rightarrow> int" where
  "value_change final_exp old_value = clamp I64_MIN I64_MAX (final_exp - old_value)"

subsection \<open>Reducing a long\<close>

definition close_long :: "depositor \<Rightarrow> nat \<Rightarrow> stock \<Rightarrow> quote \<Rightarrow> int \<Rightarrow> int \<Rightarrow> int \<Rightarrow> actuary \<Rightarrow> depository \<Rightarrow> repo_result" where
  "close_long d i pod q redeem_dollars price stamp a bank = do {
     let mark = (if marked pod \<noteq> 0 then marked pod else pledged pod);
     let pledged_released = pledged pod;
     let total = as_u64 (max (pledged_released + (redeem_dollars - mark) - q_accrued q) 0);
     let from_pool = sat_u64 (total - pledged_released);
     let pod = pod\<lparr>pledged := 0, marked := 0, updated := stamp\<rparr>;
     lu \<leftarrow> liability_compute (q_old_value q) (pod_collar_bps pod) (value_at pod price) (pledged pod) a;
     let pod = liability_apply lu pod;
     let util_change = - min redeem_dollars I64_MAX;
     let cb = cost_basis pod;
     let ip = interest_paid pod;
     let cds = collar_dollar_seconds pod;
     let pod = pod\<lparr>cost_basis := 0, interest_paid := 0, collar_dollar_seconds := 0\<rparr>;
     let (d, bank) = book_drawn (put_pod d i pod) bank util_change;
     (d, bank) \<leftarrow> flush_both d bank cb ip cds total;
     delta \<leftarrow> i64 (- as_i64 from_pool);
     Ok (d, bank, delta, total)
   }"

definition trim_long :: "depositor \<Rightarrow> nat \<Rightarrow> stock \<Rightarrow> quote \<Rightarrow> int \<Rightarrow> int \<Rightarrow> int \<Rightarrow> actuary \<Rightarrow> depository \<Rightarrow> repo_result" where
  "trim_long d i pod q redeem_dollars price stamp a bank = do {
     let mark = (if marked pod \<noteq> 0 then marked pod else pledged pod);
     let basis_slice = as_u64 (sat_u128 (mark * redeem_dollars) div max (q_old_value q) 1);
     (pod, released, basis_closed, interest_on_closed, (_, ip, cds), fully_closed) \<leftarrow>
       settle_partial_close pod a (q_old_value q) redeem_dollars (q_old_value q) price stamp (q_accrued q);
     let user_credit = as_u64 (max (released + redeem_dollars - basis_slice - interest_on_closed) 0);
     let exp_after = (if fully_closed then 0 else exposure pod);
     util_change \<leftarrow> i64 (- as_i64 redeem_dollars);
     let (d, bank) = book_drawn (put_pod d i pod) bank util_change;
     (d, bank) \<leftarrow> (if exp_after = 0 then flush_both d bank basis_closed ip cds user_credit
                   else Some (d, bank));
     Ok (d, bank, as_i64 (sat_u64 (released + q_accrued q)), user_credit)
   }"

definition reduce_long :: "depositor \<Rightarrow> nat \<Rightarrow> stock \<Rightarrow> quote \<Rightarrow> int \<Rightarrow> int \<Rightarrow> int \<Rightarrow> actuary \<Rightarrow> depository \<Rightarrow> repo_result" where
  "reduce_long d i pod q amount price stamp a bank =
     (let amount' = (if exposure pod < 0 then sat_i64 (amount + sat_i64 (- exposure pod)) else amount);
          pod = (if exposure pod < 0 then pod\<lparr>exposure := 0\<rparr> else pod);
          redeem_dollars = units_value \<bar>amount'\<bar> price in
      if exposure pod = 0 then close_long d i pod q redeem_dollars price stamp a bank
      else trim_long d i pod q redeem_dollars price stamp a bank)"

subsection \<open>Adding to a long\<close>

text \<open>
  Meeting the margin on the new notional: from the pledge, from the owner's balance, or by
  shedding what neither can carry. Returns the balance, the position and what was taken.
\<close>

definition fund_long :: "int \<Rightarrow> stock \<Rightarrow> int \<Rightarrow> int \<Rightarrow> int \<Rightarrow> (int \<times> stock \<times> int) option" where
  "fund_long dq pod new_exp band price =
     (let required = share_of new_exp band in
      if pledged pod < required then
        let short = sat_u64 (required - pledged pod) in
        if dq \<ge> short then do {
          dq' \<leftarrow> u64 (dq - short);
          Some (dq', pod\<lparr>pledged := sat_u64 (pledged pod + short)\<rparr>, short)
        }
        else do {
          let fundable = sat_u64 (pledged pod + dq);
          let affordable = min (sat_u128 (fundable * 10000) div max band 1) U64_MAX;
          let over = sat_u64 (new_exp - affordable);
          let shed = as_i64 (value_units over price);
          let pod = pod\<lparr>exposure := (if exposure pod > 0 then sat_i64 (exposure pod - shed)
                                    else sat_i64 (exposure pod + shed))\<rparr>;
          let need = share_of (value_at pod price) band;
          if need > pledged pod then do {
            let topup = min (sat_u64 (need - pledged pod)) dq;
            dq' \<leftarrow> u64 (dq - topup);
            Some (dq', pod\<lparr>pledged := sat_u64 (pledged pod + topup)\<rparr>, topup)
          }
          else Some (dq, pod, 0)
        }
      else Some (dq, pod, 0))"

definition add_long :: "depositor \<Rightarrow> nat \<Rightarrow> stock \<Rightarrow> quote \<Rightarrow> int \<Rightarrow> int \<Rightarrow> int \<Rightarrow> actuary \<Rightarrow> depository \<Rightarrow> repo_result" where
  "add_long d i pod q amount price stamp a bank = do {
     let new_exp = units_value (as_u64 (exposure pod)) price;
     post_lev \<leftarrow> leverage_of new_exp (pledged pod);
     require (post_lev \<le> q_max_lev q) Undercollateralised (do {
       (dq, pod, taken) \<leftarrow> fund_long (deposited_quid d) pod new_exp (q_band_bps q) price;
       let pod = pod\<lparr>updated := stamp\<rparr>;
       let final_exp = value_at pod price;
       m \<leftarrow> new_mark pod q final_exp;
       let pod = pod\<lparr>marked := m\<rparr>;
       lu \<leftarrow> liability_compute (q_old_value q) (pod_collar_bps pod) final_exp (pledged pod) a;
       require (amount > 0 \<longrightarrow> has_capacity bank (sat_u64 (new_collar_dollars lu - old_collar_dollars lu)))
         PoolAtCapacity (
         let pod = liability_apply lu pod;
             (d, bank) = book_drawn (put_pod (d\<lparr>deposited_quid := dq\<rparr>) i pod) bank
                           (value_change final_exp (q_old_value q)) in
         Ok (d, bank, as_i64 taken, q_accrued q))
     })
   }"

subsection \<open>The long side\<close>

definition repo_long :: "depositor \<Rightarrow> nat \<Rightarrow> stock \<Rightarrow> quote \<Rightarrow> int \<Rightarrow> int \<Rightarrow> int \<Rightarrow> int \<Rightarrow> actuary \<Rightarrow> depository \<Rightarrow> repo_result" where
  "repo_long d i pod q amount price stamp now a bank =
     (let upper = sat_u64 (q_mark q + q_collar_amt q);
          value = q_old_value q;
          lower = sat_u64 (q_mark q - q_trigger_amt q) in
      if value > upper \<and> \<not> q_reducing q then
        cure_or_unwind d i pod q amount price value (sat_u64 (value - upper)) stamp now a bank
      else if lower > value \<and> value > 0 \<and> \<not> q_reducing q then
        attempt (reinstate_exposure pod (deposited_quid d) bank a (q_old_value q) value
                   (sat_u64 (sat_u64 (lower - value) - q_collar_amt q)) price stamp (amount \<noteq> 0))
          (\<lambda>(pod, dq, paid). let d = put_pod (d\<lparr>deposited_quid := dq\<rparr>) i pod in
             case paid of
               Some drained \<Rightarrow> let (d, bank) = book_drawn d bank (as_i64 drained) in
                               Ok (d, bank, 0, q_accrued q)
             | None \<Rightarrow> if amount = 0 then do {
                         r \<leftarrow> unwind_a_tranche d i price (q_util_bps q) a bank (q_old_value q) stamp now (q_accrued q);
                         Ok r
                       }
                       else Err Undercollateralised)
      else
        let pod = heal pod q value in
        require (amount \<noteq> 0) InvalidAmount (
          let pod = pod\<lparr>exposure := sat_i64 (exposure pod + amount)\<rparr> in
          if amount < 0 then reduce_long d i pod q amount price stamp a bank
          else add_long d i pod q amount price stamp a bank))"

subsection \<open>The short side\<close>

definition reduce_short :: "depositor \<Rightarrow> nat \<Rightarrow> stock \<Rightarrow> quote \<Rightarrow> int \<Rightarrow> int \<Rightarrow> int \<Rightarrow> int \<Rightarrow> actuary \<Rightarrow> depository \<Rightarrow> repo_result" where
  "reduce_short d i pod q amount old_exp price stamp a bank = do {
     let amount' = (if exposure pod > 0 then sat_i64 (amount - exposure pod) else amount);
     let pod = (if exposure pod > 0 then pod\<lparr>exposure := 0\<rparr> else pod);
     let redeem_dollars = units_value \<bar>amount'\<bar> price;
     let mark_s = (if marked pod \<noteq> 0 then marked pod else pledged pod);
     (pod, pledged_reduce, basis_closed, _, (_, ip, cds), fully_closed) \<leftarrow>
       settle_partial_close pod a (q_old_value q) redeem_dollars (if old_exp > 0 then old_exp else 1)
         price stamp (q_accrued q);
     let cost_basis_share = as_u64 (sat_u128 (mark_s * redeem_dollars) div max old_exp 1);
     let signed_pnl = cost_basis_share - redeem_dollars;
     let user_credit = as_u64 (max (sat_i128 (pledged_reduce + signed_pnl)) 0);
     let exp_after = (if fully_closed then 0 else exposure pod);
     util_change \<leftarrow> i64 (- as_i64 redeem_dollars);
     let (d, bank) = book_drawn (put_pod d i pod) bank util_change;
     (d, bank) \<leftarrow> (if exp_after = 0 then flush_both d bank basis_closed ip cds user_credit
                   else Some (d, bank));
     Ok (d, bank, as_i64 (sat_u64 (pledged_reduce + q_accrued q)), user_credit)
   }"

definition fund_short :: "int \<Rightarrow> stock \<Rightarrow> int \<Rightarrow> int \<Rightarrow> int \<Rightarrow> depository \<Rightarrow> (int \<times> stock \<times> depository) option" where
  "fund_short dq pod new_exp band price bank =
     (let required = share_of new_exp band in
      if pledged pod < required then
        let deficit = sat_u64 (required - pledged pod) in
        if dq \<ge> deficit then do {
          dq' \<leftarrow> u64 (dq - deficit);
          Some (dq', pod\<lparr>pledged := sat_u64 (pledged pod + deficit)\<rparr>, bank)
        }
        else do {
          let fundable = sat_u64 (pledged pod + dq);
          let affordable = min (sat_u128 (fundable * 10000) div max band 1) U64_MAX;
          let over = sat_u64 (new_exp - affordable);
          let pod = pod\<lparr>exposure := sat_i64 (exposure pod + as_i64 (value_units over price))\<rparr>;
          let bank = utilisation bank (- min over I64_MAX);
          let need = share_of (value_at pod price) band;
          if need > pledged pod then do {
            let topup = min (sat_u64 (need - pledged pod)) dq;
            dq' \<leftarrow> u64 (dq - topup);
            Some (dq', pod\<lparr>pledged := sat_u64 (pledged pod + topup)\<rparr>, bank)
          }
          else Some (dq, pod, bank)
        }
      else Some (dq, pod, bank))"

text \<open>Issuing short exposure, or settling a touched short that trades nothing.\<close>

definition finish_short :: "depositor \<Rightarrow> nat \<Rightarrow> stock \<Rightarrow> quote \<Rightarrow> int \<Rightarrow> int \<Rightarrow> actuary \<Rightarrow> depository \<Rightarrow> repo_result" where
  "finish_short d i pod q price stamp a bank = do {
     let pod = pod\<lparr>updated := stamp\<rparr>;
     let final_exp = value_at pod price;
     m \<leftarrow> new_mark pod q final_exp;
     let pod = pod\<lparr>marked := m\<rparr>;
     lu \<leftarrow> liability_compute (q_old_value q) (pod_collar_bps pod) final_exp (pledged pod) a;
     let (d, bank) = book_drawn (put_pod d i (liability_apply lu pod)) bank
                       (value_change final_exp (q_old_value q));
     Ok (d, bank, 0, q_accrued q)
   }"

definition add_short :: "depositor \<Rightarrow> nat \<Rightarrow> stock \<Rightarrow> quote \<Rightarrow> int \<Rightarrow> int \<Rightarrow> actuary \<Rightarrow> depository \<Rightarrow> repo_result" where
  "add_short d i pod q price stamp a bank = do {
     n \<leftarrow> i64 (- exposure pod);
     let new_exp = units_value (as_u64 n) price;
     post_lev \<leftarrow> leverage_of new_exp (pledged pod);
     require (post_lev \<le> q_max_lev q) Undercollateralised (do {
       (dq, pod, bank) \<leftarrow> fund_short (deposited_quid d) pod new_exp (q_band_bps q) price bank;
       finish_short (d\<lparr>deposited_quid := dq\<rparr>) i pod q price stamp a bank
     })
   }"

definition repo_short :: "depositor \<Rightarrow> nat \<Rightarrow> stock \<Rightarrow> quote \<Rightarrow> int \<Rightarrow> int \<Rightarrow> int \<Rightarrow> int \<Rightarrow> actuary \<Rightarrow> depository \<Rightarrow> repo_result" where
  "repo_short d i pod q amount price stamp now a bank = do {
     n \<leftarrow> i64 (- exposure pod);
     let value = units_value (as_u64 n) price;
     let pivot = sat_u64 (q_mark q - q_collar_amt q);
     if pivot \<ge> value \<and> value > 0 \<and> \<not> q_reducing q then
       cure_or_unwind d i pod q amount price value (sat_u64 (pivot - value)) stamp now a bank
     else if value > pivot \<or> value = 0 then
       let upper = sat_u64 (q_mark q + q_trigger_amt q) in
       if value > upper \<and> \<not> q_reducing q then
         cure_or_unwind d i pod q amount price value (sat_u64 (value - upper)) stamp now a bank
       else
         let pod = heal pod q value;
             pod = pod\<lparr>exposure := sat_i64 (exposure pod + amount)\<rparr> in
         if amount > 0 \<and> value > 0 then reduce_short d i pod q amount value price stamp a bank
         else if amount < 0 then add_short d i pod q price stamp a bank
         else finish_short d i pod q price stamp a bank
     else Ok (put_pod d i pod, bank, 0, 0)
   }"

subsection \<open>The entry point\<close>

definition charge_premium :: "stock \<Rightarrow> quote \<Rightarrow> stock option" where
  "charge_premium pod q = do {
     p \<leftarrow> u64 (pledged pod - q_accrued q);
     Some (pod\<lparr>pledged := p, interest_paid := sat_u64 (interest_paid pod + q_accrued q)\<rparr>)
   }"

definition repo :: "depositor \<Rightarrow> string \<Rightarrow> int \<Rightarrow> int \<Rightarrow> int \<Rightarrow> int \<Rightarrow> actuary \<Rightarrow> depository \<Rightarrow> repo_result" where
  "repo d ticker amount price now slot a bank =
     require (price > 0) InvalidPrice (
       case find_pod (pad_ticker ticker) (balances d) of
         None \<Rightarrow> Err DepositFirst
       | Some i \<Rightarrow> do {
           q \<leftarrow> position_quote (balances d ! i) amount price now slot a bank;
           let pod = (balances d ! i)\<lparr>premium_checkpoint := premium_index a\<rparr>;
           if margin_call q pod amount bank then do {
             r \<leftarrow> unwind_a_tranche (put_pod d i pod) i price (q_util_bps q) a bank (q_old_value q) now now (q_accrued q);
             Ok r
           }
           else do {
             pod \<leftarrow> charge_premium pod q;
             let stamp = min (sat_i64 (updated pod + q_billed q)) now;
             if exposure pod > 0 \<or> (exposure pod = 0 \<and> amount > 0)
             then repo_long d i pod q amount price stamp now a bank
             else repo_short d i pod q amount price stamp now a bank
           }
         })"

subsection \<open>Frames: a trade in one ticker leaves the others alone\<close>

definition same_else :: "nat \<Rightarrow> depositor \<Rightarrow> depositor \<Rightarrow> bool" where
  "same_else i d d' \<longleftrightarrow> owner d' = owner d \<and> last_updated d' = last_updated d \<and>
     deposited_lamports d' = deposited_lamports d \<and> sol_pledged_usd d' = sol_pledged_usd d \<and>
     (\<exists>pod. pod_ticker pod = pod_ticker (balances d ! i) \<and> balances d' = (balances d)[i := pod])"

abbreviation settles :: "nat \<Rightarrow> depositor \<Rightarrow> repo_result \<Rightarrow> bool" where
  "settles i d m \<equiv> commits m (\<lambda>(d', _). same_else i d d')"

lemma same_else_put:
  "pod_ticker pod = pod_ticker (balances d ! i) \<Longrightarrow> same_else i d (put_pod d i pod)"
  by (auto simp: same_else_def put_pod_def)

lemma same_else_put_dq:
  "pod_ticker pod = pod_ticker (balances d ! i) \<Longrightarrow> same_else i d (put_pod (d\<lparr>deposited_quid := x\<rparr>) i pod)"
  by (auto simp: same_else_def put_pod_def)

lemma same_else_trans:
  assumes "same_else i d d'" "same_else i d' d''" "i < length (balances d)"
  shows "same_else i d d''"
  using assms by (auto simp: same_else_def)

lemma same_else_update_drawn [simp]: "same_else i d (update_drawn d' x) = same_else i d d'"
  by (simp add: same_else_def update_drawn_def)

lemma same_else_book_drawn [simp]: "same_else i d (fst (book_drawn d' b x)) = same_else i d d'"
  by (simp add: book_drawn_def)

lemma same_else_flush: "flush_both d b cb ip cds x = Some (d', b') \<Longrightarrow> same_else i e d' = same_else i e d"
  by (auto simp: flush_both_def flush_raroc_def same_else_def bind_eq_Some_conv)

text \<open>What a step keeps of the position's ticker.\<close>

lemma excursion_ticker: "excursion pod now = Some (pod', ex) \<Longrightarrow> pod_ticker pod' = pod_ticker pod"
  by (auto simp: excursion_def bind_eq_Some_conv Let_def split: if_splits)

lemma shrink_pod_ticker [simp]: "pod_ticker (shrink_pod pod e sm c now) = pod_ticker pod"
  by (simp add: shrink_pod_def spend_grace_def Let_def)

lemma amortise_tranche_ticker:
  "part (amortise_tranche pod price ex util a oev now) (\<lambda>(pod', _). pod_ticker pod' = pod_ticker pod)"
  unfolding amortise_tranche_def
  by (simp only: part_simps part_case_prod) (simp add: part_any)

lemma settle_partial_close_ticker:
  "part (settle_partial_close pod a oev cv pv price now acc) (\<lambda>(pod', _). pod_ticker pod' = pod_ticker pod)"
  unfolding settle_partial_close_def
  by (simp only: part_simps part_case_prod) (simp add: part_any)

lemma fund_ticker:
  "part (fund_long dq pod e b p) (\<lambda>(_, pod', _). pod_ticker pod' = pod_ticker pod)"
  "part (fund_short dq pod e b p bank) (\<lambda>(_, pod', _). pod_ticker pod' = pod_ticker pod)"
  unfolding fund_long_def fund_short_def
  by (simp_all only: part_simps part_case_prod) (simp_all add: part_any)

lemma same_else_refl: "same_else i d d"
  using same_else_put[of "balances d ! i" d i] by (simp add: put_pod_def)

lemma same_else_put_again:
  assumes "same_else i e d" "pod_ticker pod = pod_ticker (balances e ! i)"
  shows "same_else i e (put_pod d i pod)" "same_else i e (put_pod (d\<lparr>deposited_quid := x\<rparr>) i pod)"
  using assms by (auto simp: same_else_def put_pod_def)

lemma same_else_nth:
  assumes "same_else i e d" "i < length (balances e)"
  shows "pod_ticker (balances d ! i) = pod_ticker (balances e ! i)" "i < length (balances d)"
  using assms by (auto simp: same_else_def)

lemma flush_frame:
  "same_else i e d \<Longrightarrow> part (flush_both d b cb ip cds x) (\<lambda>(d', _). same_else i e d')"
  by (auto simp: part_def same_else_flush)

lemma excursion_frame: "part (excursion pod now) (\<lambda>(pod', _). pod_ticker pod' = pod_ticker pod)"
  by (auto simp: part_def dest: excursion_ticker)

lemma unwind_settles:
  assumes "same_else i e d" "i < length (balances e)"
  shows "part (unwind_a_tranche d i price util a bank oev stamp now acc) (\<lambda>(d', _). same_else i e d')"
proof -
  note [simp] = same_else_nth[OF assms] same_else_put_again[OF assms(1)]
  have flush: "part (flush_both (update_drawn (put_pod (put_pod d i p) i p') x) b cb ip cds 0) (\<lambda>(d', _). same_else i e d')"
    if "pod_ticker p = pod_ticker (balances e ! i)" "pod_ticker p' = pod_ticker p" for p p' x b cb ip cds
    by (rule flush_frame) (simp add: that same_else_put_again)
  show ?thesis
    unfolding unwind_a_tranche_def
    apply (simp only: part_simps part_case_prod)
    apply (simp add: part_None)
    apply (rule impI, rule part_mono[OF excursion_frame])
    apply (clarsimp simp: case_prod_beta)
    apply (rule part_mono[OF amortise_tranche_ticker])
    apply (clarsimp simp: same_else_put_again)
    apply (rule part_mono[OF flush])
      apply (auto simp: case_prod_beta)
    done
qed

lemma cure_or_unwind_settles:
  assumes "same_else i e d" "i < length (balances e)" "pod_ticker pod = pod_ticker (balances e ! i)"
  shows "commits (cure_or_unwind d i pod q amount price v x stamp now a bank) (\<lambda>(d', _). same_else i e d')"
  unfolding cure_or_unwind_def
  apply (simp only: commit_rules)
  apply (rule commits_mono[OF post_variation_margin_cases])
  using assms
  apply (auto simp: commit_rules same_else_put_again book_drawn_def intro!: part_mono[OF unwind_settles] split: option.splits)
  done

lemma close_long_settles:
  assumes "same_else i e d" "pod_ticker pod = pod_ticker (balances e ! i)"
  shows "commits (close_long d i pod q red price stamp a bank) (\<lambda>(d', _). same_else i e d')"
  unfolding close_long_def
  apply (simp only: commit_rules)
  apply (rule part_any)
  apply (rule part_mono[OF flush_frame[of i e]])
  using assms by (auto simp: same_else_put_again book_drawn_def case_prod_beta part_any)

lemma trim_long_settles:
  assumes "same_else i e d" "pod_ticker pod = pod_ticker (balances e ! i)"
  shows "commits (trim_long d i pod q red price stamp a bank) (\<lambda>(d', _). same_else i e d')"
  unfolding trim_long_def
  apply (simp only: commit_rules)
  apply (rule part_mono[OF settle_partial_close_ticker])
  apply (simp only: case_prod_beta commit_rules)
  apply (rule part_any)
  using assms
  apply (auto simp: same_else_put_again book_drawn_def case_prod_beta intro!: part_mono[OF flush_frame[of i e]])
  done

lemma reduce_short_settles:
  assumes "same_else i e d" "pod_ticker pod = pod_ticker (balances e ! i)"
  shows "commits (reduce_short d i pod q amount oe price stamp a bank) (\<lambda>(d', _). same_else i e d')"
  unfolding reduce_short_def
  apply (simp only: commit_rules)
  apply (rule part_mono[OF settle_partial_close_ticker])
  apply (simp only: case_prod_beta commit_rules)
  apply (rule part_any)
  using assms
  apply (auto simp: same_else_put_again book_drawn_def case_prod_beta intro!: part_mono[OF flush_frame[of i e]])
  done

lemma reduce_long_settles:
  assumes "same_else i e d" "pod_ticker pod = pod_ticker (balances e ! i)"
  shows "commits (reduce_long d i pod q amount price stamp a bank) (\<lambda>(d', _). same_else i e d')"
  using close_long_settles[OF assms(1)] trim_long_settles[OF assms(1)] assms(2)
  by (simp add: reduce_long_def Let_def)

lemma add_long_settles:
  assumes "same_else i e d" "pod_ticker pod = pod_ticker (balances e ! i)"
  shows "commits (add_long d i pod q amount price stamp a bank) (\<lambda>(d', _). same_else i e d')"
  unfolding add_long_def
  apply (simp only: commit_rules)
  apply (rule part_any, rule impI, rule part_mono[OF fund_ticker(1)])
  using assms
  apply (auto simp: same_else_put_again book_drawn_def case_prod_beta intro!: part_any)
  done

lemma finish_short_settles:
  assumes "same_else i e d" "pod_ticker pod = pod_ticker (balances e ! i)"
  shows "commits (finish_short d i pod q price stamp a bank) (\<lambda>(d', _). same_else i e d')"
  unfolding finish_short_def
  apply (simp only: commit_rules)
  using assms
  apply (auto simp: same_else_put_again book_drawn_def case_prod_beta intro!: part_any)
  done

lemma same_else_dq [simp]: "same_else i e (d\<lparr>deposited_quid := x\<rparr>) = same_else i e d"
  by (simp add: same_else_def)

lemma add_short_settles:
  assumes "same_else i e d" "pod_ticker pod = pod_ticker (balances e ! i)"
  shows "commits (add_short d i pod q price stamp a bank) (\<lambda>(d', _). same_else i e d')"
  unfolding add_short_def
  apply (simp only: commit_rules)
  apply (rule part_any, rule part_any, rule impI, rule part_mono[OF fund_ticker(2)])
  using assms by (auto intro!: finish_short_settles simp: case_prod_beta)

lemma heal_ticker [simp]: "pod_ticker (heal pod q v) = pod_ticker pod"
  by (simp add: heal_def)

lemma repo_long_settles:
  assumes "same_else i e d" "i < length (balances e)" "pod_ticker pod = pod_ticker (balances e ! i)"
  shows "commits (repo_long d i pod q amount price stamp now a bank) (\<lambda>(d', _). same_else i e d')"
proof -
  note reinstate = commits_mono[OF reinstate_exposure_cases]
  show ?thesis
    unfolding repo_long_def
    apply (simp only: commit_rules)
    using assms
    apply (auto intro!: cure_or_unwind_settles reduce_long_settles add_long_settles reinstate simp: commit_rules)
    apply (auto simp: commit_rules same_else_put_again book_drawn_def intro!: part_mono[OF unwind_settles] split: option.splits)
    done
qed

lemma repo_short_settles:
  assumes "same_else i e d" "i < length (balances e)" "pod_ticker pod = pod_ticker (balances e ! i)"
  shows "commits (repo_short d i pod q amount price stamp now a bank) (\<lambda>(d', _). same_else i e d')"
  unfolding repo_short_def
  apply (simp only: commit_rules)
  using assms
  apply (auto intro!: part_any cure_or_unwind_settles reduce_short_settles add_short_settles finish_short_settles
      simp: commit_rules same_else_put_again)
  done

lemma repo_settles:
  assumes "find_pod (pad_ticker t) (balances d) = Some i"
  shows "commits (repo d t amount price now slot a bank) (\<lambda>(d', _). same_else i d d')"
proof -
  note i = find_pod_SomeD[OF assms]
  have p: "same_else i d (put_pod d i ((balances d ! i)\<lparr>premium_checkpoint := x\<rparr>))" for x
    by (simp add: same_else_put)
  have charge: "part (charge_premium pod q) (\<lambda>pod'. pod_ticker pod' = pod_ticker pod)" for pod q
    by (auto simp: charge_premium_def part_simps intro: part_any)
  show ?thesis
    unfolding repo_def assms option.case
    apply (simp only: commit_rules)
    apply (intro impI, rule part_any, intro conjI impI)
     apply (rule part_mono[OF unwind_settles[OF p i(1)]], simp)
    apply (rule part_mono[OF charge])
    using i by (auto intro!: repo_long_settles repo_short_settles same_else_refl)
qed

lemma repo_other_tickers:
  assumes "t' \<noteq> pad_ticker t"
  shows "commits (repo d t amount price now slot a bank) (\<lambda>(d', _). pod_at t' d' = pod_at t' d \<and> owner d' = owner d)"
proof (cases "find_pod (pad_ticker t) (balances d)")
  case None
  then show ?thesis by (simp add: repo_def wp)
next
  case (Some i)
  have "pod_at t' d' = pod_at t' d" if "same_else i d d'" for d'
  proof -
    from that obtain pod where pod: "pod_ticker pod = pod_ticker (balances d ! i)" "balances d' = (balances d)[i := pod]"
      by (auto simp: same_else_def)
    have "store_pod (pad_ticker t) pod d = d\<lparr>balances := balances d'\<rparr>"
      using Some pod by (simp add: store_pod_def put_pod_def)
    moreover have "pod_at t' (d\<lparr>balances := balances d'\<rparr>) = pod_at t' d'" by (simp add: pod_at_def)
    moreover have "pod_at (pad_ticker t) d \<noteq> None" using Some by (simp add: pod_at_def)
    ultimately show ?thesis
      using pods.lookup_other[of "pad_ticker t" d pod t'] pod(1) find_pod_SomeD[OF Some] assms by simp
  qed
  then show ?thesis
    by (intro commits_mono[OF repo_settles[OF Some]]) (auto simp: same_else_def)
qed

subsection \<open>Money\<close>

text \<open>
  Funding a larger position moves money from the balance to the pledge, and either the
  pledge meets the band on what is held or the balance is spent.
\<close>

definition met_or_spent :: "int \<Rightarrow> stock \<Rightarrow> int \<Rightarrow> int \<Rightarrow> bool" where
  "met_or_spent dq pod band price \<longleftrightarrow> share_of (value_at pod price) band \<le> pledged pod \<or> dq = 0"

lemma share_of_le: "share_of v band \<le> U64_MAX"
  by (simp add: share_of_def)

lemma topup_moves:
  assumes "is_u64 dq" "is_u64 p" "dq + p \<le> U64_MAX" "p < n" "n \<le> U64_MAX"
    and "t = min (sat_u64 (n - p)) dq"
  shows "is_u64 (dq - t)" "sat_u64 (p + t) = p + t" "0 \<le> t" "t \<le> dq" "n \<le> p + t \<or> dq - t = 0"
proof -
  have t: "t = min (n - p) dq" using assms by (simp add: sat_u64_id is_u64_def)
  show "0 \<le> t" "t \<le> dq" "n \<le> p + t \<or> dq - t = 0" using assms(1-4) unfolding t is_u64_def by linarith+
  then show "is_u64 (dq - t)" "sat_u64 (p + t) = p + t" using assms(1-3) by (auto simp: is_u64_def sat_u64_id)
qed

definition topped :: "int \<Rightarrow> int \<Rightarrow> int \<Rightarrow> int \<Rightarrow> int \<Rightarrow> stock \<Rightarrow> bool" where
  "topped dq p0 band price dq' pod' \<longleftrightarrow>
     dq' + pledged pod' = dq + p0 \<and> 0 \<le> dq' \<and> p0 \<le> pledged pod' \<and> met_or_spent dq' pod' band price"

lemma toppedI:
  assumes "is_u64 dq" "is_u64 (pledged pod)" "dq + pledged pod \<le> U64_MAX"
    "pledged pod < share_of (value_at pod price) band"
    "t = min (sat_u64 (share_of (value_at pod price) band - pledged pod)) dq"
  shows "topped dq (pledged pod) band price (dq - t) (pod\<lparr>pledged := sat_u64 (pledged pod + t)\<rparr>)"
  using topup_moves[OF assms(1-4) share_of_le assms(5)] assms(1)
  by (auto simp: topped_def met_or_spent_def value_at_def is_u64_def)

lemma topped_none:
  assumes "is_u64 dq" "share_of (value_at pod price) band \<le> pledged pod"
  shows "topped dq (pledged pod) band price dq pod"
  using assms by (simp add: topped_def met_or_spent_def is_u64_def)

lemma fund_long_moves:
  assumes "is_u64 dq" "is_u64 (pledged pod)" "dq + pledged pod \<le> U64_MAX"
  shows "part (fund_long dq pod (value_at pod price) band price) (\<lambda>(dq', pod', taken).
    topped dq (pledged pod) band price dq' pod' \<and> taken = dq - dq')"
proof (cases "pledged pod < share_of (value_at pod price) band")
  case False
  then show ?thesis using assms by (simp add: fund_long_def Let_def part_Some topped_none)
next
  case True
  define short where "short = sat_u64 (share_of (value_at pod price) band - pledged pod)"
  show ?thesis
  proof (cases "dq \<ge> short")
    case enough: True
    then have "short = min (sat_u64 (share_of (value_at pod price) band - pledged pod)) dq" by (simp add: short_def)
    from toppedI[OF assms True this] enough True show ?thesis
      by (simp add: fund_long_def Let_def part_simps part_exact flip: short_def)
  next
    case False
    define shed where "shed = as_i64 (value_units (sat_u64 (value_at pod price -
      min (sat_u128 (sat_u64 (pledged pod + dq) * 10000) div max band 1) U64_MAX)) price)"
    define cut where "cut = pod\<lparr>exposure := (if exposure pod > 0 then sat_i64 (exposure pod - shed)
                                    else sat_i64 (exposure pod + shed))\<rparr>"
    have [simp]: "pledged cut = pledged pod" by (simp add: cut_def)
    define topup where "topup = min (sat_u64 (share_of (value_at cut price) band - pledged pod)) dq"
    have body: "fund_long dq pod (value_at pod price) band price =
      (if share_of (value_at cut price) band > pledged pod
       then do { dq' \<leftarrow> u64 (dq - topup); Some (dq', cut\<lparr>pledged := sat_u64 (pledged pod + topup)\<rparr>, topup) }
       else Some (dq, cut, 0))"
      using True False unfolding fund_long_def Let_def short_def[symmetric] shed_def[symmetric] cut_def[symmetric] topup_def
      by simp
    show ?thesis
    proof (cases "share_of (value_at cut price) band > pledged pod")
      case more: True
      with assms have "topped dq (pledged cut) band price (dq - topup) (cut\<lparr>pledged := sat_u64 (pledged cut + topup)\<rparr>)"
        by (intro toppedI) (simp_all add: topup_def)
      with more show ?thesis by (simp add: body part_simps part_exact topped_def)
    next
      case less: False
      with assms topped_none[of dq cut price band] show ?thesis by (simp add: body part_simps topped_def)
    qed
  qed
qed

lemma value_at_long: "0 \<le> exposure pod \<Longrightarrow> exposure pod \<le> I64_MAX \<Longrightarrow> units_value (as_u64 (exposure pod)) price = value_at pod price"
  by (simp add: value_at_def as_u64_id is_u64_def)

lemma liability_apply_value [simp]: "value_at (liability_apply lu pod) price = value_at pod price"
  by (simp add: value_at_def)

lemma topped_frame:
  assumes "topped dq p band price dq' pod'" "pledged pod'' = pledged pod'" "exposure pod'' = exposure pod'"
  shows "topped dq p band price dq' pod''"
  using assms by (simp add: topped_def met_or_spent_def value_at_def)

lemma add_long_money:
  assumes "i < length (balances d)" "is_u64 (deposited_quid d)" "is_u64 (pledged pod)"
    "deposited_quid d + pledged pod \<le> U64_MAX" "0 \<le> exposure pod" "exposure pod \<le> I64_MAX"
  shows "commits (add_long d i pod q amount price stamp a bank) (\<lambda>(d', bank', delta, interest).
    topped (deposited_quid d) (pledged pod) (q_band_bps q) price (deposited_quid d') (balances d' ! i) \<and>
    interest = q_accrued q \<and> bank' = utilisation bank (value_change (value_at (balances d' ! i) price) (q_old_value q)) \<and>
    (0 < amount \<longrightarrow> (\<exists>c \<ge> 0. has_capacity bank c)))"
  unfolding add_long_def
  apply (simp only: commit_rules value_at_long[OF assms(5,6)])
  apply (rule part_any, rule impI)
  apply (rule part_mono[OF fund_long_moves[OF assms(2-4)]])
  apply (simp only: case_prod_beta)
  apply (rule part_any, rule part_any)
  using assms(1)
  apply (auto simp: book_drawn_def put_pod_def update_drawn_def value_at_def elim!: topped_frame)
  apply (meson sat_u64_nonneg)+
  done

text \<open>The payout of a full close, from the position as the premium has left it.\<close>

lemma close_long_total:
  assumes "i < length (balances d)" "marked pod \<noteq> 0"
    "0 \<le> pledged pod" "0 \<le> redeem" "0 \<le> marked pod" "0 \<le> q_accrued q" "pledged pod + redeem \<le> U64_MAX"
  shows "commits (close_long d i pod q redeem price stamp a bank) (\<lambda>(d', bank', delta, paid).
    paid = max 0 (pledged pod + redeem - marked pod - q_accrued q) \<and> pledged (balances d' ! i) = 0)"
proof -
  have "as_u64 (max (pledged pod + (redeem - marked pod) - q_accrued q) 0) = max 0 (pledged pod + redeem - marked pod - q_accrued q)"
    using assms(3-7) by (subst as_u64_id) (auto simp: is_u64_def)
  then show ?thesis
    unfolding close_long_def
    apply (simp only: commit_rules)
    apply (rule part_any)
    apply (simp add: assms(2) part_def commits_def book_drawn_def flush_both_def flush_raroc_def case_prod_beta)
    using assms(1) by (auto simp: put_pod_def update_drawn_def bind_eq_Some_conv)
qed

lemma position_quote_reducing:
  "part (position_quote pod amount price now slot a bank) (\<lambda>q.
     q_reducing q = (amount \<noteq> 0 \<and> exposure pod \<noteq> 0 \<and> (amount < 0) = (exposure pod > 0)))"
  unfolding position_quote_def
  by (simp only: part_simps part_case_prod) (simp add: part_any)

text \<open>The owner closes a marked long in full: the premium is taken from the pledge and again from the payout.\<close>

lemma repo_close_long_pays:
  assumes "find_pod (pad_ticker t) (balances d) = Some i" "pod = balances d ! i" "0 < price"
    "position_quote pod (- exposure pod) price now slot a bank = Some q"
    "0 < exposure pod" "exposure pod \<le> I64_MAX" "0 < marked pod" "0 \<le> q_accrued q" "is_u64 (pledged pod)"
    "pledged pod + value_at pod price \<le> U64_MAX"
    "repo d t (- exposure pod) price now slot a bank = Ok (d', bank', delta, paid)"
  shows "paid = max 0 (pledged pod + value_at pod price - marked pod - 2 * q_accrued q) \<and> pledged (balances d' ! i) = 0"
proof -
  have red: "q_reducing q" using partD[OF position_quote_reducing assms(4)] assms(5) by auto
  have z: "sat_i64 0 = 0" by (simp add: sat_i64_id is_i64_def)
  have h: "exposure (heal p q v) = exposure p" "pledged (heal p q v) = pledged p" "marked (heal p q v) = marked p" for p v
    by (simp_all add: heal_def)
  define charged where "charged = pod\<lparr>premium_checkpoint := premium_index a, pledged := pledged pod - q_accrued q,
    interest_paid := sat_u64 (interest_paid pod + q_accrued q)\<rparr>"
  define pod1 where "pod1 = heal charged q (q_old_value q)\<lparr>exposure := 0\<rparr>"
  have c: "close_long d i pod1 q (value_at pod price) price (min (sat_i64 (updated pod + q_billed q)) now) a bank = Ok (d', bank', delta, paid)"
    and p1: "pledged pod1 = pledged pod - q_accrued q" "0 \<le> pledged pod1" "marked pod1 = marked pod"
    using assms(11,1,3-6) red
    by (auto simp: repo_def require_def margin_call_def charge_premium_def repo_long_def reduce_long_def h Let_def z pod1_def charged_def
        value_at_def bind_eq_Some_conv u64_def is_u64_def split: if_splits simp flip: assms(2))
  have "i < length (balances d)" by (rule find_pod_SomeD(1)[OF assms(1)])
  moreover have "0 \<le> value_at pod price" by (simp add: value_at_def units_value_range)
  ultimately show ?thesis
    using commitsD[OF close_long_total[of i d pod1 "value_at pod price" q price "min (sat_i64 (updated pod + q_billed q)) now" a bank] c]
      assms(7-10) p1 by simp
qed

lemma repo_short_profit_stuck:
  assumes "find_pod (pad_ticker t) (balances d) = Some i" "pod = balances d ! i" "0 < price"
    "position_quote pod amount price now slot a bank = Some q"
    "0 < amount" "exposure pod < 0" "- I64_MAX \<le> exposure pod" "is_u64 (pledged pod - q_accrued q)"
    "0 < value_at pod price" "value_at pod price \<le> sat_u64 (q_mark q - q_collar_amt q)"
  shows "repo d t amount price now slot a bank =
    Ok (put_pod d i (pod\<lparr>premium_checkpoint := premium_index a, pledged := pledged pod - q_accrued q,
          interest_paid := sat_u64 (interest_paid pod + q_accrued q)\<rparr>), bank, 0, 0)"
proof -
  have red: "q_reducing q" using partD[OF position_quote_reducing assms(4)] assms(5,6) by auto
  have v: "units_value (as_u64 (- exposure pod)) price = value_at pod price"
    using assms(6,7) by (simp add: value_at_def as_u64_id is_u64_def)
  have i: "is_i64 (- exposure pod)" using assms(6,7) by (simp add: is_i64_def)
  show ?thesis
    using assms(1,3-) red by (simp add: repo_def require_def margin_call_def charge_premium_def repo_short_def Let_def i v flip: assms(2))
qed

text \<open>
  The books of a rung of the ladder: the pool is credited with \<open>- dollars\<close> and the pledge
  falls, and the two do not cancel.
\<close>

lemma amortise_tranche_books:
  assumes "pod_wf pod" "exposure pod \<noteq> 0" "0 \<le> ex" "ex \<le> 900000000000000"
    "amortise_tranche pod price ex util a oev now = Some (pod', dollars, r)"
    "tranche_of pod price ex util = Some tranche" "units_value tranche price \<le> I64_MAX"
    "pledged pod * tranche div \<bar>exposure pod\<bar> \<le> units_value tranche price"
  shows "- dollars + (pledged pod' - pledged pod) = units_value tranche price - pledged pod * tranche div \<bar>exposure pod\<bar>"
proof -
  have t: "1 \<le> tranche" "tranche \<le> \<bar>exposure pod\<bar>" using tranche_of_ok[OF assms(1-4), of price util] assms(6) by auto
  have e: "\<bar>exposure pod\<bar> \<le> I64_MAX" and p: "0 \<le> pledged pod" "pledged pod \<le> U64_MAX"
    and mk: "0 \<le> marked pod" "marked pod \<le> U64_MAX" using assms(1) by (auto simp: pod_wf_def is_u64_def)
  define held where "held = max (sat_u64 (\<bar>cut_exposure (exposure pod) tranche\<bar> + tranche)) 1"
  have held: "held = \<bar>exposure pod\<bar>"
    using cut_exposure_shrinks(1)[OF e t] e t by (simp add: held_def sat_u64_id is_u64_def)
  define mark where "mark = (if marked pod = 0 then pledged pod else marked pod)"
  have mark: "0 \<le> mark" "mark \<le> U64_MAX" using p mk by (auto simp: mark_def)
  have hb: "1 \<le> held" "held \<le> U64_MAX" using held e t by auto
  obtain sm c ret where sl: "slice_loss (exposure pod > 0) mark (pledged pod) tranche held (units_value tranche price) = Some (sm, c, ret)"
    and cr: "0 \<le> c" "0 \<le> ret" "c + ret = pledged pod * tranche div held"
    using okD[OF slice_loss_ok[OF mark p, of tranche held "units_value tranche price" "exposure pod > 0"]] t hb held units_value_range by force
  have "pledged pod * tranche div held \<le> pledged pod" using p t held hb by (intro muldiv_le_left) auto
  then have c: "c \<le> pledged pod" using cr by linarith
  have "pledged pod' = pledged pod - c \<and> dollars = - min (sat_u64 (units_value tranche price - ret)) I64_MAX"
    using assms(5) sl c cr p
    by (auto simp: amortise_tranche_def Let_def assms(6) bind_eq_Some_conv shrink_pod_def spend_grace_def sat_u64_id is_u64_def
        simp flip: held_def mark_def)
  moreover have "sat_u64 (units_value tranche price - ret) = units_value tranche price - ret"
    using cr assms(8) units_value_range[of tranche price] unfolding held by (intro sat_u64_id) (simp add: is_u64_def)
  ultimately show ?thesis using cr assms(7) unfolding held by linarith
qed

text \<open>The owner adds to a long inside its band: the premium and the new margin come out of the balance and the pledge.\<close>

lemma repo_add_long:
  assumes "find_pod (pad_ticker t) (balances d) = Some i" "pod = balances d ! i" "0 < price"
    "position_quote pod amount price now slot a bank = Some q" "0 < amount" "0 \<le> exposure pod" "exposure pod + amount \<le> I64_MAX"
    "q_old_value q \<le> sat_u64 (q_mark q + q_collar_amt q)"
    "sat_u64 (q_mark q - q_trigger_amt q) \<le> q_old_value q \<or> q_old_value q = 0" "0 \<le> q_old_value q"
    "is_u64 (deposited_quid d)" "is_u64 (pledged pod)" "deposited_quid d + pledged pod \<le> U64_MAX" "0 \<le> q_accrued q"
    "repo d t amount price now slot a bank = Ok (d', bank', delta, interest)"
  shows "deposited_quid d' + pledged (balances d' ! i) + interest = deposited_quid d + pledged pod" "0 \<le> deposited_quid d'"
    "share_of (value_at (balances d' ! i) price) (q_band_bps q) \<le> pledged (balances d' ! i) \<or> deposited_quid d' = 0"
    "interest = q_accrued q" "\<exists>c \<ge> 0. has_capacity bank c"
proof -
  have red: "\<not> q_reducing q" using partD[OF position_quote_reducing assms(4)] assms(5,6) by auto
  have h: "exposure (heal p q v) = exposure p" "pledged (heal p q v) = pledged p" for p v by (simp_all add: heal_def)
  define charged where "charged = pod\<lparr>premium_checkpoint := premium_index a, pledged := pledged pod - q_accrued q,
    interest_paid := sat_u64 (interest_paid pod + q_accrued q)\<rparr>"
  define pod1 where "pod1 = heal charged q (q_old_value q)\<lparr>exposure := exposure pod + amount\<rparr>"
  have sx: "sat_i64 (exposure pod + amount) = exposure pod + amount" using assms(5-7) by (intro sat_i64_id) (simp add: is_i64_def)
  have c: "add_long d i pod1 q amount price (min (sat_i64 (updated pod + q_billed q)) now) a bank = Ok (d', bank', delta, interest)"
    and p1: "pledged pod1 = pledged pod - q_accrued q" "is_u64 (pledged pod1)" "exposure pod1 = exposure pod + amount"
    using assms(15,1,3-10) red sx
    by (auto simp: repo_def require_def margin_call_def charge_premium_def repo_long_def h Let_def pod1_def charged_def
        bind_eq_Some_conv u64_def split: if_splits simp flip: assms(2))
  have "i < length (balances d)" by (rule find_pod_SomeD(1)[OF assms(1)])
  from commitsD[OF add_long_money[OF this assms(11) p1(2)] c] p1 assms(5-7,13,14)
  have r: "topped (deposited_quid d) (pledged pod1) (q_band_bps q) price (deposited_quid d') (balances d' ! i)" "interest = q_accrued q"
    "\<exists>c \<ge> 0. has_capacity bank c" by auto
  then show "deposited_quid d' + pledged (balances d' ! i) + interest = deposited_quid d + pledged pod" "0 \<le> deposited_quid d'"
    "share_of (value_at (balances d' ! i) price) (q_band_bps q) \<le> pledged (balances d' ! i) \<or> deposited_quid d' = 0"
    "interest = q_accrued q" "\<exists>c \<ge> 0. has_capacity bank c"
    using p1(1) by (auto simp: topped_def met_or_spent_def)
qed

end
