(* ===== verification/Renege.thy ===== *)
theory Renege
  imports Repo
begin

section \<open>Moving collateral (stay.rs: Depositor::renege)\<close>

text \<open>
  \<open>renege\<close> adds dollars to a position, takes them from one, or, with no ticker, takes them
  from all positions, the best collateralised first. It returns what it could not take. The
  loop over the sorted indices is a recursion on the list of indices; \<open>sort_key\<close> is stable,
  as \<open>sort_by\<close> is.
\<close>

subsection \<open>Taking from every position\<close>

definition removable :: "stock \<Rightarrow> int \<Rightarrow> int" where
  "removable pod price =
     (let collar_amt = collar_amount pod price in
      if exposure pod > 0 then
        sat_u64 (sat_u64 (pledged pod + collar_amt) - units_value (exposure pod) price)
      else if exposure pod < 0 then
        sat_u64 (value_at pod price - sat_u64 (pledged pod - collar_amt))
      else pledged pod)"

definition deduct :: "stock \<Rightarrow> int \<Rightarrow> int \<Rightarrow> stock option" where
  "deduct pod deducted current_time = do {
     pod \<leftarrow> accumulate_collar_seconds pod current_time;
     let pod = pod\<lparr>pledged := sat_u64 (pledged pod - deducted), cost_basis := sat_u64 (cost_basis pod - deducted)\<rparr>;
     Some (if exposure pod = 0 then pod\<lparr>updated := current_time\<rparr> else pod)
   }"

definition price_of :: "int list option \<Rightarrow> nat \<Rightarrow> int option" where
  "price_of prices i =
     (case prices of None \<Rightarrow> None | Some ps \<Rightarrow> if i < length ps then Some (ps ! i) else None)"

fun drain_pods :: "stock list \<Rightarrow> nat list \<Rightarrow> int \<Rightarrow> int list option \<Rightarrow> int \<Rightarrow> (stock list \<times> int) result" where
  "drain_pods pods [] deducting prices now = Ok (pods, deducting)"
| "drain_pods pods (i # order) deducting prices now =
     (if deducting = 0 then Ok (pods, deducting)
      else attempt (ok_or (price_of prices i) NoPrice) (\<lambda>price. do {
        let deducted = min (removable (pods ! i) price) deducting;
        pod \<leftarrow> deduct (pods ! i) deducted now;
        drain_pods (pods[i := pod]) order (deducting - deducted) prices now
      }))"

definition drain_order :: "stock list \<Rightarrow> nat list" where
  "drain_order pods = sort_key (\<lambda>i. - pledged (pods ! i)) [0..<length pods]"

subsection \<open>One position\<close>

definition withdraw_limit :: "stock \<Rightarrow> int \<Rightarrow> int \<Rightarrow> int \<Rightarrow> int result" where
  "withdraw_limit pod amount value collar_amt =
     (if exposure pod < 0 then
        (if value > pledged pod then do {
           m \<leftarrow> i64 (- as_i64 (sat_u64 (collar_amt - sat_u64 (value - pledged pod))));
           Ok (max m amount)
         }
         else if pledged pod > value then Err TakeProfit
         else Ok amount)
      else if exposure pod > 0 then do {
        let m = (if pledged pod \<ge> value then sat_u64 (collar_amt - sat_u64 (pledged pod - value))
                 else sat_u64 (collar_amt - sat_u64 (value - pledged pod)));
        x \<leftarrow> i64 (- as_i64 (min m \<bar>amount\<bar>));
        Ok x
      }
      else Ok amount)"

definition deposit_limit :: "stock \<Rightarrow> int \<Rightarrow> int \<Rightarrow> int \<Rightarrow> int result" where
  "deposit_limit pod amount value collar_amt =
     (if exposure pod < 0 then
        (if value > pledged pod then Ok (min amount (as_i64 (sat_u64 (value - pledged pod))))
         else if pledged pod > value then Err TakeProfit
         else Ok amount)
      else if exposure pod > 0 then
        (let m = (if pledged pod \<ge> value then sat_u64 (collar_amt - sat_u64 (pledged pod - value))
                  else sat_u64 (sat_u64 (value + collar_amt) - pledged pod)) in
         Ok (as_i64 (min m (as_u64 amount))))
      else Ok amount)"

definition move_pledge :: "stock \<Rightarrow> int \<Rightarrow> int \<Rightarrow> int \<Rightarrow> stock result" where
  "move_pledge pod amount price current_time =
     (if exposure pod \<noteq> 0 \<and> price = 0 then Err NoPrice
      else
        let value = value_at pod price; collar_amt = collar_amount pod price in
        attempt
          (if amount < 0 then
             require (pledged pod \<ge> \<bar>amount\<bar>) InvalidAmount
               (attempt (withdraw_limit pod amount value collar_amt) (\<lambda>amount. do {
                  pod \<leftarrow> accumulate_collar_seconds pod current_time;
                  Ok (pod\<lparr>pledged := sat_u64 (pledged pod - \<bar>amount\<bar>),
                          cost_basis := sat_u64 (cost_basis pod - \<bar>amount\<bar>)\<rparr>)
                }))
           else
             attempt (deposit_limit pod amount value collar_amt) (\<lambda>amount.
               Ok (pod\<lparr>pledged := sat_u64 (pledged pod + as_u64 amount),
                       cost_basis := sat_u64 (cost_basis pod + as_u64 amount)\<rparr>)))
          (\<lambda>pod. Ok (if exposure pod = 0 then pod\<lparr>updated := current_time\<rparr> else pod)))"

definition new_pod :: "string \<Rightarrow> int \<Rightarrow> int \<Rightarrow> stock" where
  "new_pod padded amount current_time =
     \<lparr>pod_ticker = padded, pledged = as_u64 amount, exposure = 0, updated = current_time,
      pod_collar_bps = 0, cost_basis = as_u64 amount, interest_paid = 0, collar_dollar_seconds = 0,
      collar_dollars = 0, premium_checkpoint = 0, funding_checkpoint = 0, marked = 0, breached_at = 0\<rparr>"

definition first_price :: "int list option \<Rightarrow> int" where
  "first_price prices = (case price_of prices 0 of None \<Rightarrow> 0 | Some p \<Rightarrow> p)"

definition prune :: "depositor \<Rightarrow> depositor" where
  "prune d = d\<lparr>balances := filter (\<lambda>pod. pledged pod > 0 \<or> exposure pod \<noteq> 0) (balances d)\<rparr>"

definition renege :: "depositor \<Rightarrow> string option \<Rightarrow> int \<Rightarrow> int list option \<Rightarrow> int \<Rightarrow> (depositor \<times> int) result" where
  "renege d ticker amount prices current_time =
     (if ticker = None \<and> amount < 0 then
        attempt (drain_pods (balances d) (drain_order (balances d)) \<bar>amount\<bar> prices current_time)
          (\<lambda>(pods, deducting). Ok (prune (d\<lparr>balances := pods\<rparr>), as_i64 deducting))
      else
        attempt (ok_or ticker UnknownSymbol) (\<lambda>t.
          let padded = pad_ticker t in
          case find_pod padded (balances d) of
            Some i \<Rightarrow>
              attempt (move_pledge (balances d ! i) amount (first_price prices) current_time)
                (\<lambda>pod. Ok (prune ((put_pod d i pod)\<lparr>last_updated := current_time\<rparr>), 0))
          | None \<Rightarrow>
              require (amount > 0) InvalidAmount
                (if length (balances d) \<ge> MAX_LEN then Err MaxPositionsReached
                 else Ok (prune (d\<lparr>balances := balances d @ [new_pod padded amount current_time]\<rparr>), 0))))"

subsection \<open>What draining takes\<close>

lemma drain_order_perm: "distinct (drain_order pods)" "set (drain_order pods) = {..<length pods}"
  by (auto simp: drain_order_def)

lemma removable_nonneg: "0 \<le> pledged pod \<Longrightarrow> 0 \<le> removable pod price"
  by (simp add: removable_def Let_def)

lemma accumulate_keeps:
  "accumulate_collar_seconds pod now = Some pod' \<Longrightarrow> \<exists>x. pod' = pod\<lparr>collar_dollar_seconds := x\<rparr>"
proof -
  have "\<exists>x. pod = pod\<lparr>collar_dollar_seconds := x\<rparr>" by (rule exI[of _ "collar_dollar_seconds pod"]) simp
  then show "accumulate_collar_seconds pod now = Some pod' \<Longrightarrow> \<exists>x. pod' = pod\<lparr>collar_dollar_seconds := x\<rparr>"
    by (auto simp: accumulate_collar_seconds_def bind_eq_Some_conv Let_def split: if_splits)
qed

lemma deduct_keeps:
  assumes "deduct pod x now = Some pod'"
  shows "pledged pod' = sat_u64 (pledged pod - x)" "exposure pod' = exposure pod" "pod_ticker pod' = pod_ticker pod"
  using assms by (auto simp: deduct_def bind_eq_Some_conv Let_def dest!: accumulate_keeps split: if_splits)

lemma sum_list_update_pledged:
  "i < length pods \<Longrightarrow> sum_list (map pledged (pods[i := pod])) = sum_list (map pledged pods) - pledged (pods ! i) + pledged pod"
proof (induction pods arbitrary: i)
  case (Cons p pods)
  then show ?case by (cases i) auto
qed simp

lemma price_of_Some: "price_of (Some ps) i = Some p \<longleftrightarrow> i < length ps \<and> p = ps ! i"
  by (auto simp: price_of_def)

lemma drain_pods_sum:
  assumes "drain_pods pods order ded (Some ps) now = Ok (pods', rem)" "distinct order" "0 \<le> ded"
    "\<forall>i \<in> set order. i < length pods \<and> is_u64 (pledged (pods ! i)) \<and> removable (pods ! i) (ps ! i) \<le> pledged (pods ! i)"
  shows "sum_list (map pledged pods') + (ded - rem) = sum_list (map pledged pods) \<and> 0 \<le> rem \<and> rem \<le> ded"
  using assms
proof (induction order arbitrary: pods ded)
  case (Cons i order)
  show ?case
  proof (cases "ded = 0")
    case False
    note prem = Cons.prems(4)[rule_format, of i]
    define x where "x = min (removable (pods ! i) (ps ! i)) ded"
    obtain pod where pod: "deduct (pods ! i) x now = Some pod"
      and rest: "drain_pods (pods[i := pod]) order (ded - x) (Some ps) now = Ok (pods', rem)"
      using Cons.prems(1) False by (auto simp: price_of_Some bind_eq_Some_conv Let_def x_def elim!: attempt_OkE)
    have x: "0 \<le> x" "x \<le> ded" "x \<le> pledged (pods ! i)"
      using prem Cons.prems(3) removable_nonneg[of "pods ! i" "ps ! i"] by (auto simp: x_def is_u64_def)
    have "pledged pod = pledged (pods ! i) - x"
      using deduct_keeps(1)[OF pod] x prem by (simp add: sat_u64_id is_u64_def)
    moreover have other: "pods[i := pod] ! j = pods ! j" if "j \<in> set order" for j
      using that Cons.prems(2) by (metis distinct.simps(2) nth_list_update_neq)
    have "sum_list (map pledged pods') + (ded - x - rem) = sum_list (map pledged (pods[i := pod])) \<and> 0 \<le> rem \<and> rem \<le> ded - x"
      using Cons.prems(2-4) x other by (intro Cons.IH[OF rest]) auto
    ultimately show ?thesis using prem x by (simp add: sum_list_update_pledged)
  qed (use Cons.prems in simp)
qed simp

text \<open>
  For a short the removable amount is measured against the notional. At two times leverage
  or more it exceeds the pledge, and the whole of it is reported as taken.
\<close>

lemma short_removable:
  assumes "pod_wf pod" "exposure pod < 0" "2 * pledged pod \<le> value_at pod price"
  shows "pledged pod \<le> value_at pod price - pledged pod" "value_at pod price - pledged pod \<le> removable pod price"
proof -
  have v: "0 \<le> value_at pod price" "value_at pod price \<le> U64_MAX" by (simp_all add: value_at_def units_value_range)
  have "sat_u64 (pledged pod - collar_amount pod price) \<le> pledged pod"
    using collar_amount_nonneg[OF assms(1), of price] assms(1) by (auto simp: sat_u64_def clamp_def pod_wf_def is_u64_def)
  then show "value_at pod price - pledged pod \<le> removable pod price"
    using assms v sat_u64_nonneg[of "pledged pod - collar_amount pod price"]
    by (auto simp: removable_def Let_def sat_u64_def clamp_def)
qed (use assms in simp)

lemma drain_short_overpays:
  assumes "pod_wf pod" "exposure pod < 0" "2 * pledged pod \<le> value_at pod price" "pledged pod < value_at pod price"
    "0 \<le> now" "now \<le> I64_MAX" "0 \<le> updated pod"  "updated pod \<le> I64_MAX" "balances d = [pod]"
    "value_at pod price - pledged pod \<le> I64_MAX"
  shows "ok (renege d None (- (value_at pod price - pledged pod)) (Some [price]) now) (\<lambda>r. \<exists>pod'. r = Inr (d\<lparr>balances := [pod']\<rparr>, 0) \<and>
    pledged pod' = 0 \<and> exposure pod' = exposure pod)"
proof -
  define x where "x = value_at pod price - pledged pod"
  have x: "pledged pod \<le> x" "x \<le> removable pod price" "0 < x" "x \<le> I64_MAX"
    using short_removable[OF assms(1-3)] assms(4,10) by (simp_all add: x_def)
  have "is_i64 (now - updated pod)" using assms(5-8) by (simp add: is_i64_def)
  then obtain pod' where pod': "deduct pod x now = Some pod'"
    by (simp add: deduct_def accumulate_collar_seconds_def Let_def)
  note k = deduct_keeps[OF pod']
  have p0: "pledged pod' = 0" using k x by (simp add: sat_u64_def clamp_def)
  have ord: "drain_order [pod] = [0]" by (simp add: drain_order_def)
  have "renege d None (- x) (Some [price]) now = Ok (prune (d\<lparr>balances := [pod']\<rparr>), as_i64 0)"
    using x pod' by (simp add: renege_def assms(9) ord price_of_def ok_or_def Let_def min_absorb2)
  moreover have "prune (d\<lparr>balances := [pod']\<rparr>) = d\<lparr>balances := [pod']\<rparr>" using k assms(2) by (simp add: prune_def)
  ultimately show ?thesis unfolding x_def[symmetric] using p0 k(2)
    by (auto simp: as_i64_id is_i64_def intro!: exI[of _ pod'])
qed

subsection \<open>One position\<close>

text \<open>The per-ticker branch reads the first price of the list, whichever position it moves.\<close>

lemma renege_first_price:
  "renege d (Some t) amount (Some (p # ps)) now = renege d (Some t) amount (Some [p]) now"
  by (cases "find_pod (pad_ticker t) (balances d)")
    (simp_all add: renege_def ok_or_def first_price_def price_of_def Let_def)

lemma renege_open_needs_price:
  assumes "find_pod (pad_ticker t) (balances d) = Some i" "exposure (balances d ! i) \<noteq> 0"
  shows "renege d (Some t) amount None now = Err NoPrice"
  using assms by (simp add: renege_def ok_or_def move_pledge_def first_price_def price_of_def)

lemma renege_full:
  assumes "find_pod (pad_ticker t) (balances d) = None" "MAX_LEN \<le> length (balances d)" "0 < amount"
  shows "renege d (Some t) amount prices now = Err MaxPositionsReached"
  using assms by (simp add: renege_def ok_or_def require_def)

lemma find_pod_append: "find_pod t ps = None \<Longrightarrow> pod_ticker pod = t \<Longrightarrow> find_pod t (ps @ [pod]) = Some (length ps)"
  by (induction ps) (auto split: if_splits)

lemma renege_new:
  assumes "find_pod (pad_ticker t) (balances d) = None" "length (balances d) < MAX_LEN" "0 < amount" "amount \<le> I64_MAX"
    "prune d = d"
  shows "renege d (Some t) amount prices now = Ok (d\<lparr>balances := balances d @ [new_pod (pad_ticker t) amount now]\<rparr>, 0)"
proof -
  have "as_u64 amount = amount" using assms by (simp add: as_u64_id is_u64_def)
  moreover have "filter (\<lambda>pod. pledged pod > 0 \<or> exposure pod \<noteq> 0) (balances d) = balances d"
    using arg_cong[OF assms(5), of balances] by (simp add: prune_def)
  ultimately show ?thesis
    using assms(1-3) by (simp add: renege_def ok_or_def require_def prune_def new_pod_def)
qed

lemma pledge_release_round_trip:
  assumes "find_pod (pad_ticker t) (balances d) = None" "length (balances d) < MAX_LEN" "0 < amount" "amount \<le> I64_MAX"
    "prune d = d" "0 \<le> now" "now \<le> later" "later \<le> I64_MAX"
  shows "ok (renege d (Some t) amount prices now) (\<lambda>r. \<exists>d1. r = Inr (d1, 0) \<and>
    sum_list (map pledged (balances d1)) = sum_list (map pledged (balances d)) + amount \<and>
    renege d1 (Some t) (- amount) prices' later = Ok (d\<lparr>last_updated := later\<rparr>, 0))"
proof -
  define pod where "pod = new_pod (pad_ticker t) amount now"
  define d1 where "d1 = d\<lparr>balances := balances d @ [pod]\<rparr>"
  have au: "as_u64 amount = amount" using assms by (simp add: as_u64_id is_u64_def)
  have pod: "pod_ticker pod = pad_ticker t" "exposure pod = 0" "pledged pod = amount" "cost_basis pod = amount"
    "updated pod = now" "pod_collar_bps pod = 0"
    by (simp_all add: pod_def new_pod_def au)
  have acc: "accumulate_collar_seconds pod later = Some pod"
    using assms pod by (simp add: accumulate_collar_seconds_def is_i64_def)
  have fp: "find_pod (pad_ticker t) (balances d1) = Some (length (balances d))"
    using find_pod_append[OF assms(1) pod(1)] by (simp add: d1_def)
  have nth: "balances d1 ! length (balances d) = pod" by (simp add: d1_def)
  have keep: "filter (\<lambda>pod. pledged pod > 0 \<or> exposure pod \<noteq> 0) (balances d) = balances d"
    using arg_cong[OF assms(5), of balances] by (simp add: prune_def)
  have mv: "move_pledge pod (- amount) price later = Ok (pod\<lparr>pledged := 0, cost_basis := 0, updated := later\<rparr>)" for price
    using assms(3) pod by (simp add: move_pledge_def require_def withdraw_limit_def acc Let_def sat_u64_def clamp_def)
  have "prune ((put_pod d1 (length (balances d)) (pod\<lparr>pledged := 0, cost_basis := 0, updated := later\<rparr>))\<lparr>last_updated := later\<rparr>)
      = d\<lparr>last_updated := later\<rparr>"
    using keep pod by (simp add: prune_def put_pod_def d1_def)
  then have undo: "renege d1 (Some t) (- amount) prices' later = Ok (d\<lparr>last_updated := later\<rparr>, 0)"
    using assms(3) by (simp add: renege_def ok_or_def fp nth mv Let_def)
  have "renege d (Some t) amount prices now = Ok (d1, 0)"
    using renege_new[OF assms(1-5)] by (simp add: d1_def pod_def)
  moreover have "sum_list (map pledged (balances d1)) = sum_list (map pledged (balances d)) + amount"
    using pod by (simp add: d1_def)
  ultimately show ?thesis using undo by simp
qed

end
