(* ===== verification/Chain.thy ===== *)
theory Chain
  imports Renege
begin

section \<open>What the program sees of the chain (etc.rs: price feeds; entra.rs: vault payments)\<close>

text \<open>
  The instructions run against a clock, a list of accounts passed by the caller, the static
  ticker tables, the Pyth price accounts, and other programs they call. What is not code of
  the repository is a field of \<open>env\<close>: the clock, address derivation, base58, the balances the
  Kestrel program leaves in the pool's token accounts, the conversion of a Pyth price through \<open>f64\<close> (\<open>powi\<close> has no specified precision), and whether a call to
  another program succeeds. A failed call aborts the transaction on Solana, so it is the
  abort \<^const>\<open>None\<close>, not an error the program can see. The ticker tables are data of
  \<^verbatim>\<open>etc.rs\<close> and enter as the lookups \<open>feed_hex\<close> and \<open>feed_account\<close>. Every handler returns
  the calls it made, in order, beside its state. Strings are ASCII, so \<open>from_utf8\<close> on a
  stored ticker does not fail.

  On top of it stand the price feed (\<open>fetch_price_inner\<close>), the conversion between a mint's
  decimals and the six decimals of the books (\<open>to_accounting\<close>, \<open>from_accounting\<close>) and
  \<open>transfer_from_vaults\<close>, which pays one claim pro rata out of every vault.
\<close>

subsection \<open>Accounts, calls and the environment\<close>

record account_info =
  ai_key :: pubkey
  ai_data :: "int list"
  ai_owner :: pubkey
  ai_writable :: bool

record mint_account =
  mint_key :: pubkey
  decimals :: int

record token_account =
  token_key :: pubkey
  token_mint_of :: pubkey
  token_owner :: pubkey
  amount_held :: int

datatype (plugins only: code) call =
    Transfer_checked pubkey pubkey pubkey int int
  | System_transfer pubkey pubkey int
  | Sync_native pubkey
  | Close_account pubkey pubkey
  | Create_ata pubkey
  | Kestrel_mint int
  | Kestrel_burn int
  | Burn_tokens pubkey pubkey int
  | Mint_to pubkey pubkey int
  | Endpoint_send int "int list" "int list" "int list" int
  | Endpoint_clear pubkey int "int list" int "int list" "int list"
  | Endpoint_register pubkey

record env =
  unix_timestamp :: int
  clock_slot :: int
  feed_hex :: "string \<Rightarrow> string option"
  feed_account :: "string \<Rightarrow> string option"
  base58 :: "pubkey \<Rightarrow> string"
  from_base58 :: "string \<Rightarrow> pubkey option"
  f64_price :: "int \<Rightarrow> int \<Rightarrow> int"
  program_id :: pubkey
  token_id :: pubkey
  token_2022_id :: pubkey
  associated_token_id :: pubkey
  vault_address :: "pubkey \<Rightarrow> pubkey"
  vault_with_bump :: "pubkey \<Rightarrow> int \<Rightarrow> pubkey option"
  depositor_address :: "pubkey \<Rightarrow> pubkey"
  ata_address :: "pubkey \<Rightarrow> pubkey \<Rightarrow> pubkey \<Rightarrow> pubkey"
  programdata_address :: "pubkey \<Rightarrow> pubkey"
  rent_floor :: int
  kestrel_minted :: "int \<Rightarrow> int \<times> int"
  kestrel_burned :: "int \<Rightarrow> int"
  succeeds :: "call \<Rightarrow> bool"

definition invoke :: "env \<Rightarrow> call \<Rightarrow> unit option" where
  "invoke e c = (if succeeds e c then Some () else None)"

subsection \<open>Bytes\<close>

fun le_value :: "int list \<Rightarrow> int" where
  "le_value [] = 0"
| "le_value (b # bs) = b + 256 * le_value bs"

fun le_bytes :: "nat \<Rightarrow> int \<Rightarrow> int list" where
  "le_bytes 0 x = []"
| "le_bytes (Suc n) x = x mod 256 # le_bytes n (x div 256)"

definition be_value :: "int list \<Rightarrow> int" where
  "be_value bs = le_value (rev bs)"

definition be_bytes :: "nat \<Rightarrow> int \<Rightarrow> int list" where
  "be_bytes n x = rev (le_bytes n x)"

definition slice :: "nat \<Rightarrow> nat \<Rightarrow> int list \<Rightarrow> int list" where
  "slice off n bs = take n (drop off bs)"

definition as_i32 :: "int \<Rightarrow> int" where
  "as_i32 x = (x + 2147483648) mod 4294967296 - 2147483648"

subsection \<open>The price feed\<close>


definition get_hex :: "env \<Rightarrow> string \<Rightarrow> string option" where
  "get_hex e ticker =
     (if ticker = ''SOL'' then Some ''0xef0d8b6fda2ceba41da15d4095d1da392a0d2f8ed0c6c7bc0f4cfac8c280b56d''
      else feed_hex e ticker)"

definition get_account :: "env \<Rightarrow> string \<Rightarrow> string option" where
  "get_account e ticker =
     (if ticker = ''SOL'' then Some ''7UVimffxr9ow1uXYxsr4LHAcV58mLzhmwaeKvJ1pjLiE''
      else feed_account e ticker)"

definition hex_digit :: "char \<Rightarrow> int option" where
  "hex_digit c =
     (let n = of_char c :: int in
      if 48 \<le> n \<and> n \<le> 57 then Some (n - 48)
      else if 97 \<le> n \<and> n \<le> 102 then Some (n - 87)
      else if 65 \<le> n \<and> n \<le> 70 then Some (n - 55)
      else None)"

text \<open>\<open>u8::from_str_radix(_, 16)\<close> on one or two characters; a leading plus sign is accepted.\<close>

fun hex_byte :: "string \<Rightarrow> int option" where
  "hex_byte [a] = hex_digit a"
| "hex_byte [a, b] =
     (if a = CHR ''+'' then hex_digit b
      else do { x \<leftarrow> hex_digit a; y \<leftarrow> hex_digit b; Some (16 * x + y) })"
| "hex_byte _ = None"

fun chunks2 :: "'a list \<Rightarrow> 'a list list" where
  "chunks2 [] = []"
| "chunks2 [a] = [[a]]"
| "chunks2 (a # b # r) = [a, b] # chunks2 r"

fun hex_bytes :: "string list \<Rightarrow> int list result" where
  "hex_bytes [] = Ok []"
| "hex_bytes (c # cs) =
     attempt (ok_or (hex_byte c) UnknownSymbol) (\<lambda>b. attempt (hex_bytes cs) (\<lambda>bs. Ok (b # bs)))"

definition expected_feed :: "string \<Rightarrow> int list result" where
  "expected_feed hex =
     (let h = (if take 2 hex = ''0x'' then drop 2 hex else hex) in
      attempt (hex_bytes (take 32 (chunks2 h))) (\<lambda>bs. Ok (bs @ replicate (32 - length bs) 0)))"

definition conf_ratio_bps :: "int \<Rightarrow> int \<Rightarrow> int option" where
  "conf_ratio_bps conf price_abs =
     (if price_abs > 0 then do { m \<leftarrow> u64 (conf * 10000); div_u m price_abs }
      else Some (MAX_CONFIDENCE_BPS + 1))"

definition fetch_price_inner :: "env \<Rightarrow> string \<Rightarrow> account_info option \<Rightarrow> int \<Rightarrow> (int \<times> int) result" where
  "fetch_price_inner e ticker account max_age =
     attempt (ok_or (get_hex e ticker) UnknownSymbol) (\<lambda>hex.
     attempt (ok_or account NoPrice) (\<lambda>acct.
       let data = ai_data acct in
       if length data < 101 then Err NoPrice
       else attempt (expected_feed hex) (\<lambda>expected.
         if slice 41 32 data \<noteq> expected then Err NoPrice
         else do {
           let price = as_i64 (le_value (slice 73 8 data));
           let conf = le_value (slice 81 8 data);
           let exponent = as_i32 (le_value (slice 89 4 data));
           let publish_time = as_i64 (le_value (slice 93 8 data));
           age \<leftarrow> i64 (unix_timestamp e - publish_time);
           age_abs \<leftarrow> i64 \<bar>age\<bar>;
           if age_abs > max_age then Err NoPrice
           else do {
             ratio \<leftarrow> conf_ratio_bps conf \<bar>price\<bar>;
             if ratio > MAX_CONFIDENCE_BPS then Err PriceUncertain
             else
               let conf_mult = 100 + min 100 (ratio * 100 div MAX_CONFIDENCE_BPS);
                   adjusted = f64_price e price exponent in
               require (adjusted > 0) NoPrice (Ok (adjusted, conf_mult))
           }
         })))"

definition fetch_price :: "env \<Rightarrow> string \<Rightarrow> account_info option \<Rightarrow> int result" where
  "fetch_price e ticker account =
     attempt (fetch_price_inner e ticker account MAX_PRICE_AGE) (\<lambda>(price, _). Ok price)"

fun fetch_multiple_prices :: "env \<Rightarrow> stock list \<Rightarrow> account_info list \<Rightarrow> int list result" where
  "fetch_multiple_prices e [] accounts = Ok []"
| "fetch_multiple_prices e (pod # pods) accounts =
     (let ticker = trim_nul (pod_ticker pod) in
      attempt (ok_or (get_account e ticker) UnknownSymbol) (\<lambda>key.
      attempt (ok_or (from_base58 e key) UnknownSymbol) (\<lambda>pubkey.
      attempt (ok_or (find (\<lambda>a. ai_key a = pubkey) accounts) Tickers) (\<lambda>acct.
      attempt (fetch_price e ticker (Some acct)) (\<lambda>price.
      attempt (fetch_multiple_prices e pods accounts) (\<lambda>prices. Ok (price # prices)))))))"

subsection \<open>Decimals\<close>

definition checked_pow10 :: "int \<Rightarrow> int option" where
  "checked_pow10 n = u64 (10 ^ nat n)"

definition to_accounting :: "int \<Rightarrow> int \<Rightarrow> int result" where
  "to_accounting amount dec =
     (if dec = 6 then Ok amount
      else if dec > 6 then
        attempt (ok_or (checked_pow10 (dec - 6)) InvalidParameters) (\<lambda>d. Ok (amount div d))
      else
        attempt (ok_or (checked_pow10 (6 - dec)) InvalidParameters) (\<lambda>m.
          ok_or (u64 (amount * m)) InvalidParameters))"

definition from_accounting :: "int \<Rightarrow> int \<Rightarrow> int result" where
  "from_accounting units dec =
     (if dec = 6 then Ok units
      else if dec > 6 then
        attempt (ok_or (checked_pow10 (dec - 6)) InvalidParameters) (\<lambda>m.
          ok_or (u64 (units * m)) InvalidParameters)
      else
        attempt (ok_or (checked_pow10 (6 - dec)) InvalidParameters) (\<lambda>d. Ok (units div d)))"

subsection \<open>Paying out of the vaults\<close>

record native_leg =
  nl_pool :: pubkey
  nl_recipient :: pubkey
  nl_lamports :: int
  nl_value :: int
  nl_paid :: int

definition native_pay :: "env \<Rightarrow> native_leg \<Rightarrow> int \<Rightarrow> (native_leg \<times> int \<times> call list) option" where
  "native_pay e leg taken =
     (if taken = 0 \<or> nl_value leg = 0 then Some (leg, 0, [])
      else
        let out = min (sat_u128 (nl_lamports leg * taken) div nl_value leg) (nl_lamports leg) in
        if out = 0 then Some (leg, 0, [])
        else do {
          let c = System_transfer (nl_pool leg) (nl_recipient leg) out;
          _ \<leftarrow> invoke e c;
          Some (leg\<lparr>nl_paid := sat_u64 (nl_paid leg + out)\<rparr>, out, [c])
        })"

definition is_approved_mint :: "pubkey \<Rightarrow> pubkey list \<Rightarrow> bool" where
  "is_approved_mint mint registered \<longleftrightarrow> mint \<in> set registered"

record alt_vault =
  av_mint :: pubkey
  av_vault :: pubkey
  av_user :: pubkey
  av_balance :: int
  av_decimals :: int

text \<open>The scan of the remaining accounts in triplets (mint, vault, recipient).\<close>

fun scan_vaults :: "env \<Rightarrow> pubkey list \<Rightarrow> account_info list \<Rightarrow> alt_vault list result" where
  "scan_vaults e registered (m # v # u # rest) =
     (if \<not> is_approved_mint (ai_key m) registered \<or> ai_key v \<noteq> vault_address e (ai_key m) \<or>
         length (ai_data v) < 72
      then scan_vaults e registered rest
      else
        let raw = le_value (slice 64 8 (ai_data v));
            dec = (if length (ai_data m) > 44 then ai_data m ! 44 else 6) in
        attempt (to_accounting raw dec) (\<lambda>bal.
        attempt (scan_vaults e registered rest) (\<lambda>alts.
          Ok (if bal > 0
              then \<lparr>av_mint = ai_key m, av_vault = ai_key v, av_user = ai_key u,
                    av_balance = bal, av_decimals = dec\<rparr> # alts
              else alts))))"
| "scan_vaults e registered _ = Ok []"

text \<open>What one vault sends of \<open>to_send\<close>: its pro rata share; the last alternative vault sends what is left.\<close>

definition alt_take :: "alt_vault \<Rightarrow> bool \<Rightarrow> int \<Rightarrow> int \<Rightarrow> int \<Rightarrow> int option" where
  "alt_take av last_one remaining to_send total_bal =
     (if last_one then Some (min remaining (av_balance av))
      else do {
        m \<leftarrow> u128 (av_balance av * to_send);
        q \<leftarrow> div_u m total_bal;
        Some (min (min (as_u64 q) (av_balance av)) remaining)
      })"

fun pay_alts :: "env \<Rightarrow> alt_vault list \<Rightarrow> int \<Rightarrow> int \<Rightarrow> int \<Rightarrow> (int \<times> call list) result" where
  "pay_alts e [] to_send total_bal sent = Ok (sent, [])"
| "pay_alts e (av # avs) to_send total_bal sent =
     (let remaining = sat_u64 (to_send - sent) in
      if remaining = 0 then Ok (sent, [])
      else do {
        take \<leftarrow> alt_take av (avs = []) remaining to_send total_bal;
        if take = 0 then pay_alts e avs to_send total_bal sent
        else attempt (from_accounting take (av_decimals av)) (\<lambda>raw. do {
          let c = Transfer_checked (av_vault av) (av_mint av) (av_user av) raw (av_decimals av);
          _ \<leftarrow> invoke e c;
          sent' \<leftarrow> u64 (sent + take);
          attempt (pay_alts e avs to_send total_bal sent') (\<lambda>(s, cs). Ok (s, c # cs))
        })
      })"

definition pay_primary :: "env \<Rightarrow> token_account \<Rightarrow> mint_account \<Rightarrow> pubkey \<Rightarrow> int \<Rightarrow> int \<Rightarrow> int \<Rightarrow> (int \<times> call list) result" where
  "pay_primary e vault mint user primary_bal to_send total_bal =
     (if primary_bal > 0 then do {
        m \<leftarrow> u128 (primary_bal * to_send);
        q \<leftarrow> div_u m total_bal;
        let take = min (min (as_u64 q) primary_bal) to_send;
        if take > 0 then
          attempt (from_accounting take (decimals mint)) (\<lambda>raw. do {
            let c = Transfer_checked (token_key vault) (mint_key mint) user raw (decimals mint);
            _ \<leftarrow> invoke e c;
            Ok (take, [c])
          })
        else Ok (0, [])
      }
      else Ok (0, []))"

definition pay_native :: "env \<Rightarrow> native_leg option \<Rightarrow> int \<Rightarrow> int \<Rightarrow> (int \<times> call list) result" where
  "pay_native e native to_send sent =
     (case native of None \<Rightarrow> Ok (sent, [])
      | Some leg \<Rightarrow>
          let remaining = sat_u64 (to_send - sent) in
          if remaining > 0 then do {
            let take = min remaining (nl_value leg);
            (_, out, cs) \<leftarrow> native_pay e leg take;
            if out > 0 then do { s \<leftarrow> u64 (sent + take); Ok (s, cs) } else Ok (sent, cs)
          }
          else Ok (sent, []))"

definition transfer_from_vaults :: "env \<Rightarrow> token_account \<Rightarrow> mint_account \<Rightarrow> pubkey \<Rightarrow> account_info list \<Rightarrow>
    pubkey list \<Rightarrow> int \<Rightarrow> native_leg option \<Rightarrow> (int \<times> call list) result" where
  "transfer_from_vaults e vault mint user remaining_accounts registered requested native =
     attempt (to_accounting (amount_held vault) (decimals mint)) (\<lambda>primary_bal.
     attempt (scan_vaults e registered remaining_accounts) (\<lambda>alts.
       let native_bal = (case native of None \<Rightarrow> 0 | Some leg \<Rightarrow> nl_value leg);
           total_bal = foldl (\<lambda>t av. sat_u64 (t + av_balance av)) (sat_u64 (primary_bal + native_bal)) alts in
       if total_bal = 0 then Ok (0, [])
       else
         let to_send = min requested total_bal in
         attempt (pay_primary e vault mint user primary_bal to_send total_bal) (\<lambda>(sent, cs).
         attempt (pay_alts e alts to_send total_bal sent) (\<lambda>(sent, cs').
         attempt (pay_native e native to_send sent) (\<lambda>(sent, cs'').
           Ok (sent, cs @ cs' @ cs''))))))"

subsection \<open>Bytes and decimals\<close>

lemma le_bytes_length [simp]: "length (le_bytes n x) = n"
  by (induction n arbitrary: x) auto

lemma le_value_bytes: "0 \<le> x \<Longrightarrow> x < 256 ^ n \<Longrightarrow> le_value (le_bytes n x) = x"
proof (induction n arbitrary: x)
  case (Suc n)
  then have "x div 256 < 256 ^ n" "0 \<le> x div 256" by (auto simp: div_less_iff_less_mult mult.commute)
  then show ?case using Suc.IH[of "x div 256"] by simp
qed simp

lemma be_round_trip: "is_u64 x \<Longrightarrow> be_value (be_bytes 8 x) = x"
  by (simp add: be_value_def be_bytes_def le_value_bytes is_u64_def)

lemma accounting_round_trip:
  assumes "to_accounting x dec = Ok u" "0 \<le> x" "x \<le> U64_MAX"
  shows "\<exists>y. from_accounting u dec = Ok y \<and> y \<le> x \<and> x < y + 10 ^ nat (dec - 6)"
proof (cases "dec \<le> 6")
  case True
  define m :: int where "m = 10 ^ nat (6 - dec)"
  have m: "0 < m" by (simp add: m_def)
  show ?thesis
  proof (cases "dec = 6")
    case False
    then have "u = x * m" "is_u64 m" using assms(1) True
      by (auto simp: to_accounting_def checked_pow10_def m_def elim!: attempt_OkE)
    then have "from_accounting u dec = Ok x"
      using True False m by (simp add: from_accounting_def checked_pow10_def ok_or_def flip: m_def)
    then show ?thesis using True by simp
  qed (use assms in \<open>simp add: to_accounting_def from_accounting_def\<close>)
next
  case False
  define m :: int where "m = 10 ^ nat (dec - 6)"
  have m: "0 < m" by (simp add: m_def)
  have u: "u = x div m" "is_u64 m" using assms(1) False
    by (auto simp: to_accounting_def checked_pow10_def m_def elim!: attempt_OkE)
  have b: "x div m * m \<le> x" "x < x div m * m + m" "0 \<le> x div m * m"
    using m assms(2) by (auto simp: minus_mod_eq_div_mult[symmetric] div_int_pos_iff zmod_le_nonneg_dividend)
  then have "is_u64 (x div m * m)" using assms(3) by (simp add: is_u64_def)
  then have "from_accounting u dec = Ok (x div m * m)"
    using False u by (simp add: from_accounting_def checked_pow10_def ok_or_def flip: m_def)
  then show ?thesis using b by (auto simp: m_def)
qed

subsection \<open>What a price was checked for\<close>

lemma fetch_price_inner_checked:
  "commits (fetch_price_inner e t acct max_age) (\<lambda>(p, mult). 0 < p \<and> 100 \<le> mult \<and> mult \<le> 200 \<and>
    (\<exists>a hex feed. acct = Some a \<and> get_hex e t = Some hex \<and> expected_feed hex = Ok feed \<and> slice 41 32 (ai_data a) = feed \<and>
       \<bar>unix_timestamp e - as_i64 (le_value (slice 93 8 (ai_data a)))\<bar> \<le> max_age \<and>
       (\<exists>r. conf_ratio_bps (le_value (slice 81 8 (ai_data a))) \<bar>as_i64 (le_value (slice 73 8 (ai_data a)))\<bar> = Some r \<and>
            r \<le> MAX_CONFIDENCE_BPS)))"
proof -
  have r: "0 \<le> r" if "conf_ratio_bps c p = Some r" for c p r
    using that by (auto simp: conf_ratio_bps_def is_u64_def div_u_def bind_eq_Some_conv div_nonneg split: if_splits)
  have "0 \<le> r * 100 div 500" if "conf_ratio_bps c p = Some r" for c p r using r[OF that] by (simp add: div_nonneg)
  then show ?thesis
    unfolding fetch_price_inner_def
    by (simp only: commit_rules Let_def part_exact)
      (auto simp: commits_def part_def is_i64_def)
qed

lemma fetch_price_checked:
  "commits (fetch_price e t acct) (\<lambda>p. 0 < p \<and> (\<exists>a. acct = Some a \<and>
       \<bar>unix_timestamp e - as_i64 (le_value (slice 93 8 (ai_data a)))\<bar> \<le> MAX_PRICE_AGE))"
  unfolding fetch_price_def commits_attempt
  by (rule commits_mono[OF fetch_price_inner_checked]) auto

subsection \<open>What is paid out of the vaults\<close>

lemma pay_primary_le:
  assumes "0 \<le> to_send"
  shows "commits (pay_primary e vault mint user bal to_send total_bal) (\<lambda>(sent, _). 0 \<le> sent \<and> sent \<le> to_send)"
  unfolding pay_primary_def
  by (simp only: commit_rules) (use assms in \<open>auto simp: commits_def part_def bind_eq_Some_conv elim!: attempt_OkE\<close>)

lemma alt_take_range:
  assumes "0 \<le> av_balance av" "0 \<le> remaining"
  shows "part (alt_take av l remaining to_send total_bal) (\<lambda>t. 0 \<le> t \<and> t \<le> remaining \<and> t \<le> av_balance av)"
  using assms is_as_u64 by (auto simp: alt_take_def part_simps is_u64_def intro!: part_any)

lemma pay_alts_le:
  assumes "0 \<le> sent" "sent \<le> to_send" "to_send \<le> U64_MAX" "\<forall>av \<in> set alts. 0 \<le> av_balance av"
  shows "commits (pay_alts e alts to_send total_bal sent) (\<lambda>(s, _). sent \<le> s \<and> s \<le> to_send)"
  using assms
proof (induction alts arbitrary: sent)
  case (Cons av avs)
  show ?case
  proof (rule iffD2[OF commits_def], intro allI impI)
    fix r assume r: "pay_alts e (av # avs) to_send total_bal sent = Ok r"
    define remaining where "remaining = sat_u64 (to_send - sent)"
    have rem: "remaining = to_send - sent" using Cons.prems by (simp add: remaining_def sat_u64_id is_u64_def)
    show "case r of (s, _) \<Rightarrow> sent \<le> s \<and> s \<le> to_send"
    proof (cases "remaining = 0")
      case True
      then show ?thesis using r rem by (auto simp: remaining_def)
    next
      case False
      obtain tk where alt: "alt_take av (avs = []) remaining to_send total_bal = Some tk"
        using r False by (auto simp: Let_def bind_eq_Some_conv simp flip: remaining_def)
      then have tk: "0 \<le> tk" "tk \<le> remaining"
        using partD[OF alt_take_range alt] Cons.prems rem by auto
      note r' = r[unfolded pay_alts.simps, folded remaining_def, unfolded Let_def, simplified False alt, simplified]
      have IH: "commits (pay_alts e avs to_send total_bal s) (\<lambda>(s', _). s \<le> s' \<and> s' \<le> to_send)"
        if "0 \<le> s" "s \<le> to_send" for s
        using that Cons.prems by (intro Cons.IH) auto
      show ?thesis
      proof (cases "tk = 0")
        case True
        then show ?thesis using r' IH[of sent] Cons.prems by (simp add: commits_def)
      next
        case False
        then obtain s cs where "pay_alts e avs to_send total_bal (sent + tk) = Ok (s, cs)" "fst r = s"
          using r' by (auto simp: bind_eq_Some_conv Let_def elim!: attempt_OkE)
        moreover have "sent + tk \<le> s \<and> s \<le> to_send"
          using IH[of "sent + tk"] tk rem Cons.prems calculation(1) by (simp add: commits_def)
        ultimately show ?thesis using tk by (simp add: case_prod_beta)
      qed
    qed
  qed
qed simp

lemma pay_native_le:
  assumes "0 \<le> sent" "sent \<le> to_send" "to_send \<le> U64_MAX" "\<forall>leg. native = Some leg \<longrightarrow> 0 \<le> nl_value leg"
  shows "commits (pay_native e native to_send sent) (\<lambda>(s, _). sent \<le> s \<and> s \<le> to_send)"
proof (cases native)
  case (Some leg)
  then show ?thesis
    using assms by (auto simp: pay_native_def Let_def commits_def bind_eq_Some_conv sat_u64_id is_u64_def split: if_splits)
qed (use assms in \<open>simp add: pay_native_def\<close>)

lemma scan_vaults_positive:
  "commits (scan_vaults e reg accts) (\<lambda>alts. \<forall>av \<in> set alts. 0 < av_balance av)"
  by (induction e reg accts rule: scan_vaults.induct)
    (auto simp: commits_def Let_def elim!: attempt_OkE split: if_splits)

lemma foldl_sat_nonneg: "0 \<le> x \<Longrightarrow> 0 \<le> foldl (\<lambda>t av. sat_u64 (t + av_balance av)) x alts"
  by (induction alts arbitrary: x) simp_all

lemma transfer_from_vaults_le:
  assumes "0 \<le> requested" "requested \<le> U64_MAX" "\<forall>leg. native = Some leg \<longrightarrow> 0 \<le> nl_value leg"
  shows "commits (transfer_from_vaults e vault mint user accts reg requested native) (\<lambda>(sent, _). 0 \<le> sent \<and> sent \<le> requested)"
proof (rule iffD2[OF commits_def], intro allI impI)
  fix r assume "transfer_from_vaults e vault mint user accts reg requested native = Ok r"
  then obtain bal alts where alts: "scan_vaults e reg accts = Ok alts" and
    r: "(let native_bal = (case native of None \<Rightarrow> 0 | Some leg \<Rightarrow> nl_value leg);
           total_bal = foldl (\<lambda>t av. sat_u64 (t + av_balance av)) (sat_u64 (bal + native_bal)) alts in
       if total_bal = 0 then Ok (0, [])
       else
         let to_send = min requested total_bal in
         attempt (pay_primary e vault mint user bal to_send total_bal) (\<lambda>(sent, cs).
         attempt (pay_alts e alts to_send total_bal sent) (\<lambda>(sent, cs').
         attempt (pay_native e native to_send sent) (\<lambda>(sent, cs'').
           Ok (sent, cs @ cs' @ cs''))))) = Ok r"
    unfolding transfer_from_vaults_def by (auto elim!: attempt_OkE)
  define tb where "tb = foldl (\<lambda>t av. sat_u64 (t + av_balance av)) (sat_u64 (bal + (case native of None \<Rightarrow> 0 | Some leg \<Rightarrow> nl_value leg))) alts"
  define ts where "ts = min requested tb"
  have ts: "0 \<le> ts" "ts \<le> requested" "ts \<le> U64_MAX" using assms foldl_sat_nonneg[OF sat_u64_nonneg] by (auto simp: ts_def tb_def)
  have pos: "\<forall>av \<in> set alts. 0 \<le> av_balance av" using scan_vaults_positive[of e reg accts] alts by (force simp: commits_def)
  show "case r of (sent, _) \<Rightarrow> 0 \<le> sent \<and> sent \<le> requested"
  proof (cases "tb = 0")
    case True
    then show ?thesis using r assms unfolding Let_def tb_def[symmetric] by auto
  next
    case False
    then obtain s1 c1 s2 c2 s3 c3 where
      1: "pay_primary e vault mint user bal ts tb = Ok (s1, c1)" and 2: "pay_alts e alts ts tb s1 = Ok (s2, c2)" and
      3: "pay_native e native ts s2 = Ok (s3, c3)" and r3: "r = (s3, c1 @ c2 @ c3)"
      using r unfolding Let_def tb_def[symmetric] ts_def[symmetric] by (auto elim!: attempt_OkE)
    have a: "0 \<le> s1" "s1 \<le> ts" using commitsD[OF pay_primary_le[OF ts(1)] 1] by auto
    have b: "s1 \<le> s2" "s2 \<le> ts" using commitsD[OF pay_alts_le[OF a ts(3) pos] 2] by auto
    then have "0 \<le> s2" using a by linarith
    from commitsD[OF pay_native_le[OF this b(2) ts(3) assms(3)] 3] have "s2 \<le> s3" "s3 \<le> ts" by auto
    then show ?thesis using ts a b r3 by simp
  qed
qed

text \<open>With one alternative vault, rounding leaves the last vault no more than it holds.\<close>

lemma remainder_fits:
  fixes p a s :: int
  assumes "0 \<le> a" "0 < p + a" "s \<le> p + a"
  shows "s - a \<le> p * s div (p + a)"
proof -
  have "(s - a) * (p + a) \<le> p * s"
    using mult_left_mono[OF assms(3,1)] by (simp add: algebra_simps)
  then have "(s - a) * (p + a) div (p + a) \<le> p * s div (p + a)" using assms(2) by (intro zdiv_mono1)
  then show ?thesis using assms(2) by simp
qed

lemma pay_primary_exact:
  assumes "0 \<le> bal" "bal \<le> t" "0 \<le> s" "s \<le> t" "0 < t" "t \<le> U64_MAX"
  shows "commits (pay_primary e vault mint user bal s t) (\<lambda>(sent, _). sent = bal * s div t)"
proof -
  have "bal * s div t \<le> bal" "bal * s div t \<le> s" "0 \<le> bal * s div t"
    using muldiv_le_left[of bal s t] muldiv_le_left[of s bal t] assms by (auto simp: mult.commute div_nonneg)
  moreover from this have "as_u64 (bal * s div t) = bal * s div t" using assms by (intro as_u64_id) (simp add: is_u64_def)
  ultimately show ?thesis
    using assms unfolding pay_primary_def
    by (simp only: commit_rules) (auto simp: part_def div_u_def commits_def bind_eq_Some_conv min_def elim!: attempt_OkE split: if_splits)
qed

lemma pay_alts_one:
  assumes "0 \<le> sent" "sent \<le> s" "s \<le> U64_MAX" "s - sent \<le> av_balance av"
  shows "commits (pay_alts e [av] s t sent) (\<lambda>(x, _). x = s)"
  using assms by (auto simp: alt_take_def commits_def Let_def bind_eq_Some_conv sat_u64_id is_u64_def min_def elim!: attempt_OkE split: if_splits)

lemma transfer_pays_in_full:
  assumes "to_accounting (amount_held vault) (decimals mint) = Ok bal" "0 \<le> bal"
    "scan_vaults e reg accts = Ok alts" "length alts \<le> 1" "bal + sum_list (map av_balance alts) \<le> U64_MAX" "0 \<le> requested"
  shows "commits (transfer_from_vaults e vault mint user accts reg requested None)
    (\<lambda>(sent, _). sent = min requested (bal + sum_list (map av_balance alts)))"
proof -
  define t where "t = bal + sum_list (map av_balance alts)"
  define s where "s = min requested t"
  have pos: "\<forall>av \<in> set alts. 0 < av_balance av" using scan_vaults_positive[of e reg accts] assms(3) by (force simp: commits_def)
  have cases: "alts = [] \<or> (\<exists>av. alts = [av])" using assms(4) by (cases alts) auto
  have t: "bal \<le> t" "t \<le> U64_MAX" using pos cases assms(5) by (auto simp: t_def)
  have tb: "foldl (\<lambda>t av. sat_u64 (t + av_balance av)) (sat_u64 (bal + 0)) alts = t"
    using cases assms(2) t pos by (auto simp: t_def sat_u64_id is_u64_def)
  have s: "0 \<le> s" "s \<le> t" using assms(2,6) t by (auto simp: s_def)
  show ?thesis
  proof (cases "t = 0")
    case True
    then show ?thesis using assms(1,3,6) tb by (simp add: transfer_from_vaults_def t_def)
  next
    case False
    then have t0: "0 < t" using t assms(2) by linarith
    define q where "q = bal * s div t"
    have q: "0 \<le> q" "q \<le> s" using muldiv_le_left[of s bal t] s t t0 assms(2) by (auto simp: q_def mult.commute div_nonneg)
    have alt: "commits (pay_alts e alts s t q) (\<lambda>(x, _). x = s)"
    proof (cases "alts = []")
      case True
      then have "q = s" using t0 by (simp add: q_def t_def)
      then show ?thesis using True by simp
    next
      case False
      then obtain av where av: "alts = [av]" using cases by auto
      have "s - av_balance av \<le> q"
        using remainder_fits[of "av_balance av" bal s] pos av t0 s by (simp add: q_def t_def)
      then show ?thesis unfolding av using q s t by (intro pay_alts_one) auto
    qed
    show ?thesis
      unfolding transfer_from_vaults_def assms(1,3) attempt.simps Let_def option.case tb t_def[symmetric] s_def[symmetric]
      using False s alt pay_primary_exact[OF assms(2) t(1) s t0 t(2), of e vault mint user, folded q_def]
      by (auto simp: commits_def pay_native_def elim!: attempt_OkE)
  qed
qed

end
