(* ===== verification/Sol.thy ===== *)
theory Sol
  imports Chain
begin

section \<open>Configuration, the SOL book and flash loans (entra.rs, clutch.rs)\<close>

text \<open>
  The program's configuration and its guarded update, the book of pooled SOL (what stays
  native, what is parked with the Kestrel program as SOL*, what it is credited at), the
  withdrawal of SOL and the refresh of its dollar mark, and flash loans: a borrow that is
  only granted when the same transaction repays it, and the repayment.
\<close>

abbreviation (input) MIN_BUFFER_BPS :: int where "MIN_BUFFER_BPS \<equiv> 2000"
abbreviation (input) SOL_STAR_HAIRCUT_BPS :: int where "SOL_STAR_HAIRCUT_BPS \<equiv> 40"
abbreviation (input) SOL_STAR_LEGS :: nat where "SOL_STAR_LEGS \<equiv> 9"
abbreviation (input) default_key :: pubkey where "default_key \<equiv> 0"

definition USD_STAR :: pubkey where
  "USD_STAR = nat (be_value [13, 9, 93, 190, 135, 153, 95, 149, 60, 27, 94, 58, 32, 167, 130, 124,
     150, 157, 208, 228, 203, 99, 252, 41, 160, 227, 239, 15, 132, 98, 27, 92])"

definition WSOL_MINT :: pubkey where
  "WSOL_MINT = nat (be_value [6, 155, 136, 87, 254, 171, 129, 132, 251, 104, 127, 99, 70, 24, 192, 53,
     218, 196, 57, 220, 26, 235, 59, 85, 152, 160, 240, 0, 0, 0, 0, 1])"

definition FLASH_REPAY_DISC :: "int list" where
  "FLASH_REPAY_DISC = [182, 143, 19, 23, 39, 221, 184, 78]"

definition WITHDRAW_DISC :: "int list" where
  "WITHDRAW_DISC = [183, 18, 70, 156, 148, 109, 161, 34]"

subsection \<open>The configuration\<close>

record program_config =
  cfg_admin :: pubkey
  cfg_token_mint :: pubkey
  registered_mints :: "pubkey list"
  cfg_bump :: int
  flash_authority :: pubkey
  config_version :: int
  kestrel_program :: pubkey
  sol_star_mint :: pubkey
  sol_buffer_bps :: int
  sol_star_haircut_bps :: int
  sol_park_band_bps :: int

record kestrel_cfg =
  k_program :: pubkey
  k_sol_star_mint :: pubkey
  buffer_bps :: int
  haircut_bps :: int
  park_band_bps :: int

definition init_config :: "pubkey \<Rightarrow> pubkey \<Rightarrow> int \<Rightarrow> program_config" where
  "init_config admin token_mint bump =
     \<lparr>cfg_admin = admin, cfg_token_mint = token_mint, registered_mints = [token_mint, USD_STAR],
      cfg_bump = bump, flash_authority = default_key, config_version = 0,
      kestrel_program = default_key, sol_star_mint = default_key, sol_buffer_bps = 5000,
      sol_star_haircut_bps = SOL_STAR_HAIRCUT_BPS, sol_park_band_bps = 1000\<rparr>"

definition check_kestrel :: "depository option \<Rightarrow> kestrel_cfg \<Rightarrow> unit result" where
  "check_kestrel bank k =
     require (buffer_bps k \<ge> MIN_BUFFER_BPS) InvalidParameters (
     require (buffer_bps k \<le> 10000 \<and> haircut_bps k \<le> 10000) InvalidParameters (
     require (park_band_bps k \<le> 10000 - buffer_bps k) InvalidParameters (
       if k_program k \<noteq> default_key
       then require (k_sol_star_mint k \<noteq> default_key) InvalidParameters (Ok ())
       else attempt (ok_or bank InvalidParameters) (\<lambda>b.
              require (sol_star_shares b = 0) SolStarStillParked (Ok ())))))"

definition update_config :: "program_config \<Rightarrow> depository option \<Rightarrow> pubkey \<Rightarrow> pubkey option \<Rightarrow>
    pubkey option \<Rightarrow> kestrel_cfg option \<Rightarrow> program_config result" where
  "update_config cfg bank signer new_admin set_flash_authority kestrel =
     require (signer = cfg_admin cfg) Unauthorized (
     attempt (case kestrel of None \<Rightarrow> Ok () | Some k \<Rightarrow> check_kestrel bank k) (\<lambda>_.
       let cfg = (case new_admin of None \<Rightarrow> cfg | Some admin \<Rightarrow> cfg\<lparr>cfg_admin := admin\<rparr>);
           cfg = (case set_flash_authority of None \<Rightarrow> cfg | Some x \<Rightarrow> cfg\<lparr>flash_authority := x\<rparr>);
           cfg = (case kestrel of None \<Rightarrow> cfg
                  | Some k \<Rightarrow> cfg\<lparr>kestrel_program := k_program k, sol_star_mint := k_sol_star_mint k,
                      sol_buffer_bps := buffer_bps k, sol_star_haircut_bps := haircut_bps k,
                      sol_park_band_bps := park_band_bps k\<rparr>) in
       Ok cfg))"

subsection \<open>The SOL book\<close>

definition sol_total_lamports :: "depository \<Rightarrow> int" where
  "sol_total_lamports bank = sat_u64 (sol_lamports bank + sol_star_cost_lamports bank)"

definition required_buffer :: "depository \<Rightarrow> int \<Rightarrow> int" where
  "required_buffer bank buf_bps =
     as_u64 (sat_u128 (sol_total_lamports bank * max buf_bps MIN_BUFFER_BPS) div 10000)"

definition park_band :: "depository \<Rightarrow> int \<Rightarrow> int" where
  "park_band bank band_bps = as_u64 (sat_u128 (sol_total_lamports bank * band_bps) div 10000)"

definition credited_lamports :: "depository \<Rightarrow> int" where
  "credited_lamports bank = sat_u64 (sol_lamports bank + sol_star_credited_lamports bank)"

definition adjust_sol_credit :: "depository \<Rightarrow> int \<Rightarrow> depository option" where
  "adjust_sol_credit bank usd =
     (if usd \<ge> 0 then
        let v = as_u64 usd in
        Some (bank\<lparr>sol_usd_contrib := sat_u64 (sol_usd_contrib bank + v),
                   yield_pool := sat_u64 (yield_pool bank + v)\<rparr>)
      else do {
        let v = \<bar>usd\<bar>;
        let from_yield = min v (yield_pool bank);
        y \<leftarrow> u64 (yield_pool bank - from_yield);
        Some (bank\<lparr>sol_usd_contrib := sat_u64 (sol_usd_contrib bank - v), yield_pool := y\<rparr>)
      })"

definition collar_adjusted_usd :: "int \<Rightarrow> int \<Rightarrow> actuary \<Rightarrow> int option" where
  "collar_adjusted_usd lamports price a = do {
     c \<leftarrow> collar_bps 100 a;
     let raw = min (sat_u128 (lamports * price) div 1000000000) U64_MAX;
     Some (sat_u64 (raw - sat_u64 (raw * as_u64 c) div 10000))
   }"

text \<open>The accounts of the Kestrel legs, checked against the configuration.\<close>

record sol_star_legs =
  leg_pool :: pubkey
  leg_pool_wsol :: account_info
  leg_pool_sol_star :: account_info
  leg_token_program :: pubkey

definition from_remaining :: "env \<Rightarrow> program_config \<Rightarrow> pubkey \<Rightarrow> pubkey \<Rightarrow> account_info list \<Rightarrow> sol_star_legs option result" where
  "from_remaining e cfg sol_pool token_program rest =
     (if length rest < SOL_STAR_LEGS then Ok None
      else
        let wsol_mint = ai_key (rest ! 2); star_mint = ai_key (rest ! 3);
            star_program = ai_key (rest ! 7) in
        require (ai_key (rest ! 6) = kestrel_program cfg) InvalidSettlementProgram (
        require (star_mint = sol_star_mint cfg) InvalidMint (
        require (wsol_mint = WSOL_MINT) InvalidMint (
        require (ai_key (rest ! 8) = associated_token_id e) InvalidParameters (
        require (star_program = token_id e \<or> star_program = token_2022_id e) InvalidParameters (
        require (ai_key (rest ! 4) = ata_address e sol_pool wsol_mint token_program) InvalidParameters (
        require (ai_key (rest ! 5) = ata_address e sol_pool star_mint star_program) InvalidParameters (
          Ok (Some \<lparr>leg_pool = sol_pool, leg_pool_wsol = rest ! 4, leg_pool_sol_star = rest ! 5,
                    leg_token_program = token_program\<rparr>)))))))))"

definition token_amount :: "account_info \<Rightarrow> int result" where
  "token_amount acct = require (length (ai_data acct) \<ge> 72) InvalidParameters (Ok (le_value (slice 64 8 (ai_data acct))))"

text \<open>\<open>ensure_atas\<close>: an empty account is created, and then holds nothing.\<close>

fun ensure_atas :: "env \<Rightarrow> account_info list \<Rightarrow> call list option" where
  "ensure_atas e [] = Some []"
| "ensure_atas e (ata # atas) =
     (if ai_data ata \<noteq> [] then ensure_atas e atas
      else do {
        _ \<leftarrow> invoke e (Create_ata (ai_key ata));
        cs \<leftarrow> ensure_atas e atas;
        Some (Create_ata (ai_key ata) # cs)
      })"

definition ensured_amount :: "account_info \<Rightarrow> int result" where
  "ensured_amount ata = (if ai_data ata = [] then Ok 0 else token_amount ata)"

definition spl_program :: "env \<Rightarrow> pubkey \<Rightarrow> bool" where
  "spl_program e p \<longleftrightarrow> p = token_id e \<or> p = token_2022_id e"

definition park :: "env \<Rightarrow> sol_star_legs \<Rightarrow> int \<Rightarrow> (int \<times> call list) result" where
  "park e legs lamports = do {
     cs \<leftarrow> ensure_atas e [leg_pool_wsol legs, leg_pool_sol_star legs];
     let t = System_transfer (leg_pool legs) (ai_key (leg_pool_wsol legs)) lamports;
     _ \<leftarrow> invoke e t;
     require (spl_program e (leg_token_program legs)) InvalidParameters (do {
       let s = Sync_native (ai_key (leg_pool_wsol legs));
       _ \<leftarrow> invoke e s;
       attempt (ensured_amount (leg_pool_sol_star legs)) (\<lambda>held. do {
         _ \<leftarrow> invoke e (Kestrel_mint lamports);
         let (star, wsol) = kestrel_minted e lamports;
         let shares_out = sat_u64 (star - held);
         require (shares_out > 0) InsufficientFunds (
         require (wsol = 0) InvalidAmount (Ok (shares_out, cs @ [t, s, Kestrel_mint lamports])))
       })
     })
   }"

definition unpark :: "env \<Rightarrow> sol_star_legs \<Rightarrow> int \<Rightarrow> (int \<times> call list) result" where
  "unpark e legs shares = do {
     cs \<leftarrow> ensure_atas e [leg_pool_wsol legs, leg_pool_sol_star legs];
     attempt (ensured_amount (leg_pool_wsol legs)) (\<lambda>wsol_before. do {
       _ \<leftarrow> invoke e (Kestrel_burn shares);
       let lamports_out = sat_u64 (kestrel_burned e shares - wsol_before);
       require (lamports_out > 0) InsufficientFunds (
       require (spl_program e (leg_token_program legs)) InvalidParameters (do {
         let c = Close_account (ai_key (leg_pool_wsol legs)) (leg_pool legs);
         _ \<leftarrow> invoke e c;
         Ok (lamports_out, cs @ [Kestrel_burn shares, c])
       }))
     })
   }"

definition park_idle_sol :: "env \<Rightarrow> depository \<Rightarrow> program_config \<Rightarrow> sol_star_legs \<Rightarrow> int \<Rightarrow> actuary \<Rightarrow> int \<Rightarrow>
    (depository \<times> int \<times> call list) result" where
  "park_idle_sol e bank cfg legs sol_price a now =
     require (kestrel_program cfg \<noteq> default_key) Unauthorized (
       let flr = required_buffer bank (sol_buffer_bps cfg);
           band = park_band bank (sol_park_band_bps cfg) in
       if sol_lamports bank < sat_u64 (flr + band) then Ok (bank, 0, [])
       else
         let lamports = sat_u64 (sol_lamports bank - flr) in
         if lamports < band then Ok (bank, 0, [])
         else attempt (park e legs lamports) (\<lambda>(shares_out, cs). do {
           let haircut = as_u64 (sat_u128 (lamports * sol_star_haircut_bps cfg) div 10000);
           let bank = bank\<lparr>sol_lamports := sat_u64 (sol_lamports bank - lamports),
                  sol_star_shares := sat_u64 (sol_star_shares bank + shares_out),
                  sol_star_cost_lamports := sat_u64 (sol_star_cost_lamports bank + lamports),
                  sol_star_credited_lamports :=
                    sat_u64 (sol_star_credited_lamports bank + sat_u64 (lamports - haircut)),
                  sol_star_parked_at := now\<rparr>;
           usd \<leftarrow> collar_adjusted_usd haircut sol_price a;
           bank \<leftarrow> adjust_sol_credit bank (- min usd I64_MAX);
           Ok (bank, lamports, cs)
         }))"

definition unpark_shares :: "depository \<Rightarrow> int \<Rightarrow> int option" where
  "unpark_shares bank deficit = do {
     m \<leftarrow> u128 (sat_u128 (deficit * sol_star_shares bank) + sol_star_cost_lamports bank);
     n \<leftarrow> u128 (m - 1);
     q \<leftarrow> div_u n (sol_star_cost_lamports bank);
     Some (min q (sol_star_shares bank))
   }"

definition star_pro_rata :: "depository \<Rightarrow> int \<Rightarrow> int \<Rightarrow> int" where
  "star_pro_rata bank shares v =
     (if sol_star_shares bank = 0 then 0 else as_u64 (sat_u128 (v * shares) div sol_star_shares bank))"

text \<open>The balances after a tranche was redeemed for \<open>lamports_out\<close>.\<close>

definition book_unpark :: "depository \<Rightarrow> int \<Rightarrow> int \<Rightarrow> int \<Rightarrow> int \<Rightarrow> depository" where
  "book_unpark bank shares cost_released credit_released lamports_out =
     bank\<lparr>sol_star_shares := sat_u64 (sol_star_shares bank - shares),
          sol_star_cost_lamports := sat_u64 (sol_star_cost_lamports bank - cost_released),
          sol_star_credited_lamports := sat_u64 (sol_star_credited_lamports bank - credit_released),
          sol_lamports := sat_u64 (sol_lamports bank + lamports_out)\<rparr>"

definition credit_sol_yield :: "depository \<Rightarrow> int \<Rightarrow> depository option" where
  "credit_sol_yield bank signed = do {
     (bank, booked) \<leftarrow> accrue_sol_yield bank signed;
     if booked then Some bank else adjust_sol_credit bank signed
   }"

definition unpark_for_withdrawal :: "env \<Rightarrow> depository \<Rightarrow> program_config \<Rightarrow> sol_star_legs \<Rightarrow> int \<Rightarrow> int \<Rightarrow>
    actuary \<Rightarrow> int \<Rightarrow> (depository \<times> int \<times> call list) result" where
  "unpark_for_withdrawal e bank cfg legs wanted sol_price a max_haircut_bps =
     (let deficit = sat_u64 (wanted - sol_lamports bank) in
      if deficit = 0 then Ok (bank, 0, [])
      else
        require (max_haircut_bps > 0) UnparkConsentRequired (
        require (sol_star_shares bank > 0 \<and> sol_star_cost_lamports bank > 0) InsufficientFunds (do {
          shares \<leftarrow> unpark_shares bank deficit;
          let cost_released = star_pro_rata bank shares (sol_star_cost_lamports bank);
          let credit_released = star_pro_rata bank shares (sol_star_credited_lamports bank);
          attempt (unpark e legs shares) (\<lambda>(lamports_out, cs).
            let bound = min (sol_star_haircut_bps cfg) max_haircut_bps;
                tolerated = sat_u64 (cost_released - as_u64 (sat_u128 (cost_released * bound) div 10000)) in
            require (lamports_out \<ge> tolerated) InsufficientFunds (do {
              let bank = book_unpark bank shares cost_released credit_released lamports_out;
              realised \<leftarrow> collar_adjusted_usd lamports_out sol_price a;
              credited \<leftarrow> collar_adjusted_usd credit_released sol_price a;
              bank \<leftarrow> credit_sol_yield bank (sat_i64 (min realised I64_MAX - min credited I64_MAX));
              Ok (bank, sat_u64 (cost_released - lamports_out), cs)
            }))
        })))"

subsection \<open>Withdrawing SOL and refreshing its mark (clutch.rs)\<close>

definition first_account :: "account_info list \<Rightarrow> account_info option" where
  "first_account accts = (case accts of [] \<Rightarrow> None | a # _ \<Rightarrow> Some a)"

text \<open>The pledge of \<open>lamports\<close> leaves the depositor and the pool in proportion.\<close>

definition release_sol :: "depository \<Rightarrow> depositor \<Rightarrow> int \<Rightarrow> depository \<times> depositor" where
  "release_sol bank d lamports =
     (let locked = (if deposited_lamports d = 0 then 0
                    else as_u64 (sat_u128 (lamports * sol_pledged_usd d) div deposited_lamports d)) in
      (bank\<lparr>sol_usd_contrib := sat_u64 (sol_usd_contrib bank - locked),
            sol_lamports := sat_u64 (sol_lamports bank - lamports)\<rparr>,
       d\<lparr>sol_pledged_usd := sat_u64 (sol_pledged_usd d - locked),
         deposited_lamports := sat_u64 (deposited_lamports d - lamports)\<rparr>))"

definition withdraw_native :: "env \<Rightarrow> depository \<Rightarrow> depositor \<Rightarrow> ticker_risk option \<Rightarrow> program_config \<Rightarrow> pubkey \<Rightarrow> int \<Rightarrow>
    pubkey \<Rightarrow> pubkey \<Rightarrow> account_info list \<Rightarrow> int \<Rightarrow> int \<Rightarrow> (depository \<times> depositor \<times> ticker_risk \<times> call list) result" where
  "withdraw_native e bank d risk cfg sol_pool pool_lamports token_program signer accts lamports max_haircut_bps =
     (let lamports = (if lamports = 0 then deposited_lamports d else lamports) in
      require (lamports > 0) InvalidAmount (
      require (lamports \<le> deposited_lamports d) InsufficientFunds (
      attempt (fetch_price e ''SOL'' (first_account accts)) (\<lambda>sol_price.
      attempt (ok_or risk UnknownSymbol) (\<lambda>risk. do {
        util \<leftarrow> utilisation_bps bank;
        a \<leftarrow> accrue_premium_index (risk_actuary risk) (unix_timestamp e) util;
        a \<leftarrow> update_price a (as_i64 sol_price) (as_i64 (clock_slot e));
        attempt (from_remaining e cfg sol_pool token_program (drop 1 accts)) (\<lambda>legs.
        attempt (case legs of
                   Some l \<Rightarrow> unpark_for_withdrawal e bank cfg l lamports sol_price a max_haircut_bps
                 | None \<Rightarrow> require (lamports \<le> sol_lamports bank) InsufficientFunds (Ok (bank, 0, [])))
          (\<lambda>(bank, forfeit, cs).
            let (d, bank, _) = settle_sol_yield d bank;
                spendable = sat_u64 (pool_lamports - rent_floor e);
                lamports = min lamports (sat_u64 (spendable + forfeit)) in
            require (lamports > 0) InsufficientFunds (do {
              let (bank, d) = release_sol bank d lamports;
              let c = System_transfer sol_pool signer (sat_u64 (lamports - forfeit));
              _ \<leftarrow> invoke e c;
              Ok (bank, d, risk\<lparr>risk_actuary := a\<rparr>, cs @ [c])
            })))
      })))))"

definition handle_refresh_sol_collateral :: "env \<Rightarrow> depository \<Rightarrow> depositor \<Rightarrow> ticker_risk \<Rightarrow> pubkey \<Rightarrow> account_info list \<Rightarrow>
    (depository \<times> depositor \<times> ticker_risk) result" where
  "handle_refresh_sol_collateral e bank d risk depositor_key accts =
     require (owner d = depositor_key) InvalidUser (
     attempt (fetch_price e ''SOL'' (first_account accts)) (\<lambda>sol_price. do {
       a \<leftarrow> update_price (risk_actuary risk) (as_i64 sol_price) (as_i64 (clock_slot e));
       let risk = risk\<lparr>risk_actuary := a\<rparr>;
       if deposited_lamports d = 0 \<or> sol_pledged_usd d = 0 then Ok (bank, d, risk)
       else do {
         current_floor \<leftarrow> collar_adjusted_usd (deposited_lamports d) sol_price a;
         if current_floor \<ge> sol_pledged_usd d then Ok (bank, d, risk)
         else
           let reduction = sat_u64 (sol_pledged_usd d - current_floor) in
           Ok (bank\<lparr>sol_usd_contrib := sat_u64 (sol_usd_contrib bank - reduction)\<rparr>,
               d\<lparr>sol_pledged_usd := current_floor\<rparr>, risk)
       }
     }))"

subsection \<open>Flash loans (entra.rs, clutch.rs)\<close>

type_synonym instruction = "pubkey \<times> int list"

text \<open>The instructions after the borrow: a repayment must come, and no withdrawal before it.\<close>

fun find_repay :: "pubkey \<Rightarrow> instruction list \<Rightarrow> bool result" where
  "find_repay prog [] = Ok False"
| "find_repay prog ((p, data) # ixs) =
     (if p = prog \<and> length data \<ge> 8 then
        if take 8 data = FLASH_REPAY_DISC then Ok True
        else require (take 8 data \<noteq> WITHDRAW_DISC) FlashLoanActive (find_repay prog ixs)
      else find_repay prog ixs)"

definition borrow_tokens :: "env \<Rightarrow> program_config \<Rightarrow> flash_loan \<Rightarrow> account_info list \<Rightarrow> int \<Rightarrow> int \<Rightarrow>
    (flash_loan \<times> call list) result" where
  "borrow_tokens e cfg flash ra token_amount_wanted vault_bump =
     require (length ra \<ge> 4) InvalidParameters (
       let vault = ra ! 0; mint = ra ! 1; user = ra ! 2; prog = ai_key (ra ! 3) in
       attempt (ok_or (vault_with_bump e (ai_key mint) vault_bump) InvalidParameters) (\<lambda>expected.
       require (ai_key vault = expected) InvalidSettlementProgram (
       require (is_approved_mint (ai_key mint) (registered_mints cfg)) InvalidMint (
       require (spl_program e prog) InvalidParameters (
       attempt (token_amount vault) (\<lambda>vault_amount.
       require (token_amount_wanted \<le> vault_amount) InsufficientFunds (
       require (length (ai_data mint) \<ge> 45) InvalidParameters (do {
         let dec = ai_data mint ! 44;
         let c = Transfer_checked (ai_key vault) (ai_key mint) (ai_key user) token_amount_wanted dec;
         _ \<leftarrow> invoke e c;
         Ok (flash\<lparr>flash_token_mint := ai_key mint, flash_token_amount := token_amount_wanted\<rparr>, [c])
       }))))))))"

definition handle_flash_borrow :: "env \<Rightarrow> program_config \<Rightarrow> depository \<Rightarrow> flash_loan \<Rightarrow> pubkey \<Rightarrow> pubkey \<Rightarrow> pubkey \<Rightarrow>
    instruction list \<Rightarrow> account_info list \<Rightarrow> int \<Rightarrow> int \<Rightarrow> int \<Rightarrow> (depository \<times> flash_loan \<times> call list) result" where
  "handle_flash_borrow e cfg bank flash authority borrower sol_pool later_ixs ra lamports tokens vault_bump =
     require (authority = flash_authority cfg) InvalidSettlementProgram (
     require (flash_lamports flash = 0 \<and> flash_token_mint flash = default_key \<and> flash_token_amount flash = 0)
       FlashLoanActive (
     require (lamports > 0 \<or> tokens > 0) InvalidAmount (
     require (\<not> (lamports > 0 \<and> tokens > 0)) InvalidAmount (
     attempt (find_repay (program_id e) later_ixs) (\<lambda>found.
     require found FlashRepayMissing (
       if lamports > 0 then
         require (lamports \<le> sol_lamports bank) InsufficientFunds (do {
           let c = System_transfer sol_pool borrower lamports;
           _ \<leftarrow> invoke e c;
           Ok (bank\<lparr>sol_usd_contrib := 0, sol_lamports := sat_u64 (sol_lamports bank - lamports)\<rparr>,
               flash\<lparr>flash_lamports := lamports\<rparr>, [c])
         })
       else attempt (borrow_tokens e cfg flash ra tokens vault_bump) (\<lambda>(flash, cs). Ok (bank, flash, cs))))))))"

definition repay_tokens :: "env \<Rightarrow> flash_loan \<Rightarrow> account_info list \<Rightarrow> int \<Rightarrow> int \<Rightarrow> (flash_loan \<times> call list) result" where
  "repay_tokens e flash ra tip vault_bump =
     (let due = sat_u64 (flash_token_amount flash + tip) in
      require (length ra \<ge> 4) InvalidParameters (
        let vault = ra ! 0; mint = ra ! 1; user = ra ! 2; prog = ai_key (ra ! 3) in
        attempt (ok_or (vault_with_bump e (ai_key mint) vault_bump) InvalidParameters) (\<lambda>expected.
        require (ai_key vault = expected) InvalidSettlementProgram (
        require (ai_key mint = flash_token_mint flash) InvalidMint (
        require (spl_program e prog) InvalidParameters (
        require (length (ai_data mint) \<ge> 45) InvalidParameters (do {
          let c = Transfer_checked (ai_key user) (ai_key mint) (ai_key vault) due (ai_data mint ! 44);
          _ \<leftarrow> invoke e c;
          Ok (flash\<lparr>flash_token_mint := default_key, flash_token_amount := 0\<rparr>, [c])
        })))))))"

definition credit_tip :: "depository \<Rightarrow> actuary \<Rightarrow> int \<Rightarrow> int \<Rightarrow> depository option" where
  "credit_tip bank a tip_lamports sol_price =
     (if tip_lamports > 0 then do {
        u \<leftarrow> collar_adjusted_usd tip_lamports sol_price a;
        let tip_usd = min u I64_MAX;
        if tip_usd > 0 then credit_sol_yield bank tip_usd else Some bank
      }
      else Some bank)"

definition handle_flash_repay :: "env \<Rightarrow> depository \<Rightarrow> flash_loan \<Rightarrow> ticker_risk \<Rightarrow> pubkey \<Rightarrow> pubkey \<Rightarrow> account_info list \<Rightarrow>
    int \<Rightarrow> int \<Rightarrow> int \<Rightarrow> (depository \<times> flash_loan \<times> ticker_risk \<times> call list) result" where
  "handle_flash_repay e bank flash risk repayer sol_pool ra tip_lamports tip_tokens vault_bump =
     (if flash_token_amount flash > 0 then
        attempt (repay_tokens e flash ra tip_tokens vault_bump) (\<lambda>(flash, cs). Ok (bank, flash, risk, cs))
      else
        require (flash_lamports flash > 0) NoActiveFlashLoan (
          let principal = flash_lamports flash;
              min_tip = sat_u128 (principal * FLASH_TIP_BPS) div 10000 in
          require (tip_lamports \<ge> min_tip) InsufficientFunds (do {
            let paid = sat_u64 (principal + tip_lamports);
            let c = System_transfer repayer sol_pool paid;
            _ \<leftarrow> invoke e c;
            let bank = bank\<lparr>sol_lamports := sat_u64 (sol_lamports bank + paid)\<rparr>;
            attempt (fetch_price e ''SOL'' (first_account ra)) (\<lambda>sol_price. do {
              a \<leftarrow> update_price (risk_actuary risk) (as_i64 sol_price) (as_i64 (clock_slot e));
              restored \<leftarrow> collar_adjusted_usd (credited_lamports bank) sol_price a;
              bank \<leftarrow> credit_tip (bank\<lparr>sol_usd_contrib := restored\<rparr>) a tip_lamports sol_price;
              Ok (bank, flash\<lparr>flash_lamports := 0\<rparr>, risk\<lparr>risk_actuary := a\<rparr>, [c])
            })
          })))"

subsection \<open>The configuration stays within its bounds\<close>

definition cfg_wf :: "program_config \<Rightarrow> bool" where
  "cfg_wf cfg \<longleftrightarrow> MIN_BUFFER_BPS \<le> sol_buffer_bps cfg \<and> sol_buffer_bps cfg \<le> 10000 \<and>
     0 \<le> sol_park_band_bps cfg \<and> sol_park_band_bps cfg \<le> 10000 - sol_buffer_bps cfg \<and>
     0 \<le> sol_star_haircut_bps cfg \<and> sol_star_haircut_bps cfg \<le> 10000 \<and>
     (kestrel_program cfg \<noteq> default_key \<longrightarrow> sol_star_mint cfg \<noteq> default_key)"

definition kestrel_u16 :: "kestrel_cfg \<Rightarrow> bool" where
  "kestrel_u16 k \<longleftrightarrow> is_u16 (buffer_bps k) \<and> is_u16 (haircut_bps k) \<and> is_u16 (park_band_bps k)"

text \<open>The configurations the two instructions can produce.\<close>

inductive config_reach :: "program_config \<Rightarrow> bool" where
  created: "config_reach (init_config admin mint bump)"
| updated_by: "config_reach cfg \<Longrightarrow> (\<forall>k. kestrel = Some k \<longrightarrow> kestrel_u16 k) \<Longrightarrow>
    update_config cfg bank signer adm auth kestrel = Ok cfg' \<Longrightarrow> config_reach cfg'"

inductive_cases config_reachE: "config_reach cfg"

lemma check_kestrel_Ok:
  assumes "check_kestrel bank k = Ok ()"
  shows "MIN_BUFFER_BPS \<le> buffer_bps k" "buffer_bps k \<le> 10000" "haircut_bps k \<le> 10000"
    "park_band_bps k \<le> 10000 - buffer_bps k" "k_program k \<noteq> default_key \<longrightarrow> k_sol_star_mint k \<noteq> default_key"
    "k_program k = default_key \<longrightarrow> (\<exists>b. bank = Some b \<and> sol_star_shares b = 0)"
  using assms by (auto simp: check_kestrel_def require_def elim!: attempt_OkE split: if_splits)

lemma update_config_cases:
  assumes "update_config cfg bank signer adm auth kestrel = Ok cfg'"
  shows "signer = cfg_admin cfg"
    "kestrel = None \<Longrightarrow> \<exists>x y. cfg' = cfg\<lparr>cfg_admin := x, flash_authority := y\<rparr>"
    "kestrel = Some k \<Longrightarrow> check_kestrel bank k = Ok () \<and> (\<exists>x y. cfg' = cfg\<lparr>cfg_admin := x, flash_authority := y,
      kestrel_program := k_program k, sol_star_mint := k_sol_star_mint k, sol_buffer_bps := buffer_bps k,
      sol_star_haircut_bps := haircut_bps k, sol_park_band_bps := park_band_bps k\<rparr>)"
proof -
  have same: "\<exists>x y. (case auth of None \<Rightarrow> (case adm of None \<Rightarrow> c | Some a \<Rightarrow> c\<lparr>cfg_admin := a\<rparr>)
       | Some z \<Rightarrow> (case adm of None \<Rightarrow> c | Some a \<Rightarrow> c\<lparr>cfg_admin := a\<rparr>)\<lparr>flash_authority := z\<rparr>)
     = c\<lparr>cfg_admin := x, flash_authority := y\<rparr>" for c :: program_config
    by (rule exI[of _ "case adm of None \<Rightarrow> cfg_admin c | Some a \<Rightarrow> a"],
        rule exI[of _ "case auth of None \<Rightarrow> flash_authority c | Some a \<Rightarrow> a"]) (simp split: option.split)
  show "signer = cfg_admin cfg" using assms by (auto simp: update_config_def require_def split: if_splits)
  show "\<exists>x y. cfg' = cfg\<lparr>cfg_admin := x, flash_authority := y\<rparr>" if "kestrel = None"
  proof -
    from assms that have "cfg' = (case auth of None \<Rightarrow> (case adm of None \<Rightarrow> cfg | Some a \<Rightarrow> cfg\<lparr>cfg_admin := a\<rparr>)
         | Some z \<Rightarrow> (case adm of None \<Rightarrow> cfg | Some a \<Rightarrow> cfg\<lparr>cfg_admin := a\<rparr>)\<lparr>flash_authority := z\<rparr>)"
      by (auto simp: update_config_def require_def Let_def split: if_splits)
    with same[of cfg] show ?thesis by (simp only:)
  qed
  show "check_kestrel bank k = Ok () \<and> (\<exists>x y. cfg' = cfg\<lparr>cfg_admin := x, flash_authority := y,
      kestrel_program := k_program k, sol_star_mint := k_sol_star_mint k, sol_buffer_bps := buffer_bps k,
      sol_star_haircut_bps := haircut_bps k, sol_park_band_bps := park_band_bps k\<rparr>)" if "kestrel = Some k"
  proof -
    from assms that have c: "check_kestrel bank k = Ok ()"
      by (auto simp: update_config_def require_def elim!: attempt_OkE split: if_splits)
    with assms that have "cfg' = (case auth of None \<Rightarrow> (case adm of None \<Rightarrow> cfg | Some a \<Rightarrow> cfg\<lparr>cfg_admin := a\<rparr>)
         | Some z \<Rightarrow> (case adm of None \<Rightarrow> cfg | Some a \<Rightarrow> cfg\<lparr>cfg_admin := a\<rparr>)\<lparr>flash_authority := z\<rparr>)\<lparr>kestrel_program := k_program k,
      sol_star_mint := k_sol_star_mint k, sol_buffer_bps := buffer_bps k,
      sol_star_haircut_bps := haircut_bps k, sol_park_band_bps := park_band_bps k\<rparr>"
      by (auto simp: update_config_def require_def Let_def split: if_splits)
    with same[of cfg] c show ?thesis by fastforce
  qed
qed

lemma config_reach_wf: "config_reach cfg \<Longrightarrow> cfg_wf cfg"
proof (induction rule: config_reach.induct)
  case (created admin mint bump)
  then show ?case by (simp add: cfg_wf_def init_config_def)
next
  case (updated_by cfg kestrel bank signer adm auth cfg')
  show ?case
  proof (cases kestrel)
    case None
    then show ?thesis using update_config_cases(2)[OF updated_by.hyps(3)] updated_by.IH by (auto simp: cfg_wf_def)
  next
    case (Some k)
    then have "kestrel_u16 k" using updated_by.hyps(2) by simp
    then show ?thesis using update_config_cases(3)[OF updated_by.hyps(3) Some]
      by (auto simp: cfg_wf_def kestrel_u16_def is_u16_def dest: check_kestrel_Ok)
  qed
qed

subsection \<open>Parking keeps the buffer\<close>

lemma share_bps_id:
  assumes "0 \<le> x" "x \<le> U64_MAX" "0 \<le> b" "b \<le> (10000 :: int)"
  shows "as_u64 (sat_u128 (x * b) div 10000) = x * b div 10000" "0 \<le> x * b div 10000" "x * b div 10000 \<le> x"
proof -
  have m: "0 \<le> x * b" "x * b \<le> U64_MAX * 10000" using mult_bounds[OF assms] by auto
  show l: "x * b div 10000 \<le> x" by (rule div_le_bound) (use assms mult_left_mono[OF assms(4,1)] in auto)
  show n: "0 \<le> x * b div 10000" using m by (simp add: div_nonneg)
  have "sat_u128 (x * b) = x * b" using m by (intro sat_u128_id) (simp add: is_u128_def)
  then show "as_u64 (sat_u128 (x * b) div 10000) = x * b div 10000" using l n assms(2) by (simp add: as_u64_id is_u64_def)
qed

lemma adjust_sol_credit_frame:
  "part (adjust_sol_credit b x) (\<lambda>b'. sol_lamports b' = sol_lamports b \<and> sol_star_cost_lamports b' = sol_star_cost_lamports b)"
  unfolding adjust_sol_credit_def by (simp only: part_simps) (simp add: part_any)

lemma park_idle_sol_keeps_buffer:
  assumes "bank_wf bank" "cfg_wf cfg" "sol_lamports bank + sol_star_cost_lamports bank \<le> U64_MAX"
  shows "commits (park_idle_sol e bank cfg legs price a now) (\<lambda>(bank', parked, _).
    sol_lamports bank' + sol_star_cost_lamports bank' = sol_lamports bank + sol_star_cost_lamports bank \<and>
    sol_lamports bank' = sol_lamports bank - parked \<and> 0 \<le> parked \<and>
    (0 < parked \<longrightarrow> required_buffer bank (sol_buffer_bps cfg) \<le> sol_lamports bank'))"
proof -
  have b: "0 \<le> sol_lamports bank" "0 \<le> sol_star_cost_lamports bank" "sol_lamports bank \<le> U64_MAX"
    using assms(1) by (auto simp: bank_wf_def is_u64_def)
  have tot: "sol_total_lamports bank = sol_lamports bank + sol_star_cost_lamports bank"
    using assms(3) b by (simp add: sol_total_lamports_def sat_u64_id is_u64_def)
  define flr where "flr = required_buffer bank (sol_buffer_bps cfg)"
  define band where "band = park_band bank (sol_park_band_bps cfg)"
  have c: "2000 \<le> sol_buffer_bps cfg" "sol_buffer_bps cfg \<le> 10000" "0 \<le> sol_park_band_bps cfg" "sol_park_band_bps cfg \<le> 10000"
    using assms(2) by (auto simp: cfg_wf_def)
  have t: "0 \<le> sol_total_lamports bank" "sol_total_lamports bank \<le> U64_MAX" using b assms(3) by (simp_all add: tot)
  have c0: "0 \<le> sol_buffer_bps cfg" using c by linarith
  have f: "0 \<le> flr" "0 \<le> band" "flr \<le> sol_total_lamports bank" "band \<le> sol_total_lamports bank"
    unfolding flr_def band_def required_buffer_def park_band_def max_absorb1[OF c(1)]
      share_bps_id(1)[OF t c0 c(2)] share_bps_id(1)[OF t c(3,4)]
    by (rule share_bps_id(2)[OF t c0 c(2)] share_bps_id(2)[OF t c(3,4)] share_bps_id(3)[OF t c0 c(2)] share_bps_id(3)[OF t c(3,4)])+
  define P where "P = (\<lambda>(bank' :: depository, parked, _ :: call list).
    sol_lamports bank' + sol_star_cost_lamports bank' = sol_lamports bank + sol_star_cost_lamports bank \<and>
    sol_lamports bank' = sol_lamports bank - parked \<and> 0 \<le> parked \<and> (0 < parked \<longrightarrow> flr \<le> sol_lamports bank'))"
  have none: "P (bank, 0, [])" by (simp add: P_def)
  have "commits (park_idle_sol e bank cfg legs price a now) P"
  proof (cases "sol_lamports bank < sat_u64 (flr + band) \<or> sat_u64 (sol_lamports bank - flr) < band")
    case True
    then show ?thesis using none
      unfolding park_idle_sol_def Let_def flr_def[symmetric] band_def[symmetric] by (auto simp: commits_require)
  next
    case False
    have "flr \<le> sat_u64 (flr + band)" using f assms(3) unfolding tot sat_u64_def clamp_def by linarith
    then have ge: "flr \<le> sol_lamports bank" using False by linarith
    define l where "l = sol_lamports bank - flr"
    have l: "sat_u64 (sol_lamports bank - flr) = l" "0 \<le> l" "l \<le> sol_lamports bank"
      using ge f b by (auto simp: l_def sat_u64_id is_u64_def)
    have s: "sat_u64 (sol_lamports bank - l) = flr" "sat_u64 (sol_star_cost_lamports bank + l) = sol_star_cost_lamports bank + l"
      using l f b ge assms(3) by (auto simp: l_def sat_u64_id is_u64_def)
    have booked: "commits (do {
             usd \<leftarrow> collar_adjusted_usd hc price a;
             bank \<leftarrow> adjust_sol_credit (bank\<lparr>sol_lamports := flr, sol_star_shares := x,
                  sol_star_cost_lamports := sol_star_cost_lamports bank + l, sol_star_credited_lamports := y,
                  sol_star_parked_at := now\<rparr>) (- min usd I64_MAX);
             Ok (bank, l, cs) }) P" for hc x y cs
      by (simp only: commit_rules) (intro part_any part_mono[OF adjust_sol_credit_frame], use l in \<open>auto simp: l_def P_def\<close>)
    show ?thesis
      unfolding park_idle_sol_def Let_def flr_def[symmetric] band_def[symmetric] l s
      using False by (simp add: commits_require commits_attempt l commits_def[of "park e legs l"] case_prod_beta booked)
  qed
  then show ?thesis by (simp add: P_def flr_def)
qed

lemma unpark_shares_cover:
  assumes "0 < sol_star_cost_lamports bank" "0 \<le> deficit" "deficit \<le> U64_MAX" "0 \<le> sol_star_shares bank" "sol_star_shares bank \<le> U64_MAX"
  shows "part (unpark_shares bank deficit) (\<lambda>s. 0 \<le> s \<and> s \<le> sol_star_shares bank \<and>
    (s = sol_star_shares bank \<or> deficit * sol_star_shares bank \<le> s * sol_star_cost_lamports bank))"
proof -
  define c where "c = sol_star_cost_lamports bank"
  define x where "x = deficit * sol_star_shares bank"
  have "x \<le> U64_MAX * U64_MAX" "0 \<le> x" using mult_bounds[OF assms(2-5)] by (auto simp: x_def)
  then have x: "sat_u128 x = x" "0 \<le> x" by (auto intro!: sat_u128_id simp: is_u128_def)
  have "(x + c - 1) mod c < c" using assms(1) by (simp add: c_def)
  moreover have "(x + c - 1) div c * c = x + c - 1 - (x + c - 1) mod c" by (simp add: minus_mod_eq_div_mult)
  ultimately have "x \<le> (x + c - 1) div c * c" by linarith
  moreover have "0 \<le> (x + c - 1) div c" using x assms(1) by (simp add: c_def div_nonneg)
  ultimately show ?thesis
    unfolding unpark_shares_def x_def[symmetric] c_def[symmetric] x
    using assms by (simp only: part_simps part_exact) (auto simp: part_def div_u_def min_def c_def)
qed

subsection \<open>A borrow is repaid in the same transaction\<close>

definition repays :: "pubkey \<Rightarrow> instruction \<Rightarrow> bool" where
  "repays prog ix \<longleftrightarrow> fst ix = prog \<and> take 8 (snd ix) = FLASH_REPAY_DISC"

definition withdraws :: "pubkey \<Rightarrow> instruction \<Rightarrow> bool" where
  "withdraws prog ix \<longleftrightarrow> fst ix = prog \<and> take 8 (snd ix) = WITHDRAW_DISC"

lemma disc_length: "take 8 data = FLASH_REPAY_DISC \<Longrightarrow> 8 \<le> length data" "take 8 data = WITHDRAW_DISC \<Longrightarrow> 8 \<le> length data"
  by (drule arg_cong[of _ _ length], simp add: FLASH_REPAY_DISC_def WITHDRAW_DISC_def)+

lemma find_repay_True:
  "find_repay prog ixs = Ok True \<longleftrightarrow> (\<exists>pre ix post. ixs = pre @ ix # post \<and> repays prog ix \<and>
     (\<forall>j \<in> set pre. \<not> repays prog j \<and> \<not> withdraws prog j))"
proof (induction ixs)
  case (Cons ix ixs)
  obtain p data where ix: "ix = (p, data)" by (cases ix)
  have split: "(\<exists>pre jx post. ix # ixs = pre @ jx # post \<and> repays prog jx \<and> (\<forall>j \<in> set pre. \<not> repays prog j \<and> \<not> withdraws prog j)) \<longleftrightarrow>
    repays prog ix \<or> (\<not> repays prog ix \<and> \<not> withdraws prog ix \<and>
      (\<exists>pre jx post. ixs = pre @ jx # post \<and> repays prog jx \<and> (\<forall>j \<in> set pre. \<not> repays prog j \<and> \<not> withdraws prog j)))"
    (is "?l \<longleftrightarrow> ?r")
  proof
    show ?r if ?l
    proof -
      from that obtain pre jx post where *: "ix # ixs = pre @ jx # post" "repays prog jx"
        "\<forall>j \<in> set pre. \<not> repays prog j \<and> \<not> withdraws prog j" by blast
      show ?thesis
      proof (cases pre)
        case (Cons a l)
        then have "\<not> repays prog ix" "\<not> withdraws prog ix" "ixs = l @ jx # post"
          "\<forall>j \<in> set l. \<not> repays prog j \<and> \<not> withdraws prog j" using * by auto
        then show ?thesis using *(2) by blast
      qed (use * in simp)
    qed
    show ?l if ?r
    proof (cases "repays prog ix")
      case True
      then show ?thesis by (intro exI[of _ "[]"] exI[of _ ix] exI[of _ ixs]) simp
    next
      case False
      with that obtain pre jx post where "\<not> withdraws prog ix" "ixs = pre @ jx # post" "repays prog jx"
        "\<forall>j \<in> set pre. \<not> repays prog j \<and> \<not> withdraws prog j" by auto
      with False show ?thesis by (intro exI[of _ "ix # pre"] exI[of _ jx] exI[of _ post]) simp
    qed
  qed
  show ?case
    unfolding split using Cons.IH disc_length[of data]
    by (auto simp: ix repays_def withdraws_def require_def)
qed simp

definition flash_idle :: "flash_loan \<Rightarrow> bool" where
  "flash_idle f \<longleftrightarrow> flash_lamports f = 0 \<and> flash_token_mint f = default_key \<and> flash_token_amount f = 0"

lemma borrow_tokens_flash:
  assumes "borrow_tokens e cfg flash ra tokens bump = Ok (flash', cs)"
  shows "flash_token_amount flash' = tokens" "flash_lamports flash' = flash_lamports flash"
  using assms by (auto simp: borrow_tokens_def require_def Let_def bind_eq_Some_conv elim!: attempt_OkE split: if_splits)

lemma flash_borrow_cases:
  assumes "handle_flash_borrow e cfg bank flash auth borrower pool later ra lamports tokens bump = Ok (bank', flash', cs)"
  shows "flash_idle flash" "auth = flash_authority cfg" "find_repay (program_id e) later = Ok True"
    "0 \<le> lamports \<Longrightarrow> 0 \<le> tokens \<Longrightarrow> \<not> flash_idle flash'"
    "0 < lamports \<Longrightarrow> lamports \<le> sol_lamports bank \<and> flash' = flash\<lparr>flash_lamports := lamports\<rparr> \<and>
      bank' = bank\<lparr>sol_usd_contrib := 0, sol_lamports := sat_u64 (sol_lamports bank - lamports)\<rparr>"
    "\<not> 0 < lamports \<Longrightarrow> bank' = bank"
  using assms
  by (auto simp: handle_flash_borrow_def flash_idle_def require_def Let_def bind_eq_Some_conv borrow_tokens_flash
      elim!: attempt_OkE split: if_splits)

lemma flash_borrow_busy:
  assumes "\<not> flash_idle flash" "auth = flash_authority cfg"
  shows "handle_flash_borrow e cfg bank flash auth borrower pool later ra lamports tokens bump = Err FlashLoanActive"
  using assms by (auto simp: handle_flash_borrow_def flash_idle_def require_def)

lemma credit_tip_lamports: "part (credit_tip bank a tip price) (\<lambda>b'. sol_lamports b' = sol_lamports bank)"
proof -
  have acc: "part (accrue_sol_yield b x) (\<lambda>(b', _). sol_lamports b' = sol_lamports b)" for b x
    unfolding accrue_sol_yield_def by (simp only: part_simps) (simp add: part_any)
  have "part (credit_sol_yield b x) (\<lambda>b'. sol_lamports b' = sol_lamports b)" for b x
    unfolding credit_sol_yield_def
    by (simp only: part_simps part_case_prod, rule part_mono[OF acc])
      (auto intro!: part_mono[OF adjust_sol_credit_frame] simp: case_prod_beta)
  then show ?thesis
    unfolding credit_tip_def by (simp only: part_simps) (auto intro!: part_any)
qed

lemma flash_repay_sol:
  assumes "handle_flash_repay e bank flash risk repayer pool ra tip tip_tokens bump = Ok (bank', flash', risk', cs)"
    "flash_token_amount flash = 0"
  shows "0 < flash_lamports flash" "flash' = flash\<lparr>flash_lamports := 0\<rparr>"
    "sat_u128 (flash_lamports flash * FLASH_TIP_BPS) div 10000 \<le> tip"
    "sol_lamports bank' = sat_u64 (sol_lamports bank + sat_u64 (flash_lamports flash + tip))"
  using assms
  by (auto simp: handle_flash_repay_def require_def Let_def bind_eq_Some_conv elim!: attempt_OkE split: if_splits
      dest!: partD[OF credit_tip_lamports])

lemma flash_round_trip:
  assumes "handle_flash_borrow e cfg bank flash auth borrower pool later ra lamports tokens bump = Ok (bank1, flash1, cs)"
    "0 < lamports" "handle_flash_repay e' bank1 flash1 risk repayer pool ra' tip tip_tokens bump' = Ok (bank2, flash2, risk2, cs2)"
    "0 \<le> tip" "sol_lamports bank + tip \<le> U64_MAX"
  shows "flash2 = flash \<and> flash_idle flash2 \<and> sol_lamports bank2 = sol_lamports bank + tip \<and> lamports * FLASH_TIP_BPS div 10000 \<le> tip"
proof -
  note b = flash_borrow_cases[OF assms(1)]
  note b5 = b(5)[OF assms(2)]
  have l: "lamports \<le> sol_lamports bank" "flash1 = flash\<lparr>flash_lamports := lamports\<rparr>"
    "sol_lamports bank1 = sat_u64 (sol_lamports bank - lamports)" using b5 by auto
  have t: "flash_token_amount flash1 = 0" using b(1) l(2) by (simp add: flash_idle_def)
  note r = flash_repay_sol[OF assms(3) t]
  have s1: "sol_lamports bank1 = sol_lamports bank - lamports" using l assms by (simp add: sat_u64_id is_u64_def)
  have "sat_u64 (lamports + tip) = lamports + tip" using l assms by (simp add: sat_u64_id is_u64_def)
  then have s2: "sol_lamports bank2 = sol_lamports bank + tip" using r(4) l s1 assms by (simp add: sat_u64_id is_u64_def)
  have f: "flash2 = flash" using r(2) l(2) b(1) by (simp add: flash_idle_def)
  have "sat_u128 (lamports * 5) = lamports * 5" using l assms by (intro sat_u128_id) (simp add: is_u128_def)
  then show ?thesis using r(3) l(2) s2 f b(1) by simp
qed

end
