(* ===== verification/Handlers.thy ===== *)
theory Handlers
  imports Sol
begin

section \<open>The handlers (entra.rs: handle_in; clutch.rs: amortise, handle_out, handle_sweep)\<close>

text \<open>
  The instructions that move a depositor's money and positions: deposit, withdrawal and
  trading, liquidation by a third party, and the permissionless sweep over many accounts.
  Each definition takes the accounts the instruction locks, by value, and returns them as
  the program writes them back, with the calls it made to the token and system programs.
  The Anchor constraints that compare keys are the leading \<open>require\<close>s; address derivation
  is Anchor's and is not repeated. A position is looked up by its trimmed ticker, as the
  source does.
\<close>

subsection \<open>Shared pieces\<close>

definition reconcile_ticker_reserve :: "ticker_risk \<Rightarrow> depository \<Rightarrow> (ticker_risk \<times> depository) option" where
  "reconcile_ticker_reserve risk bank = do {
     target \<leftarrow> ticker_reserve_dollars \<bar>get_net (risk_actuary risk)\<bar> (risk_actuary risk);
     let after = sat_u64 (sat_u64 (max_liability bank - tr_reserved risk) + target);
     let freed = sat_u64 (max_liability bank - after);
     Some (risk\<lparr>tr_reserved := target\<rparr>,
           bank\<lparr>max_liability := after, unwind_demand := sat_u64 (unwind_demand bank - freed)\<rparr>)
   }"

definition age_depositor :: "depositor \<Rightarrow> int \<Rightarrow> depositor option" where
  "age_depositor d now = do {
     t \<leftarrow> i64 (now - last_updated d);
     m \<leftarrow> u128 (deposited_quid d * as_u128 t);
     s \<leftarrow> u128 (deposit_seconds d + m);
     Some (d\<lparr>deposit_seconds := s\<rparr>)
   }"

definition age_bank :: "depository \<Rightarrow> int \<Rightarrow> depository option" where
  "age_bank bank now = do {
     t \<leftarrow> i64 (now - bank_last_updated bank);
     m \<leftarrow> u128 (total_deposits bank * as_u128 t);
     s \<leftarrow> u128 (total_deposit_seconds bank + m);
     Some (bank\<lparr>total_deposit_seconds := s, bank_last_updated := now\<rparr>)
   }"

text \<open>A loss falls on the yield pool first, and on deposits only beyond it.\<close>

definition absorb_loss :: "depository \<Rightarrow> int \<Rightarrow> depository option" where
  "absorb_loss bank loss = do {
     let from_yield = min loss (yield_pool bank);
     y \<leftarrow> u64 (yield_pool bank - from_yield);
     rest \<leftarrow> u64 (loss - from_yield);
     Some (bank\<lparr>yield_pool := y, total_deposits := sat_u64 (total_deposits bank - rest)\<rparr>)
   }"

definition find_named :: "string \<Rightarrow> stock list \<Rightarrow> stock option" where
  "find_named t pods = find (\<lambda>p. trim_nul (pod_ticker p) = t) pods"

definition oracle_price :: "env \<Rightarrow> string \<Rightarrow> account_info \<Rightarrow> string \<Rightarrow> int result" where
  "oracle_price e t acct key =
     (if base58 e (ai_key acct) \<noteq> key then Err UnknownSymbol else fetch_price e t (Some acct))"

text \<open>Integrate the interval, check the price against the average, then learn it.\<close>

definition observe_ticker :: "env \<Rightarrow> ticker_risk \<Rightarrow> depository \<Rightarrow> int \<Rightarrow> ticker_risk result" where
  "observe_ticker e risk bank price = do {
     util \<leftarrow> utilisation_bps bank;
     a \<leftarrow> accrue_premium_index (risk_actuary risk) (unix_timestamp e) util;
     attempt (check_twap_deviation a (as_i64 price)) (\<lambda>_. do {
       a \<leftarrow> update_price a (as_i64 price) (as_i64 (clock_slot e));
       Ok (risk\<lparr>risk_actuary := a\<rparr>)
     })
   }"

definition note_activity :: "ticker_risk \<Rightarrow> depository \<Rightarrow> int \<Rightarrow> int \<Rightarrow> int \<Rightarrow> int \<Rightarrow> ticker_risk option" where
  "note_activity risk bank expo value_delta slot sz = do {
     a \<leftarrow> record_activity (risk_actuary risk) expo value_delta slot sz (as_i64 (total_deposits bank));
     Some (risk\<lparr>risk_actuary := a\<rparr>)
   }"

subsection \<open>Liquidation\<close>

definition seize :: "env \<Rightarrow> ticker_risk \<Rightarrow> depository \<Rightarrow> int \<Rightarrow> int \<Rightarrow> int \<Rightarrow> (ticker_risk \<times> depository) option" where
  "seize e risk bank prior_exposure delta commission = do {
     n \<leftarrow> i64 (- delta);
     gain \<leftarrow> i64 (n - as_i64 commission);
     y \<leftarrow> u64 (yield_pool bank + as_u64 gain);
     let bank = bank\<lparr>yield_pool := y\<rparr>;
     v \<leftarrow> i64 (- gain);
     risk \<leftarrow> note_activity risk bank prior_exposure v (as_i64 (clock_slot e)) gain;
     reconcile_ticker_reserve risk bank
   }"

definition salvage :: "env \<Rightarrow> ticker_risk \<Rightarrow> depository \<Rightarrow> depositor \<Rightarrow> account_info list \<Rightarrow> int \<Rightarrow> int \<Rightarrow>
    (ticker_risk \<times> depository \<times> depositor) result" where
  "salvage e risk bank customer accts prior_exposure delta =
     attempt (fetch_multiple_prices e (balances customer) accts) (\<lambda>prices. do {
       n \<leftarrow> i64 (- delta);
       attempt (renege customer None n (Some prices) (unix_timestamp e)) (\<lambda>(customer, remainder). do {
         r \<leftarrow> i64 (delta - remainder);
         let recovered = as_u64 r;
         dq \<leftarrow> u64 (deposited_quid customer + recovered);
         td \<leftarrow> u64 (total_deposits bank + recovered);
         bank \<leftarrow> absorb_loss (bank\<lparr>total_deposits := td\<rparr>) (as_u64 remainder);
         risk \<leftarrow> note_activity risk bank prior_exposure delta (as_i64 (clock_slot e)) delta;
         (risk, bank) \<leftarrow> reconcile_ticker_reserve risk bank;
         Ok (risk, bank, customer\<lparr>deposited_quid := dq\<rparr>)
       })
     })"

definition pay_liquidator :: "depositor \<Rightarrow> pubkey \<Rightarrow> int \<Rightarrow> int \<Rightarrow> depositor option" where
  "pay_liquidator liq liquidator commission now = do {
     liq \<leftarrow> (if owner liq = default_key then Some (liq\<lparr>owner := liquidator, last_updated := now\<rparr>)
            else do {
              liq \<leftarrow> age_depositor liq now;
              Some (liq\<lparr>last_updated := now\<rparr>)
            });
     dq \<leftarrow> u64 (deposited_quid liq + commission);
     Some (liq\<lparr>deposited_quid := dq\<rparr>)
   }"

definition settle_liquidation :: "env \<Rightarrow> ticker_risk \<Rightarrow> depository \<Rightarrow> depositor \<Rightarrow> string \<Rightarrow> account_info list \<Rightarrow> int \<Rightarrow> int \<Rightarrow>
    (ticker_risk \<times> depository \<times> depositor) result" where
  "settle_liquidation e risk bank customer t accts delta commission =
     (let prior_exposure = (case find_named t (balances customer) of Some p \<Rightarrow> exposure p | None \<Rightarrow> 0) in
      if delta < 0 then do {
        (risk, bank) \<leftarrow> seize e risk bank prior_exposure delta commission;
        Ok (risk, bank, customer)
      }
      else salvage e risk bank customer accts prior_exposure delta)"

definition amortise :: "env \<Rightarrow> depository \<Rightarrow> depositor \<Rightarrow> ticker_risk \<Rightarrow> depositor \<Rightarrow> pubkey \<Rightarrow> pubkey \<Rightarrow> string \<Rightarrow>
    account_info list \<Rightarrow> (depository \<times> depositor \<times> ticker_risk \<times> depositor) result" where
  "amortise e bank customer risk liq liquidating liquidator t accts =
     require (owner customer = liquidating) InvalidUser (
     attempt (ok_or (get_account e t) UnknownSymbol) (\<lambda>key.
     attempt (ok_or (first_account accts) NoPrice) (\<lambda>acct.
     attempt (oracle_price e t acct key) (\<lambda>price.
     attempt (observe_ticker e risk bank price) (\<lambda>risk. do {
       customer \<leftarrow> age_depositor customer (unix_timestamp e);
       bank \<leftarrow> age_bank bank (unix_timestamp e);
       attempt (repo customer t 0 price (unix_timestamp e) (as_i64 (clock_slot e)) (risk_actuary risk) bank)
         (\<lambda>(customer, bank, delta, interest). require (delta \<noteq> 0) NotUndercollateralised (do {
           y \<leftarrow> u64 (yield_pool bank + interest);
           m \<leftarrow> i64 \<bar>delta\<bar>;
           let commission = as_u64 m div 250;
           attempt (settle_liquidation e risk (bank\<lparr>yield_pool := y\<rparr>) customer t accts delta commission)
             (\<lambda>(risk, bank, customer). do {
               liq \<leftarrow> pay_liquidator liq liquidator commission (unix_timestamp e);
               Ok (bank\<lparr>total_deposits := sat_u64 (total_deposits bank + commission)\<rparr>,
                   reset_raroc customer, risk, liq)
             })
         }))
     })))))"

subsection \<open>Withdrawal from the pool\<close>

text \<open>What a depositor's tenure has earned, less the share of it their own borrowing has used.\<close>

definition earned_yield :: "depositor \<Rightarrow> depository \<Rightarrow> int" where
  "earned_yield d bank =
     (let earned = (if total_deposit_seconds bank > 0 \<and> yield_pool bank > 0
                    then as_u64 (min (sat_u128 (deposit_seconds d * yield_pool bank) div total_deposit_seconds bank)
                                     (yield_pool bank))
                    else 0);
          discount = (if deposited_quid d > 0
                      then sat_u64 (10000 - min (drawn d * 10000 div deposited_quid d) 10000)
                      else 0) in
      sat_u64 (earned * discount) div 10000)"

definition claim_value :: "depositor \<Rightarrow> depository \<Rightarrow> int" where
  "claim_value d bank = sat_u64 (deposited_quid d + earned_yield d bank)"

definition claim_share :: "depository \<Rightarrow> int \<Rightarrow> int" where
  "claim_share bank max_value =
     (let backing = sat_u64 (total_deposits bank + yield_pool bank) in
      if backing > 0 then min (sat_u128 (max_value * withdrawable bank) div backing) U64_MAX else 0)"

definition redeem_claim :: "depositor \<Rightarrow> depository \<Rightarrow> int \<Rightarrow> int \<Rightarrow> (depositor \<times> depository \<times> int) option" where
  "redeem_claim d bank wanted now = do {
     d \<leftarrow> age_depositor d now;
     let max_value = claim_value d bank;
     let reachable = min max_value wanted;
     let value = min reachable (claim_share bank max_value);
     let bank = defer_redemption bank (sat_u64 (reachable - value));
     let from_principal = min value (deposited_quid d);
     td \<leftarrow> u64 (total_deposits bank - from_principal);
     let bank = bank\<lparr>total_deposits := td,
                     yield_pool := sat_u64 (yield_pool bank - sat_u64 (value - from_principal))\<rparr>;
     (d, bank) \<leftarrow> adjust_deposit_seconds d bank (deposited_quid d) value now;
     dq \<leftarrow> u64 (deposited_quid d - min (deposited_quid d) value);
     Some (d\<lparr>deposited_quid := dq, last_updated := now\<rparr>, bank, value)
   }"

record payer =
  pay_vault :: token_account
  pay_mint :: mint_account
  pay_user :: pubkey
  pay_registered :: "pubkey list"

definition pay_out :: "env \<Rightarrow> payer \<Rightarrow> account_info list \<Rightarrow> int \<Rightarrow> (int \<times> call list) result" where
  "pay_out e p accts requested =
     transfer_from_vaults e (pay_vault p) (pay_mint p) (pay_user p) accts (pay_registered p) requested None"

text \<open>First the free collateral of every position, when asked for; the rest is a claim on the pool.\<close>

definition drain_first :: "env \<Rightarrow> depositor \<Rightarrow> account_info list \<Rightarrow> int \<Rightarrow> bool \<Rightarrow> (depositor \<times> int \<times> int \<times> nat) result" where
  "drain_first e d accts amount expo =
     (if expo then
        attempt (fetch_multiple_prices e (balances d) accts) (\<lambda>prices. do {
          m \<leftarrow> i64 \<bar>amount\<bar>;
          attempt (renege d None amount (Some prices) (unix_timestamp e)) (\<lambda>(d', remainder). do {
            amt \<leftarrow> u64 (as_u64 m - as_u64 remainder);
            Ok (d', remainder, amt, length (balances d))
          })
        })
      else Ok (d, amount, 0, 0))"

definition out_withdraw :: "env \<Rightarrow> depository \<Rightarrow> depositor \<Rightarrow> payer \<Rightarrow> account_info list \<Rightarrow> int \<Rightarrow> bool \<Rightarrow>
    (depository \<times> depositor \<times> call list) result" where
  "out_withdraw e bank d p accts amount expo =
     require (amount < 0) InvalidAmount (
     attempt (drain_first e d accts amount expo) (\<lambda>(d, amount, amt, vault_offset). do {
       m \<leftarrow> i64 \<bar>amount\<bar>;
       (d, bank, amt) \<leftarrow> (if m > 0 then do {
           (d, bank, value) \<leftarrow> redeem_claim d bank (as_u64 m) (unix_timestamp e);
           s \<leftarrow> u64 (amt + value);
           Some (d, bank, s)
         }
         else Some (d, bank, amt));
       attempt (pay_out e p (drop vault_offset accts) amt) (\<lambda>(_, cs). Ok (bank, d, cs))
     }))"

subsection \<open>Releasing pledged collateral\<close>

definition pledged_in :: "string \<Rightarrow> depositor \<Rightarrow> int" where
  "pledged_in t d = (case find_pod (pad_ticker t) (balances d) of None \<Rightarrow> 0 | Some i \<Rightarrow> pledged (balances d ! i))"

definition out_release :: "env \<Rightarrow> depositor \<Rightarrow> payer \<Rightarrow> account_info list \<Rightarrow> string \<Rightarrow> int \<Rightarrow>
    (depositor \<times> call list) result" where
  "out_release e d p accts t amount =
     require (amount < 0) InvalidAmount (
     attempt (fetch_multiple_prices e (balances d) accts) (\<lambda>prices.
     attempt (renege d (Some t) amount (Some prices) (unix_timestamp e)) (\<lambda>(d', _).
       let released = sat_u64 (pledged_in t d - pledged_in t d') in
       require (released > 0) Undercollateralised (
         attempt (pay_out e p accts (min released I64_MAX)) (\<lambda>(_, cs). Ok (d', cs))))))"

subsection \<open>Trading\<close>

definition trade_leverage :: "stock \<Rightarrow> int \<Rightarrow> int option" where
  "trade_leverage pos price =
     (if pledged pos > 0 then do {
        x \<leftarrow> i64 \<bar>exposure pos\<bar>;
        m \<leftarrow> u64 (as_u64 x * price);
        n \<leftarrow> u64 (m * 100);
        q \<leftarrow> div_u n (pledged pos);
        Some (as_i64 q)
      }
      else Some 100)"

definition trade_fee :: "stock \<Rightarrow> int \<Rightarrow> int \<Rightarrow> actuary \<Rightarrow> depository \<Rightarrow> int option" where
  "trade_fee pos amount price a bank = do {
     leverage \<leftarrow> trade_leverage pos price;
     let value = units_value \<bar>exposure pos\<bar> price;
     collar \<leftarrow> collar_bps leverage a;
     let notional = collar_notional value (pledged pos);
     let barrier = sat_u64 (notional + sat_u64 (notional * as_u64 collar) div 10000);
     let distance = (if value > 0
                     then min (sat_u128 (sat_u64 (barrier - value) * 10000) div value) I64_MAX
                     else 10000);
     util \<leftarrow> utilisation_bps bank;
     fee_bps util (exposure pos) amount a leverage distance
   }"

text \<open>
  Routing what \<open>repo\<close> returned. The result is the depositor, the signed change of the pool's
  own money (\<open>signed_t_delta\<close>) and the payments. In the take-profit case the source writes
  \<open>-(x).saturating_sub(payout)\<close>; a method call binds tighter than the minus.
\<close>

definition route_profit :: "env \<Rightarrow> payer \<Rightarrow> account_info list \<Rightarrow> int \<Rightarrow> int \<Rightarrow> int \<Rightarrow> (int \<times> call list) result" where
  "route_profit e p accts moved interest fee = do {
     m \<leftarrow> u128 (interest * as_u128 fee);
     let fee_amount = as_u64 (m div 10000);
     let payout = sat_u64 (interest - fee_amount);
     attempt (pay_out e p (drop 1 accts) payout) (\<lambda>(_, cs). do {
       s \<leftarrow> i128 (- sat_i128 (moved - payout));
       Ok (s, cs)
     })
   }"

definition tenure_since :: "depositor \<Rightarrow> int \<Rightarrow> int \<Rightarrow> depositor option" where
  "tenure_since d base now = do {
     t \<leftarrow> i64 (now - last_updated d);
     Some (d\<lparr>last_updated := now,
             deposit_seconds := sat_u128 (deposit_seconds d + sat_u128 (as_u128 t * base))\<rparr>)
   }"

definition route_trade :: "env \<Rightarrow> payer \<Rightarrow> account_info list \<Rightarrow> depositor \<Rightarrow> int \<Rightarrow> int \<Rightarrow> int \<Rightarrow> int \<Rightarrow> int \<Rightarrow> int \<Rightarrow> int \<Rightarrow>
    int \<Rightarrow> (depositor \<times> int \<times> call list) result" where
  "route_trade e p accts d pre_dq pre_pledged prior_exposure post_pledged post_exposure delta interest fee = do {
     let dq_delta = sat_i128 (deposited_quid d - pre_dq);
     let pledged_delta = sat_i128 (post_pledged - pre_pledged);
     if delta < 0 then
       attempt (route_profit e p accts (sat_i128 (dq_delta + pledged_delta)) interest fee)
         (\<lambda>(signed, cs). Ok (d, signed, cs))
     else do {
       shrunk \<leftarrow> (if interest > 0 then do {
                    x \<leftarrow> i64 \<bar>post_exposure\<bar>;
                    y \<leftarrow> i64 \<bar>prior_exposure\<bar>;
                    Some (x < y)
                  }
                  else Some False);
       if shrunk then do {
         let d = d\<lparr>deposited_quid := sat_u64 (deposited_quid d + interest)\<rparr>;
         d \<leftarrow> tenure_since d (deposited_quid d) (unix_timestamp e);
         s \<leftarrow> i128 (- sat_i128 (sat_i128 (dq_delta + interest) + pledged_delta));
         Ok (d, s, [])
       }
       else do {
         d \<leftarrow> (if delta > 0 then tenure_since d pre_dq (unix_timestamp e) else Some d);
         s \<leftarrow> i128 (- sat_i128 (dq_delta + pledged_delta));
         Ok (d, s, [])
       }
     }
   }"

definition book_t_delta :: "depository \<Rightarrow> int \<Rightarrow> depository option" where
  "book_t_delta bank signed =
     (if signed \<ge> 0 then Some (bank\<lparr>yield_pool := sat_u64 (yield_pool bank + as_u64 signed)\<rparr>)
      else do {
        n \<leftarrow> i128 (- signed);
        absorb_loss bank (as_u64 n)
      })"

definition learn_trade :: "env \<Rightarrow> ticker_risk \<Rightarrow> depository \<Rightarrow> int \<Rightarrow> int \<Rightarrow> int \<Rightarrow> int \<Rightarrow> (ticker_risk \<times> depository) option" where
  "learn_trade e risk bank prior_exposure amount price realised = do {
     let value_delta = units_value_i amount price;
     sz \<leftarrow> i64 \<bar>value_delta\<bar>;
     risk \<leftarrow> note_activity risk bank prior_exposure value_delta (as_i64 (clock_slot e)) sz;
     a \<leftarrow> (if realised \<noteq> 0
          then record_outcome (risk_actuary risk) realised (units_value \<bar>prior_exposure\<bar> price) (prior_exposure > 0)
          else Some (risk_actuary risk));
     reconcile_ticker_reserve (risk\<lparr>risk_actuary := a\<rparr>) bank
   }"

definition held_now :: "string \<Rightarrow> depositor \<Rightarrow> int \<times> int" where
  "held_now t d = (case find_named t (balances d) of None \<Rightarrow> (0, 0) | Some p \<Rightarrow> (pledged p, exposure p))"

definition trade_position :: "env \<Rightarrow> depository \<Rightarrow> depositor \<Rightarrow> ticker_risk \<Rightarrow> payer \<Rightarrow> account_info list \<Rightarrow> string \<Rightarrow> int \<Rightarrow> int \<Rightarrow>
    (depository \<times> depositor \<times> ticker_risk \<times> call list) result" where
  "trade_position e bank d risk p accts t amount price =
     attempt (ok_or (find_named t (balances d)) DepositFirst) (\<lambda>pos. do {
       fee \<leftarrow> trade_fee pos amount price (risk_actuary risk) bank;
       let pre_dq = deposited_quid d;
       let pre_realized = realized_pnl d;
       (d, risk, _) \<leftarrow> settle_funding d t risk price;
       attempt (repo d t amount price (unix_timestamp e) (as_i64 (clock_slot e)) (risk_actuary risk) bank)
         (\<lambda>(d, bank, delta, interest).
           let (post_pledged, post_exposure) = held_now t d in
           attempt (route_trade e p accts d pre_dq (pledged pos) (exposure pos) post_pledged post_exposure
                      delta interest fee)
             (\<lambda>(d, signed, cs). do {
               bank \<leftarrow> book_t_delta bank signed;
               (risk, bank) \<leftarrow> learn_trade e risk bank (exposure pos) amount price
                                  (sat_i64 (realized_pnl d - pre_realized));
               Ok (bank, d, risk, cs)
             }))
     })"

definition out_trade :: "env \<Rightarrow> depository \<Rightarrow> depositor \<Rightarrow> ticker_risk option \<Rightarrow> payer \<Rightarrow> account_info list \<Rightarrow> string \<Rightarrow> int \<Rightarrow>
    (depository \<times> depositor \<times> ticker_risk \<times> call list) result" where
  "out_trade e bank d risk p accts t amount =
     attempt (ok_or risk UnknownSymbol) (\<lambda>risk.
     attempt (ok_or (get_account e t) UnknownSymbol) (\<lambda>key.
       case accts of [] \<Rightarrow> None
       | acct # _ \<Rightarrow>
           attempt (oracle_price e t acct key) (\<lambda>price.
           attempt (observe_ticker e risk bank price) (\<lambda>risk.
             trade_position e bank d risk p accts t amount price))))"

subsection \<open>The withdraw instruction\<close>

record withdraw_accounts =
  wd_signer :: pubkey
  wd_config :: program_config
  wd_payer :: payer
  wd_sol_pool :: "(pubkey \<times> int) option"
  wd_token_program :: pubkey
  wd_remaining :: "account_info list"

type_synonym out_result = "(depository \<times> depositor \<times> ticker_risk option \<times> call list) result"

definition handle_out :: "env \<Rightarrow> withdraw_accounts \<Rightarrow> depository \<Rightarrow> depositor \<Rightarrow> ticker_risk option \<Rightarrow> int \<Rightarrow> string \<Rightarrow> bool \<Rightarrow>
    int \<Rightarrow> out_result" where
  "handle_out e w bank d risk amount ticker expo max_haircut_bps =
     require (is_approved_mint (mint_key (pay_mint (wd_payer w))) (registered_mints (wd_config w))) InvalidMint (
     case (if ticker = ''SOL'' then wd_sol_pool w else None) of
       Some (sol_pool, pool_lamports) \<Rightarrow>
         attempt (withdraw_native e bank d risk (wd_config w) sol_pool pool_lamports (wd_token_program w)
                    (wd_signer w) (wd_remaining w) \<bar>amount\<bar> max_haircut_bps)
           (\<lambda>(bank, d, risk, cs). Ok (bank, d, Some risk, cs))
     | None \<Rightarrow>
         require (amount \<noteq> 0) InvalidAmount (
         require (owner d = wd_signer w) InvalidUser (do {
           bank \<leftarrow> age_bank bank (unix_timestamp e);
           if ticker = [] then
             attempt (out_withdraw e bank d (wd_payer w) (wd_remaining w) amount expo)
               (\<lambda>(bank, d, cs). Ok (bank, d, risk, cs))
           else if \<not> expo then
             attempt (out_release e d (wd_payer w) (wd_remaining w) ticker amount)
               (\<lambda>(d, cs). Ok (bank, d, risk, cs))
           else
             attempt (out_trade e bank d risk (wd_payer w) (wd_remaining w) ticker amount)
               (\<lambda>(bank, d, risk, cs). Ok (bank, d, Some risk, cs))
         })))"

subsection \<open>The deposit instruction\<close>

record deposit_accounts =
  in_signer :: pubkey
  in_mint :: mint_account
  in_vault :: pubkey
  in_quid :: "pubkey option"
  in_config :: program_config
  in_sol_pool :: "pubkey option"
  in_token_program :: pubkey
  in_risk_bump :: int
  in_remaining :: "account_info list"

definition open_risk :: "ticker_risk \<Rightarrow> string \<Rightarrow> int \<Rightarrow> ticker_risk" where
  "open_risk risk t bump =
     risk\<lparr>tr_ticker := pad_ticker t, tr_bump := bump, risk_actuary := (risk_actuary risk)\<lparr>obs_count := 10\<rparr>\<rparr>"

definition deposit_sol :: "env \<Rightarrow> deposit_accounts \<Rightarrow> pubkey \<Rightarrow> depository \<Rightarrow> depositor \<Rightarrow> ticker_risk option \<Rightarrow> int \<Rightarrow> string \<Rightarrow>
    out_result" where
  "deposit_sol e x sol_pool bank d risk amount ticker =
     require (amount > 0) InvalidAmount (
     attempt (ok_or risk UnknownSymbol) (\<lambda>risk.
     require (ticker = ''SOL'') UnknownSymbol (
     attempt (fetch_price e ''SOL'' (first_account (in_remaining x))) (\<lambda>sol_price. do {
       let risk = (if tr_ticker risk = replicate 8 (CHR 0x00) then open_risk risk ''SOL'' (in_risk_bump x) else risk);
       util \<leftarrow> utilisation_bps bank;
       a \<leftarrow> accrue_premium_index (risk_actuary risk) (unix_timestamp e) util;
       a \<leftarrow> update_price a (as_i64 sol_price) (as_i64 (clock_slot e));
       let (d, bank, _) = settle_sol_yield d bank;
       let bank = bank\<lparr>sol_lamports := sat_u64 (sol_lamports bank + amount)\<rparr>;
       let d = d\<lparr>deposited_lamports := sat_u64 (deposited_lamports d + amount)\<rparr>;
       let c = System_transfer (in_signer x) sol_pool amount;
       _ \<leftarrow> invoke e c;
       usd \<leftarrow> collar_adjusted_usd amount sol_price a;
       let d = d\<lparr>sol_pledged_usd := sat_u64 (sol_pledged_usd d + usd)\<rparr>;
       let bank = bank\<lparr>sol_usd_contrib := sat_u64 (sol_usd_contrib bank + usd)\<rparr>;
       attempt (from_remaining e (in_config x) sol_pool (in_token_program x) (drop 1 (in_remaining x))) (\<lambda>legs.
       attempt (case legs of None \<Rightarrow> Ok (bank, 0, [])
                | Some l \<Rightarrow> park_idle_sol e bank (in_config x) l sol_price a (unix_timestamp e))
         (\<lambda>(bank, _, cs). Ok (bank, d, Some (risk\<lparr>risk_actuary := a\<rparr>), c # cs)))
     }))))"

definition pledge_to_ticker :: "env \<Rightarrow> deposit_accounts \<Rightarrow> depository \<Rightarrow> depositor \<Rightarrow> ticker_risk option \<Rightarrow> int \<Rightarrow> string \<Rightarrow>
    (depository \<times> depositor \<times> ticker_risk option) result" where
  "pledge_to_ticker e x bank d risk credited ticker = do {
     let now = unix_timestamp e;
     (d, bank) \<leftarrow> accrue d bank now;
     if get_hex e ticker = None then Err UnknownSymbol
     else
       let risk = map_option (\<lambda>r. if last_price (risk_actuary r) = 0 then open_risk r ticker (in_risk_bump x) else r) risk in
       attempt (renege d (Some ticker) (as_i64 credited) None now) (\<lambda>(d, _).
         Ok (bank\<lparr>bank_last_updated := now\<rparr>, d\<lparr>last_updated := now\<rparr>, risk))
   }"

definition handle_in :: "env \<Rightarrow> deposit_accounts \<Rightarrow> depository \<Rightarrow> depositor \<Rightarrow> ticker_risk option \<Rightarrow> int \<Rightarrow> string \<Rightarrow> out_result" where
  "handle_in e x bank d risk amount ticker =
     require (is_approved_mint (mint_key (in_mint x)) (registered_mints (in_config x))) InvalidMint (
     let d = (if owner d = default_key then d\<lparr>owner := in_signer x\<rparr> else d) in
     case in_sol_pool x of
       Some sol_pool \<Rightarrow> deposit_sol e x sol_pool bank d risk amount ticker
     | None \<Rightarrow>
         require (amount \<ge> 100000000) InvalidAmount (
         attempt (ok_or (in_quid x) InvalidMint) (\<lambda>from. do {
           let c = Transfer_checked from (mint_key (in_mint x)) (in_vault x) amount (decimals (in_mint x));
           _ \<leftarrow> invoke e c;
           attempt (to_accounting amount (decimals (in_mint x))) (\<lambda>credited.
           require (credited > 0) InvalidAmount (
             if ticker = [] then do {
               (d, bank) \<leftarrow> pool_deposit d bank credited (unix_timestamp e);
               Ok (bank, d, risk, [c])
             }
             else attempt (pledge_to_ticker e x bank d risk credited ticker)
                    (\<lambda>(bank, d, risk). Ok (bank, d, risk, [c]))))
         })))"

subsection \<open>The sweep\<close>

record sweep_account =
  sw_key :: pubkey
  sw_owner :: pubkey
  sw_writable :: bool
  sw_depositor :: "depositor option"

definition sweep_touches :: "string \<Rightarrow> depositor \<Rightarrow> int \<Rightarrow> bool" where
  "sweep_touches t d delta \<longleftrightarrow>
     delta \<noteq> 0 \<or> (\<exists>p \<in> set (balances d). pod_ticker p = pad_ticker t \<and> breached_at p \<noteq> 0)"

definition sweep_book :: "env \<Rightarrow> ticker_risk \<Rightarrow> depository \<Rightarrow> depositor \<Rightarrow> int \<Rightarrow> int \<Rightarrow>
    (ticker_risk \<times> depository \<times> depositor \<times> int) option" where
  "sweep_book e risk bank d delta interest = do {
     let cut = \<bar>delta\<bar> div 250;
     let bank = bank\<lparr>yield_pool := sat_u64 (yield_pool bank + interest)\<rparr>;
     if delta < 0 then do {
       let credited = sat_u64 (\<bar>delta\<bar> - cut);
       let bank = bank\<lparr>yield_pool := sat_u64 (yield_pool bank + credited)\<rparr>;
       v \<leftarrow> i64 (- as_i64 credited);
       risk \<leftarrow> note_activity risk bank 0 v (as_i64 (clock_slot e)) (as_i64 credited);
       (risk, bank) \<leftarrow> reconcile_ticker_reserve risk bank;
       Some (risk, bank, d, cut)
     }
     else do {
       let take = min (as_u64 delta) (deposited_quid d);
       dq \<leftarrow> u64 (deposited_quid d - take);
       Some (risk, bank\<lparr>yield_pool := sat_u64 (yield_pool bank + take)\<rparr>, d\<lparr>deposited_quid := dq\<rparr>, cut)
     }
   }"

text \<open>
  One account. The ticker's funding pot and the depository are written in any case, the
  depositor only when the position was touched. With no units traded, \<open>repo\<close> has not written
  to the depository on any path that ends in an error.
\<close>

definition sweep_one :: "env \<Rightarrow> string \<Rightarrow> int \<Rightarrow> ticker_risk \<Rightarrow> depository \<Rightarrow> sweep_account \<Rightarrow>
    (ticker_risk \<times> depository \<times> sweep_account \<times> int \<times> int) option" where
  "sweep_one e t price risk bank acct =
     (case sw_depositor acct of
        None \<Rightarrow> Some (risk, bank, acct, 0, 0)
      | Some d \<Rightarrow>
          if sw_owner acct \<noteq> program_id e \<or> \<not> sw_writable acct \<or> depositor_address e (owner d) \<noteq> sw_key acct
          then Some (risk, bank, acct, 0, 0)
          else do {
            (d, risk, _) \<leftarrow> settle_funding d t risk price;
            r \<leftarrow> repo d t 0 price (unix_timestamp e) (as_i64 (clock_slot e)) (risk_actuary risk) bank;
            case r of Inl _ \<Rightarrow> Some (risk, bank, acct, 0, 0)
            | Inr (d, bank, delta, interest) \<Rightarrow>
                if sweep_touches t d delta then do {
                  (risk, bank, d, cut) \<leftarrow> sweep_book e risk bank d delta interest;
                  Some (risk, bank, acct\<lparr>sw_depositor := Some d\<rparr>, cut, 1)
                }
                else Some (risk, bank, acct, 0, 0)
          })"

fun sweep_all :: "env \<Rightarrow> string \<Rightarrow> int \<Rightarrow> ticker_risk \<Rightarrow> depository \<Rightarrow> sweep_account list \<Rightarrow>
    (ticker_risk \<times> depository \<times> sweep_account list \<times> int \<times> int) option" where
  "sweep_all e t price risk bank [] = Some (risk, bank, [], 0, 0)"
| "sweep_all e t price risk bank (acct # accts) = do {
     (risk, bank, acct, cut, n) \<leftarrow> sweep_one e t price risk bank acct;
     (risk, bank, accts, cuts, m) \<leftarrow> sweep_all e t price risk bank accts;
     Some (risk, bank, acct # accts, sat_u64 (cut + cuts), n + m)
   }"

definition handle_sweep :: "env \<Rightarrow> depository \<Rightarrow> ticker_risk \<Rightarrow> depositor \<Rightarrow> pubkey \<Rightarrow> string \<Rightarrow> account_info option \<Rightarrow>
    sweep_account list \<Rightarrow> (depository \<times> ticker_risk \<times> depositor \<times> sweep_account list) result" where
  "handle_sweep e bank risk cranker_acct cranker t feed accts =
     attempt (ok_or (get_account e t) UnknownSymbol) (\<lambda>key.
     attempt (ok_or feed NoPrice) (\<lambda>acct.
     attempt (oracle_price e t acct key) (\<lambda>price.
     attempt (observe_ticker e risk bank price) (\<lambda>risk. do {
       let now = unix_timestamp e;
       let elapsed = sat_i64 (now - bank_last_updated bank);
       let bank = bank\<lparr>total_deposit_seconds :=
                         sat_u128 (total_deposit_seconds bank + sat_u128 (total_deposits bank * max elapsed 0)),
                       bank_last_updated := now\<rparr>;
       (risk, bank, accts, commission, touched) \<leftarrow> sweep_all e t price risk bank accts;
       let cranker_acct = (if owner cranker_acct = default_key
                           then cranker_acct\<lparr>owner := cranker, last_updated := now\<rparr> else cranker_acct);
       Ok (bank\<lparr>swept_at := now, swept_count := sat_u64 (swept_count bank + touched),
                total_deposits := sat_u64 (total_deposits bank + commission)\<rparr>,
           risk, cranker_acct\<lparr>deposited_quid := sat_u64 (deposited_quid cranker_acct + commission)\<rparr>, accts)
     }))))"

subsection \<open>The reserve is the sum of what the tickers contribute\<close>

text \<open>
  A whole that is kept as the sum of parts, one part re-stated at a time. Liquidation,
  trading and the sweep all restate a ticker's part of the reserve this way.
\<close>

locale shared_total =
  fixes adjust :: "'r \<Rightarrow> 'b \<Rightarrow> ('r \<times> 'b) option"
    and share :: "'r \<Rightarrow> int" and whole :: "'b \<Rightarrow> int" and fits :: "'r \<Rightarrow> 'b \<Rightarrow> bool"
  assumes adjust_moves: "adjust r b = Some (r', b') \<Longrightarrow> fits r b \<Longrightarrow> 0 \<le> share r \<Longrightarrow> share r \<le> whole b \<Longrightarrow>
      whole b' = whole b - share r + share r' \<and> 0 \<le> share r'"
begin

definition balanced :: "'r list \<Rightarrow> 'b \<Rightarrow> bool" where
  "balanced rs b \<longleftrightarrow> whole b = sum_list (map share rs) \<and> (\<forall>r \<in> set rs. 0 \<le> share r)"

lemma balanced_share_le:
  assumes "balanced rs b" "i < length rs"
  shows "0 \<le> share (rs ! i)" "share (rs ! i) \<le> whole b"
  using assms member_le_sum_list[of "share (rs ! i)" "map share rs"] by (auto simp: balanced_def)

lemma sum_list_share_update:
  "i < length rs \<Longrightarrow> sum_list (map share (rs[i := r])) = sum_list (map share rs) - share (rs ! i) + share r"
proof (induction rs arbitrary: i)
  case (Cons x rs)
  then show ?case by (cases i) auto
qed simp

lemma adjust_balanced:
  assumes "balanced rs b" "i < length rs" "adjust (rs ! i) b = Some (r', b')" "fits (rs ! i) b"
  shows "balanced (rs[i := r']) b'"
proof -
  have "whole b' = whole b - share (rs ! i) + share r' \<and> 0 \<le> share r'"
    using adjust_moves[OF assms(3,4)] balanced_share_le[OF assms(1,2)] by blast
  then show ?thesis
    using assms(1,2) by (auto simp: balanced_def sum_list_share_update dest!: set_update_subset_insert[THEN subsetD])
qed

end

text \<open>The reserve fits: what the other tickers hold and this ticker's whole net stay in range.\<close>

definition reserve_fits :: "ticker_risk \<Rightarrow> depository \<Rightarrow> bool" where
  "reserve_fits risk bank \<longleftrightarrow> rated (risk_actuary risk) \<and> is_u64 (max_liability bank) \<and>
     max_liability bank - tr_reserved risk + \<bar>get_net (risk_actuary risk)\<bar> \<le> U64_MAX"

lemma reconcile_moves:
  assumes "reconcile_ticker_reserve risk bank = Some (risk', bank')" "reserve_fits risk bank"
    "0 \<le> tr_reserved risk" "tr_reserved risk \<le> max_liability bank"
  shows "max_liability bank' = max_liability bank - tr_reserved risk + tr_reserved risk' \<and> 0 \<le> tr_reserved risk' \<and>
    tr_reserved risk' \<le> \<bar>get_net (risk_actuary risk)\<bar> \<and> risk_actuary risk' = risk_actuary risk \<and>
    unwind_demand bank' = sat_u64 (unwind_demand bank - sat_u64 (max_liability bank - max_liability bank'))"
proof -
  have w: "fit_wf (risk_actuary risk)" "gap_wf (risk_actuary risk)" "meter_wf (risk_actuary risk)" "book_wf (risk_actuary risk)"
    using assms(2) by (simp_all add: reserve_fits_def rated_def)
  have "0 \<le> \<bar>get_net (risk_actuary risk)\<bar>" "\<bar>get_net (risk_actuary risk)\<bar> \<le> U64_MAX" using w(4) by (auto simp: book_wf_def is_i64_def)
  from okD[OF ticker_reserve_ok[OF w(1-3) this]] obtain target where
    t: "ticker_reserve_dollars \<bar>get_net (risk_actuary risk)\<bar> (risk_actuary risk) = Some target" "0 \<le> target"
    "target \<le> \<bar>get_net (risk_actuary risk)\<bar>" by auto
  have r: "risk' = risk\<lparr>tr_reserved := target\<rparr>"
    "max_liability bank' = sat_u64 (sat_u64 (max_liability bank - tr_reserved risk) + target)"
    "unwind_demand bank' = sat_u64 (unwind_demand bank - sat_u64 (max_liability bank - max_liability bank'))"
    using assms(1) t(1) by (auto simp: reconcile_ticker_reserve_def Let_def)
  have "sat_u64 (max_liability bank - tr_reserved risk) = max_liability bank - tr_reserved risk"
    using assms(2-4) by (intro sat_u64_id) (simp add: is_u64_def reserve_fits_def)
  moreover have "sat_u64 (max_liability bank - tr_reserved risk + target) = max_liability bank - tr_reserved risk + target"
    using assms(2-4) t by (intro sat_u64_id) (simp add: is_u64_def reserve_fits_def)
  ultimately show ?thesis using r t by simp
qed

interpretation reserve: shared_total reconcile_ticker_reserve tr_reserved max_liability reserve_fits
  by unfold_locales (use reconcile_moves in blast)

subsection \<open>A claim never reaches what the book and the paper need\<close>

lemma muldiv_range:
  fixes a :: int
  assumes "0 \<le> a" "0 \<le> b" "b \<le> c" "0 < c"
  shows "0 \<le> a * b div c" "a * b div c \<le> a"
  using assms by (auto intro: div_nonneg muldiv_le_left)

lemma sat_u64_down: "0 \<le> x \<Longrightarrow> 0 \<le> sat_u64 x \<and> sat_u64 x \<le> x"
  by (simp add: sat_u64_def clamp_def)

lemma sat_u128_down: "0 \<le> x \<Longrightarrow> 0 \<le> sat_u128 x \<and> sat_u128 x \<le> x"
  by (simp add: sat_u128_def clamp_def)

lemma earned_yield_bound:
  assumes "bank_wf bank" "0 \<le> deposit_seconds d" "0 \<le> deposited_quid d" "0 \<le> drawn d"
  shows "0 \<le> earned_yield d bank" "earned_yield d bank \<le> yield_pool bank"
proof -
  define s where "s = sat_u128 (deposit_seconds d * yield_pool bank) div total_deposit_seconds bank"
  define earned where "earned = (if total_deposit_seconds bank > 0 \<and> yield_pool bank > 0 then as_u64 (min s (yield_pool bank)) else 0)"
  define disc where "disc = (if deposited_quid d > 0 then sat_u64 (10000 - min (drawn d * 10000 div deposited_quid d) 10000) else 0)"
  have y: "is_u64 (yield_pool bank)" "0 \<le> total_deposit_seconds bank"
    using assms(1) by (simp_all add: bank_wf_def is_u128_def)
  have "0 \<le> s"
    using assms(2) y sat_u128_down[of "deposit_seconds d * yield_pool bank"] unfolding s_def
    by (intro div_nonneg) (simp_all add: is_u64_def)
  then have "is_u64 (min s (yield_pool bank))" using y(1) by (auto simp: is_u64_def)
  then have e: "0 \<le> earned" "earned \<le> yield_pool bank"
    using y(1) by (auto simp: earned_def as_u64_id is_u64_def)
  have "0 \<le> drawn d * 10000 div deposited_quid d" using assms(3,4) by (intro div_nonneg) simp_all
  then have d: "0 \<le> disc" "disc \<le> 10000" by (auto simp: disc_def sat_u64_def clamp_def)
  have eq: "earned_yield d bank = sat_u64 (earned * disc) div 10000"
    by (simp only: earned_yield_def earned_def disc_def s_def Let_def)
  have p: "0 \<le> sat_u64 (earned * disc)" "sat_u64 (earned * disc) \<le> earned * disc"
    using e d sat_u64_down[of "earned * disc"] by simp_all
  show "0 \<le> earned_yield d bank" unfolding eq using p(1) by (intro div_nonneg) simp_all
  have "sat_u64 (earned * disc) div 10000 \<le> earned * disc div 10000" using p(2) by (rule zdiv_mono1) simp
  also have "\<dots> \<le> earned" using muldiv_range(2)[OF e(1) d] by simp
  finally show "earned_yield d bank \<le> yield_pool bank" unfolding eq using e(2) by linarith
qed

lemma claim_share_bound:
  assumes "bank_wf bank" "total_deposits bank + yield_pool bank \<le> U64_MAX" "0 \<le> mv" "mv \<le> total_deposits bank + yield_pool bank"
  shows "0 \<le> claim_share bank mv" "claim_share bank mv \<le> withdrawable bank"
proof -
  define free where "free = withdrawable bank"
  define backing where "backing = total_deposits bank + yield_pool bank"
  have b: "sat_u64 (total_deposits bank + yield_pool bank) = backing"
    using assms(1,2) by (simp add: sat_u64_id is_u64_def bank_wf_def backing_def)
  have f: "0 \<le> free" by (simp add: free_def withdrawable_def sat_u64_nonneg)
  have m: "0 \<le> mv * free" using f assms(3) by simp
  have "0 \<le> claim_share bank mv \<and> claim_share bank mv \<le> free"
  proof (cases "0 < backing")
    case True
    have "sat_u128 (mv * free) div backing \<le> mv * free div backing"
      using sat_u128_down[OF m] True by (intro zdiv_mono1) simp_all
    also have "\<dots> \<le> free"
      using muldiv_range(2)[OF f assms(3) _ True] assms(4) by (simp add: backing_def mult.commute)
    moreover have "0 \<le> sat_u128 (mv * free) div backing"
      using sat_u128_down[OF m] True by (intro div_nonneg) simp_all
    ultimately show ?thesis using True by (simp add: claim_share_def b Let_def free_def)
  next
    case False
    then show ?thesis using f by (simp add: claim_share_def b)
  qed
  then show "0 \<le> claim_share bank mv" "claim_share bank mv \<le> withdrawable bank" by (simp_all add: free_def)
qed

lemma age_depositor_frame:
  assumes "age_depositor d now = Some d'"
  shows "deposited_quid d' = deposited_quid d" "drawn d' = drawn d" "0 \<le> deposit_seconds d'" "balances d' = balances d"
  using assms by (auto simp: age_depositor_def bind_eq_Some_conv u128_def is_u128_def split: if_splits)

lemma adjust_deposit_seconds_frame:
  assumes "adjust_deposit_seconds d bank base red now = Some (d', bank')"
  shows "deposited_quid d' = deposited_quid d" "total_deposits bank' = total_deposits bank" "yield_pool bank' = yield_pool bank"
    "max_liability bank' = max_liability bank" "paper_in_transit bank' = paper_in_transit bank"
  using assms by (auto simp: adjust_deposit_seconds_def Let_def bind_eq_Some_conv split: if_splits)

lemma redeem_claim_spec:
  assumes "redeem_claim d bank wanted now = Some (d', bank', value)" "dep_wf d" "bank_wf bank" "0 \<le> wanted"
    "deposited_quid d \<le> total_deposits bank" "total_deposits bank + yield_pool bank \<le> U64_MAX"
  shows "0 \<le> value" "value \<le> wanted" "value \<le> withdrawable bank"
    "total_deposits bank' + yield_pool bank' = total_deposits bank + yield_pool bank - value"
    "deposited_quid d' = deposited_quid d - min (deposited_quid d) value"
    "max_liability bank' = max_liability bank" "paper_in_transit bank' = paper_in_transit bank"
proof -
  obtain d1 where d1: "age_depositor d now = Some d1"
    using assms(1) by (auto simp: redeem_claim_def bind_eq_Some_conv)
  note a = age_depositor_frame[OF d1]
  define mv where "mv = claim_value d1 bank"
  define v where "v = min (min mv wanted) (claim_share bank mv)"
  define fp where "fp = min v (deposited_quid d)"
  define b1 where "b1 = defer_redemption bank (sat_u64 (min mv wanted - v))"
  define b2 where "b2 = b1\<lparr>total_deposits := total_deposits b1 - fp, yield_pool := sat_u64 (yield_pool b1 - sat_u64 (v - fp))\<rparr>"
  have b1: "total_deposits b1 = total_deposits bank" "yield_pool b1 = yield_pool bank" "max_liability b1 = max_liability bank"
    "paper_in_transit b1 = paper_in_transit bank" by (simp_all add: b1_def defer_redemption_def)
  obtain d2 where d2: "adjust_deposit_seconds d1 b2 (deposited_quid d1) v now = Some (d2, bank')"
    "d' = d2\<lparr>deposited_quid := deposited_quid d2 - min (deposited_quid d2) v, last_updated := now\<rparr>" "value = v"
    using assms(1) unfolding redeem_claim_def d1 Let_def Option.bind_lunit mv_def[symmetric] v_def[symmetric] a(1) fp_def[symmetric]
      b1_def[symmetric] by (auto simp: bind_eq_Some_conv u64_def b2_def split: if_splits)
  note f = adjust_deposit_seconds_frame[OF d2(1)]
  have q: "0 \<le> deposited_quid d" "0 \<le> drawn d" "is_u64 (yield_pool bank)" "0 \<le> total_deposits bank"
    using assms(2,3) by (simp_all add: dep_wf_def bank_wf_def is_u64_def)
  have e: "0 \<le> earned_yield d1 bank" "earned_yield d1 bank \<le> yield_pool bank"
    using earned_yield_bound[OF assms(3) a(3)] a(1,2) q by simp_all
  then have "mv = deposited_quid d + earned_yield d1 bank"
    using assms(5,6) q a(1) unfolding mv_def claim_value_def by (intro trans[OF sat_u64_id]) (simp_all add: is_u64_def)
  then have m: "0 \<le> mv" "mv \<le> deposited_quid d + yield_pool bank" "mv \<le> total_deposits bank + yield_pool bank"
    using e q assms(5) by linarith+
  note c = claim_share_bound[OF assms(3,6) m(1,3)]
  have v: "0 \<le> v" "v \<le> wanted" "v \<le> withdrawable bank" "v \<le> deposited_quid d + yield_pool bank"
    using m c assms(4) by (auto simp: v_def)
  have y: "sat_u64 (v - fp) = v - fp" "sat_u64 (yield_pool bank - (v - fp)) = yield_pool bank - (v - fp)"
    using v(1,4) q by (auto simp: fp_def is_u64_def sat_u64_def clamp_def)
  show "0 \<le> value" "value \<le> wanted" "value \<le> withdrawable bank" using v d2(3) by simp_all
  show "total_deposits bank' + yield_pool bank' = total_deposits bank + yield_pool bank - value"
    using f(2,3) d2(3) by (simp add: b2_def b1 y)
  show "deposited_quid d' = deposited_quid d - min (deposited_quid d) value" using d2 f(1) a(1) by simp
  show "max_liability bank' = max_liability bank" "paper_in_transit bank' = paper_in_transit bank"
    using f(4,5) by (simp_all add: b2_def b1)
qed

lemma redeem_claim_solvent:
  assumes "redeem_claim d bank wanted now = Some (d', bank', value)" "dep_wf d" "bank_wf bank" "0 \<le> wanted"
    "deposited_quid d \<le> total_deposits bank" "total_deposits bank + yield_pool bank \<le> U64_MAX" "0 < value"
  shows "max_liability bank' + paper_in_transit bank' \<le> total_deposits bank' + yield_pool bank'"
  using redeem_claim_spec[OF assms(1-6)] withdrawable_covers[OF assms(3)] assms(7) by linarith

subsection \<open>Trading\<close>

lemma route_profit_signed:
  assumes "route_profit e p accts moved interest fee = Ok (signed, cs)" "is_u64 interest" "0 \<le> fee" "fee \<le> 10000"
    "\<bar>moved\<bar> \<le> 4 * U64_MAX"
  shows "signed = (interest - interest * fee div 10000) - moved"
proof -
  define cut where "cut = interest * fee div 10000"
  define payout where "payout = interest - cut"
  have i: "0 \<le> interest" using assms(2) by (simp add: is_u64_def)
  note m = muldiv_range[OF i assms(3,4) zero_less_numeral, folded cut_def]
  have fe: "as_u128 fee = fee" using assms(3,4) by (simp add: as_u128_def)
  have fa: "as_u64 cut = cut" using m assms(2) by (intro as_u64_id) (simp add: is_u64_def)
  have po: "sat_u64 payout = payout" using m assms(2) by (intro sat_u64_id) (simp add: is_u64_def payout_def)
  have "\<bar>moved - payout\<bar> \<le> 5 * U64_MAX" using assms(2,5) m by (simp add: payout_def is_u64_def)
  then have s: "sat_i128 (moved - payout) = moved - payout" by (intro sat_i128_id) (auto simp: is_i128_def)
  have "signed = payout - moved"
    using assms(1) unfolding route_profit_def fe Let_def
    by (auto simp: bind_eq_Some_conv u128_def cut_def[symmetric] fa payout_def[symmetric] po s i128_def elim!: attempt_OkE split: if_splits)
  then show ?thesis by (simp add: payout_def cut_def)
qed

lemma trade_leverage_aborts:
  assumes "0 < pledged pos" "is_i64 (exposure pos)" "U64_MAX < \<bar>exposure pos\<bar> * price * 100"
  shows "trade_leverage pos price = None"
proof (cases "is_i64 \<bar>exposure pos\<bar>")
  case True
  then have "as_u64 \<bar>exposure pos\<bar> = \<bar>exposure pos\<bar>" by (intro as_u64_id) (simp add: is_i64_def is_u64_def)
  moreover define m where "m = \<bar>exposure pos\<bar> * price"
  then have "U64_MAX < m * 100" using assms(3) by simp
  ultimately show ?thesis
    using assms(1) True by (simp add: trade_leverage_def i64_ok u64_def is_u64_def m_def[symmetric])
qed (simp add: trade_leverage_def i64_def assms(1))

lemma trade_position_aborts:
  assumes "find_named t (balances d) = Some pos" "0 < pledged pos" "is_i64 (exposure pos)" "U64_MAX < \<bar>exposure pos\<bar> * price * 100"
  shows "trade_position e bank d risk p accts t amount price = None"
proof -
  have "trade_fee pos amount price (risk_actuary risk) bank = None"
    unfolding trade_fee_def trade_leverage_aborts[OF assms(2-4)] by simp
  then show ?thesis by (simp add: trade_position_def assms(1) ok_or_def)
qed

lemma tenure_since_frame:
  "tenure_since d base now = Some d' \<Longrightarrow> deposited_quid d' = deposited_quid d \<and> balances d' = balances d"
  by (auto simp: tenure_since_def bind_eq_Some_conv)

lemma route_trade_conserves:
  assumes "route_trade e p accts d pre_dq pre_pledged prior post_pledged post delta interest fee = Ok (d', signed, cs)"
    "0 \<le> delta" "is_u64 (deposited_quid d)" "is_u64 pre_dq" "is_u64 pre_pledged" "is_u64 post_pledged" "0 \<le> interest"
    "deposited_quid d + interest \<le> U64_MAX"
  shows "signed + (deposited_quid d' - pre_dq) + (post_pledged - pre_pledged) = 0" "cs = []"
proof -
  define a where "a = deposited_quid d - pre_dq"
  define b where "b = post_pledged - pre_pledged"
  have r: "\<bar>a\<bar> \<le> U64_MAX" "\<bar>b\<bar> \<le> U64_MAX" "0 \<le> interest" "interest \<le> U64_MAX"
    using assms(3-8) by (auto simp: a_def b_def is_u64_def)
  have s: "sat_i128 a = a" "sat_i128 b = b" "sat_i128 (a + b) = a + b" "sat_i128 (a + interest) = a + interest"
    "sat_i128 (a + interest + b) = a + interest + b" using r by (auto intro!: sat_i128_id simp: is_i128_def)
  have dq: "sat_u64 (deposited_quid d + interest) = deposited_quid d + interest"
    using assms(3,7,8) by (intro sat_u64_id) (simp add: is_u64_def)
  have nd: "\<not> delta < 0" using assms(2) by simp
  have "signed + (deposited_quid d' - pre_dq) + b = 0 \<and> cs = []"
    using assms(1) unfolding route_trade_def Let_def a_def[symmetric] b_def[symmetric] s if_not_P[OF nd] dq
    by (auto simp: bind_eq_Some_conv i128_def a_def dest!: tenure_since_frame split: if_splits)
  then show "signed + (deposited_quid d' - pre_dq) + (post_pledged - pre_pledged) = 0" "cs = []" by (simp_all add: b_def)
qed

lemma absorb_loss_order:
  assumes "bank_wf bank" "0 \<le> loss" "loss \<le> yield_pool bank + total_deposits bank"
  shows "absorb_loss bank loss = Some (bank\<lparr>yield_pool := max 0 (yield_pool bank - loss),
    total_deposits := total_deposits bank - max 0 (loss - yield_pool bank)\<rparr>)"
  using assms by (auto simp: absorb_loss_def bank_wf_def is_u64_def u64_def sat_u64_def clamp_def min_def max_def Let_def)

subsection \<open>Two ways a price list is used for the wrong position, or is missing\<close>

lemma pledge_to_ticker_refused:
  assumes "dep_wf d" "bank_wf bank" "get_hex e ticker \<noteq> None"
    "find_pod (pad_ticker ticker) (balances d) = Some i" "exposure (balances d ! i) \<noteq> 0"
  shows "pledge_to_ticker e x bank d risk credited ticker = Err NoPrice"
proof -
  obtain d1 bank1 where r: "accrue d bank (unix_timestamp e) = Some (d1, bank1)" "balances d1 = balances d"
    by (auto simp: accrue_def accrue_seconds_eq[OF assms(1,2)])
  then have "renege d1 (Some ticker) (as_i64 credited) None (unix_timestamp e) = Err NoPrice"
    using assms(4,5) by (intro renege_open_needs_price) simp_all
  then show ?thesis using assms(3) r by (simp add: pledge_to_ticker_def Let_def)
qed

lemma handle_in_topup_refused:
  assumes "dep_wf d" "bank_wf bank" "get_hex e ticker \<noteq> None" "ticker \<noteq> []" "in_sol_pool x = None"
    "find_pod (pad_ticker ticker) (balances d) = Some i" "exposure (balances d ! i) \<noteq> 0"
  shows "handle_in e x bank d risk amount ticker \<noteq> Ok r"
proof
  assume h: "handle_in e x bank d risk amount ticker = Ok r"
  define d0 where "d0 = (if owner d = default_key then d\<lparr>owner := in_signer x\<rparr> else d)"
  have "dep_wf d0" "balances d0 = balances d" using assms(1) by (simp_all add: d0_def dep_wf_def)
  then have "pledge_to_ticker e x bank d0 risk c ticker = Err NoPrice" for c
    using pledge_to_ticker_refused[OF _ assms(2,3)] assms(6,7) by simp
  then show False
    using h assms(4,5) unfolding handle_in_def d0_def[symmetric] Let_def
    by (auto simp: require_def bind_eq_Some_conv elim!: attempt_OkE split: if_splits)
qed

subsection \<open>The sweep writes the funding pot and not the position\<close>

lemma settle_funding_pot:
  assumes "settle_funding d t risk price = Some (d', risk', s)" "find_pod (pad_ticker t) (balances d) = Some i"
    "is_u64 (pledged (balances d ! i))" "is_u64 (funding_pot risk)" "pledged (balances d ! i) + funding_pot risk \<le> U64_MAX"
  shows "pledged (balances d' ! i) + funding_pot risk' = pledged (balances d ! i) + funding_pot risk"
proof -
  obtain pod where p: "settle_pod_funding (balances d ! i) risk price = Some (pod, risk', s)" "d' = put_pod d i pod"
    using assms(1,2) by (auto simp: settle_funding_def bind_eq_Some_conv)
  have "i < length (balances d)" by (rule find_pod_SomeD(1)[OF assms(2)])
  then show ?thesis using settle_pod_funding_conserves(1)[OF p(1) assms(3-5)] p(2) by (simp add: put_pod_def)
qed

lemma sweep_one_untouched:
  assumes "sw_depositor acct = Some d" "sw_owner acct = program_id e" "sw_writable acct"
    "depositor_address e (owner d) = sw_key acct" "find_pod (pad_ticker t) (balances d) = Some i"
    "settle_funding d t risk price = Some (d1, risk1, s)"
    "is_u64 (pledged (balances d ! i))" "is_u64 (funding_pot risk)" "pledged (balances d ! i) + funding_pot risk \<le> U64_MAX"
    "repo d1 t 0 price (unix_timestamp e) (as_i64 (clock_slot e)) (risk_actuary risk1) bank = Err err"
  shows "sweep_one e t price risk bank acct = Some (risk1, bank, acct, 0, 0)"
    "funding_pot risk1 - funding_pot risk = pledged (balances d ! i) - pledged (balances d1 ! i)"
  using assms(1-4,6,10) settle_funding_pot[OF assms(6,5,7-9)] by (simp_all add: sweep_one_def)

end
