(* ===== verification/Backing.thy ===== *)
theory Backing
  imports Sol
begin

section \<open>Paper backing of the reserve (entra.rs: Backing)\<close>

text \<open>
  The pool may hold real shares against what it is short of: \<open>issue_paper\<close> sends stablecoin
  to the issuer while the reserve is underfunded, \<open>redeem_paper\<close> sends shares back once it is
  overfunded, and \<open>reconcile\<close> books what the redemption brought. What the paper covers is read
  from the vault's balance at the last price; the cost basis \<open>spent\<close> is carried beside it.
\<close>

abbreviation (input) MIN_ORDER_DOLLARS :: int where "MIN_ORDER_DOLLARS \<equiv> 1000000000"
abbreviation (input) BACKING_COOLDOWN_SECS :: int where "BACKING_COOLDOWN_SECS \<equiv> 3600"
abbreviation (input) MAX_BACKING_STALENESS_SLOTS :: int where "MAX_BACKING_STALENESS_SLOTS \<equiv> 6000"
abbreviation (input) FUND_ABOVE_BPS :: int where "FUND_ABOVE_BPS \<equiv> 7500"
abbreviation (input) RELEASE_BELOW_BPS :: int where "RELEASE_BELOW_BPS \<equiv> 5000"

record backing =
  bk_bump :: int
  bk_mint :: pubkey
  issuance :: pubkey
  redemption :: pubkey
  funded :: int
  spent :: int
  min_order :: int
  max_order :: int
  last_flow :: int

definition live_cover :: "int \<Rightarrow> int \<Rightarrow> ticker_risk \<Rightarrow> int result" where
  "live_cover paper_units dec risk =
     (let price = last_price (risk_actuary risk) in
      if price \<le> 0 \<or> paper_units = 0 then Ok 0
      else attempt (to_accounting paper_units dec) (\<lambda>u. Ok (units_value u (as_u64 price))))"

definition unfunded_bps :: "depository \<Rightarrow> int \<Rightarrow> int option" where
  "unfunded_bps bank cover =
     (if total_deposits bank = 0 then Some I64_MAX
      else do {
        m \<leftarrow> u128 (sat_u64 (max_liability bank - cover) * 10000);
        q \<leftarrow> div_u m (total_deposits bank);
        Some (min q I64_MAX)
      })"

definition set_backing :: "(string \<Rightarrow> string option) \<Rightarrow> env \<Rightarrow> program_config \<Rightarrow> backing \<Rightarrow> pubkey \<Rightarrow> int \<Rightarrow> string \<Rightarrow> pubkey \<Rightarrow>
    pubkey \<Rightarrow> pubkey \<Rightarrow> int \<Rightarrow> int \<Rightarrow> backing result" where
  "set_backing deliverable_mint e cfg h signer bump ticker iss red mint lo hi =
     require (signer = cfg_admin cfg) Unauthorized (
     attempt (ok_or (deliverable_mint ticker) NotDeliverable) (\<lambda>expect.
     require (base58 e mint = expect) InvalidMint (
     require (iss \<noteq> default_key \<and> red \<noteq> default_key) InvalidParameters (
     require (lo \<ge> MIN_ORDER_DOLLARS) InvalidParameters (
     require (hi \<ge> lo \<or> hi = 0) InvalidParameters (
     require (bk_mint h = default_key \<or> bk_mint h = mint \<or> funded h = 0) BackingStillHeld (
       Ok (h\<lparr>bk_bump := bump, bk_mint := mint, issuance := iss, redemption := red,
             min_order := lo, max_order := hi\<rparr>))))))))"

definition backing_preflight :: "env \<Rightarrow> backing \<Rightarrow> ticker_risk \<Rightarrow> int result" where
  "backing_preflight e h risk =
     require (sat_i64 (unix_timestamp e - last_flow h) \<ge> BACKING_COOLDOWN_SECS) DeliveryCoolingDown (
     require (sat_i64 (as_i64 (clock_slot e) - last_price_slot (risk_actuary risk)) \<le> MAX_BACKING_STALENESS_SLOTS)
       PriceTooStaleToDeliver (
     require (max_order h > 0) DeliveryHalted (Ok (unix_timestamp e))))"

record flow_accounts =
  fl_config :: program_config
  fl_stable_mint :: mint_account
  fl_stable_vault :: pubkey
  fl_paper_mint :: mint_account
  fl_paper_vault :: token_account
  fl_destination :: pubkey

text \<open>The constraints of the accounts both flows lock.\<close>

definition flow_guard :: "flow_accounts \<Rightarrow> backing \<Rightarrow> 'a result \<Rightarrow> 'a result" where
  "flow_guard x h k =
     require (is_approved_mint (mint_key (fl_stable_mint x)) (registered_mints (fl_config x))) InvalidMint (
     require (mint_key (fl_paper_mint x) = bk_mint h) InvalidMint k)"

definition issue_paper :: "env \<Rightarrow> flow_accounts \<Rightarrow> depository \<Rightarrow> backing \<Rightarrow> ticker_risk \<Rightarrow> int \<Rightarrow>
    (depository \<times> backing \<times> call list) result" where
  "issue_paper e x bank h risk amount =
     flow_guard x h (
     require (fl_destination x = issuance h) InvalidParameters (
     attempt (live_cover (amount_held (fl_paper_vault x)) (decimals (fl_paper_mint x)) risk) (\<lambda>cover. do {
       u \<leftarrow> unfunded_bps bank cover;
       require (u \<ge> FUND_ABOVE_BPS) FundingWithinBand (
       attempt (backing_preflight e h risk) (\<lambda>now.
       require (amount \<ge> min_order h) BelowMinimumTicket (
       require (amount \<le> max_order h) AboveMaximumTicket (
       require (sat_u64 (cover + amount) \<le> max_liability bank) ExceedsNetExposure (
       attempt (from_accounting amount (decimals (fl_stable_mint x))) (\<lambda>raw. do {
         let c = Transfer_checked (fl_stable_vault x) (mint_key (fl_stable_mint x)) (fl_destination x)
                   raw (decimals (fl_stable_mint x));
         _ \<leftarrow> invoke e c;
         Ok (bank\<lparr>paper_backed := cover\<rparr>,
             h\<lparr>spent := sat_u64 (spent h + amount), funded := cover, last_flow := now\<rparr>, [c])
       }))))))
     })))"

definition released_basis :: "int \<Rightarrow> int \<Rightarrow> int \<Rightarrow> int option" where
  "released_basis basis raw_amount held = do {
     m \<leftarrow> u128 (basis * raw_amount);
     q \<leftarrow> div_u m (max held 1);
     Some (min q basis)
   }"

definition redeem_paper :: "env \<Rightarrow> flow_accounts \<Rightarrow> depository \<Rightarrow> backing \<Rightarrow> ticker_risk \<Rightarrow> int \<Rightarrow>
    (depository \<times> backing \<times> call list) result" where
  "redeem_paper e x bank h risk raw_amount =
     flow_guard x h (
     require (fl_destination x = redemption h) InvalidParameters (
       let held = amount_held (fl_paper_vault x) in
       require (raw_amount > 0 \<and> held \<ge> raw_amount) NoPaperHeld (
       attempt (live_cover held (decimals (fl_paper_mint x)) risk) (\<lambda>cover. do {
         u \<leftarrow> unfunded_bps bank cover;
         require (u \<le> RELEASE_BELOW_BPS) FundingWithinBand (
         attempt (backing_preflight e h risk) (\<lambda>now. do {
           released \<leftarrow> released_basis (spent h) raw_amount held;
           let c = Transfer_checked (token_key (fl_paper_vault x)) (mint_key (fl_paper_mint x)) (fl_destination x)
                     raw_amount (decimals (fl_paper_mint x));
           _ \<leftarrow> invoke e c;
           attempt (live_cover (sat_u64 (held - raw_amount)) (decimals (fl_paper_mint x)) risk) (\<lambda>left.
             Ok (bank\<lparr>paper_backed := left, paper_in_transit := sat_u64 (paper_in_transit bank + released)\<rparr>,
                 h\<lparr>spent := sat_u64 (spent h - released), funded := left, last_flow := now\<rparr>, [c]))
         }))
       }))))"

definition reconcile :: "env \<Rightarrow> program_config \<Rightarrow> depository \<Rightarrow> backing \<Rightarrow> pubkey \<Rightarrow> int \<Rightarrow> (depository \<times> backing) result" where
  "reconcile e cfg bank h signer proceeds =
     require (signer = cfg_admin cfg) Unauthorized (do {
       let basis = paper_in_transit bank;
       bank \<leftarrow> (if basis > 0 then do {
           let bank = bank\<lparr>paper_in_transit := 0\<rparr>;
           if proceeds \<ge> basis then do {
             g \<leftarrow> u64 (proceeds - basis);
             Some (bank\<lparr>yield_pool := sat_u64 (yield_pool bank + g)\<rparr>)
           }
           else do {
             l \<leftarrow> u64 (basis - proceeds);
             Some (bank\<lparr>yield_pool := sat_u64 (yield_pool bank - l)\<rparr>)
           }
         }
         else Some bank);
       Ok (bank, h\<lparr>last_flow := unix_timestamp e\<rparr>)
     })"

subsection \<open>Guards and basis\<close>

lemma issue_paper_cases:
  assumes "issue_paper e x bank h risk amount = Ok (bank', h', cs)"
  obtains cover u raw where
    "live_cover (amount_held (fl_paper_vault x)) (decimals (fl_paper_mint x)) risk = Ok cover"
    "unfunded_bps bank cover = Some u" "FUND_ABOVE_BPS \<le> u" "backing_preflight e h risk = Ok (unix_timestamp e)"
    "min_order h \<le> amount" "amount \<le> max_order h" "sat_u64 (cover + amount) \<le> max_liability bank"
    "fl_destination x = issuance h" "from_accounting amount (decimals (fl_stable_mint x)) = Ok raw"
    "cs = [Transfer_checked (fl_stable_vault x) (mint_key (fl_stable_mint x)) (issuance h) raw (decimals (fl_stable_mint x))]"
    "bank' = bank\<lparr>paper_backed := cover\<rparr>"
    "h' = h\<lparr>spent := sat_u64 (spent h + amount), funded := cover, last_flow := unix_timestamp e\<rparr>"
  using assms
  by (auto simp: issue_paper_def flow_guard_def backing_preflight_def require_def Let_def bind_eq_Some_conv
      elim!: attempt_OkE split: if_splits)

lemma redeem_paper_cases:
  assumes "redeem_paper e x bank h risk raw_amount = Ok (bank', h', cs)"
  obtains cover u released left where
    "live_cover (amount_held (fl_paper_vault x)) (decimals (fl_paper_mint x)) risk = Ok cover"
    "unfunded_bps bank cover = Some u" "u \<le> RELEASE_BELOW_BPS" "backing_preflight e h risk = Ok (unix_timestamp e)"
    "0 < raw_amount" "raw_amount \<le> amount_held (fl_paper_vault x)"
    "released_basis (spent h) raw_amount (amount_held (fl_paper_vault x)) = Some released"
    "bank' = bank\<lparr>paper_backed := left, paper_in_transit := sat_u64 (paper_in_transit bank + released)\<rparr>"
    "h' = h\<lparr>spent := sat_u64 (spent h - released), funded := left, last_flow := unix_timestamp e\<rparr>"
  using assms
  by (auto simp: redeem_paper_def flow_guard_def backing_preflight_def require_def Let_def bind_eq_Some_conv
      elim!: attempt_OkE split: if_splits)

lemma preflight_cooldown:
  "backing_preflight e h risk = Ok t \<Longrightarrow> BACKING_COOLDOWN_SECS \<le> sat_i64 (unix_timestamp e - last_flow h) \<and> 0 < max_order h \<and>
    sat_i64 (as_i64 (clock_slot e) - last_price_slot (risk_actuary risk)) \<le> MAX_BACKING_STALENESS_SLOTS"
  by (auto simp: backing_preflight_def require_def split: if_splits)

lemma released_basis_range:
  assumes "released_basis basis raw held = Some r" "0 \<le> basis" "0 \<le> raw" "raw \<le> held"
  shows "0 \<le> r" "r \<le> basis" "raw = held \<Longrightarrow> 0 < held \<Longrightarrow> r = basis"
  using assms by (auto simp: released_basis_def bind_eq_Some_conv div_u_def div_nonneg split: if_splits)

lemma redeem_keeps_basis:
  assumes "redeem_paper e x bank h risk raw_amount = Ok (bank', h', cs)" "is_u64 (spent h)" "is_u64 (paper_in_transit bank)"
    "spent h + paper_in_transit bank \<le> U64_MAX"
  shows "spent h' + paper_in_transit bank' = spent h + paper_in_transit bank \<and> 0 \<le> spent h' \<and>
    (raw_amount = amount_held (fl_paper_vault x) \<longrightarrow> spent h' = 0)"
  using assms(1)
proof (rule redeem_paper_cases)
  fix cover u released left
  assume raw: "0 < raw_amount" "raw_amount \<le> amount_held (fl_paper_vault x)"
    and rel: "released_basis (spent h) raw_amount (amount_held (fl_paper_vault x)) = Some released"
    and b: "bank' = bank\<lparr>paper_backed := left, paper_in_transit := sat_u64 (paper_in_transit bank + released)\<rparr>"
    and h: "h' = h\<lparr>spent := sat_u64 (spent h - released), funded := left, last_flow := unix_timestamp e\<rparr>"
  have r: "0 \<le> released" "released \<le> spent h" "raw_amount = amount_held (fl_paper_vault x) \<Longrightarrow> released = spent h"
    using released_basis_range[OF rel] raw assms(2) by (auto simp: is_u64_def)
  then have "sat_u64 (spent h - released) = spent h - released" "sat_u64 (paper_in_transit bank + released) = paper_in_transit bank + released"
    using assms(2-4) by (auto simp: sat_u64_id is_u64_def)
  then show ?thesis using b h r by simp
qed

lemma flows_exclusive:
  assumes "issue_paper e x bank h risk amount = Ok r" "redeem_paper e' x' bank h risk raw_amount = Ok r'"
    "fl_paper_vault x' = fl_paper_vault x" "fl_paper_mint x' = fl_paper_mint x"
  shows False
proof -
  obtain b1 h1 c1 b2 h2 c2 where r: "r = (b1, h1, c1)" "r' = (b2, h2, c2)" by (cases r, cases r')
  show False
    using assms(1)[unfolded r] assms(2)[unfolded r] assms(3,4)
    by (elim issue_paper_cases redeem_paper_cases) auto
qed

lemma reconcile_books:
  assumes "reconcile e cfg bank h signer proceeds = Ok (bank', h')" "0 < paper_in_transit bank"
    "is_u64 (yield_pool bank)" "yield_pool bank + proceeds \<le> U64_MAX" "0 \<le> proceeds"
  shows "paper_in_transit bank' = 0 \<and> signer = cfg_admin cfg \<and>
    yield_pool bank' = max 0 (yield_pool bank + proceeds - paper_in_transit bank)"
  using assms by (auto simp: reconcile_def require_def Let_def bind_eq_Some_conv sat_u64_def clamp_def is_u64_def split: if_splits)

end
