(* ===== verification/Bridge.thy ===== *)
theory Bridge
  imports Sol
begin

section \<open>The bridge (LZ.rs, lib.rs: lz_receive)\<close>

text \<open>
  The token bridge over LayerZero. Sending burns local tokens and posts a message of
  forty bytes, a recipient and an amount in shared decimals; receiving checks the origin,
  clears the message at the endpoint, checks that the token account belongs to the
  recipient and mints. The endpoint and the token program are calls to other programs.
\<close>

abbreviation (input) ETHEREUM_EID :: int where "ETHEREUM_EID \<equiv> 30101"
abbreviation (input) OFT_BRIDGE_MSG_LEN :: nat where "OFT_BRIDGE_MSG_LEN \<equiv> 40"
abbreviation (input) SD_TO_LOCAL :: int where "SD_TO_LOCAL \<equiv> 1000"

record enforced_options =
  eo_send :: "int list"
  eo_send_and_call :: "int list"

record oapp_store =
  store_key :: pubkey
  store_admin :: pubkey
  store_bump :: int
  peer_address :: "int list"
  store_mint :: pubkey
  store_options :: enforced_options

record lz_receive_params =
  lz_src_eid :: int
  lz_sender :: "int list"
  lz_nonce :: int
  lz_guid :: "int list"
  lz_message :: "int list"

record lz_account =
  la_pubkey :: pubkey
  la_signer :: bool
  la_writable :: bool

definition get_enforced_options :: "enforced_options \<Rightarrow> int list option \<Rightarrow> int list" where
  "get_enforced_options opts composed = (if composed = None then eo_send opts else eo_send_and_call opts)"

definition wrap_in_oft_format :: "int list \<Rightarrow> int \<Rightarrow> int list" where
  "wrap_in_oft_format send_to amount_sd = send_to @ be_bytes 8 amount_sd"

definition bridge_home :: "env \<Rightarrow> oapp_store \<Rightarrow> mint_account \<Rightarrow> token_account \<Rightarrow> pubkey \<Rightarrow> int \<Rightarrow> int list \<Rightarrow> int \<Rightarrow>
    call list result" where
  "bridge_home e store mint from signer amount recipient20 native_fee =
     require (mint_key mint = store_mint store) InvalidMint (
     require (token_mint_of from = store_mint store) InvalidMint (
     require (token_owner from = signer) Unauthorized (
       let amount_sd = amount div SD_TO_LOCAL in
       require (amount_sd > 0) InvalidAmount (do {
         let burn = Burn_tokens (token_key from) (mint_key mint) (sat_u64 (amount_sd * SD_TO_LOCAL));
         _ \<leftarrow> invoke e burn;
         let send = Endpoint_send ETHEREUM_EID (peer_address store) (wrap_in_oft_format (replicate 12 0 @ recipient20) amount_sd)
                      (get_enforced_options (store_options store) None) native_fee;
         _ \<leftarrow> invoke e send;
         Ok [burn, send]
       }))))"

definition handle_oft_receive :: "env \<Rightarrow> pubkey \<Rightarrow> int list \<Rightarrow> account_info \<Rightarrow> account_info \<Rightarrow> call list result" where
  "handle_oft_receive e expected_mint message mint recipient =
     require (length message \<ge> OFT_BRIDGE_MSG_LEN) InvalidMessageFormat (
     require (expected_mint \<noteq> default_key) InvalidParameters (
       let to_bytes = take 32 message;
           amount_sd = be_value (slice 32 8 message) in
       require (amount_sd > 0) InvalidParameters (
       require (ai_key mint = expected_mint) InvalidMint (
       require (length (ai_data recipient) \<ge> 64) InvalidParameters (
       require (slice 32 32 (ai_data recipient) = to_bytes) InvalidParameters (
       attempt (ok_or (u64 (amount_sd * SD_TO_LOCAL)) InvalidParameters) (\<lambda>amount_local. do {
         let c = Mint_to (ai_key mint) (ai_key recipient) amount_local;
         _ \<leftarrow> invoke e c;
         Ok [c]
       })))))))"

definition lz_receive :: "env \<Rightarrow> oapp_store \<Rightarrow> lz_receive_params \<Rightarrow> account_info list \<Rightarrow> call list result" where
  "lz_receive e store params accts =
     require (length (lz_message params) = OFT_BRIDGE_MSG_LEN) InvalidMessageFormat (
     require (length accts \<ge> 3) InsufficientAccounts (
     require (lz_src_eid params = ETHEREUM_EID) InvalidParameters (
     require (peer_address store = lz_sender params) InvalidParameters (do {
       let clear = Endpoint_clear (store_key store) (lz_src_eid params) (lz_sender params) (lz_nonce params)
                     (lz_guid params) (lz_message params);
       _ \<leftarrow> invoke e clear;
       attempt (handle_oft_receive e (store_mint store) (lz_message params) (accts ! 0) (accts ! 1))
         (\<lambda>cs. Ok (clear # cs))
     }))))"

definition lz_receive_types_handler :: "env \<Rightarrow> oapp_store \<Rightarrow> account_info \<Rightarrow> lz_receive_params \<Rightarrow> lz_account list result" where
  "lz_receive_types_handler e store mint params =
     require (ai_key mint = store_mint store) InvalidMint (
     require (length (lz_message params) = OFT_BRIDGE_MSG_LEN) InvalidMessageFormat (
     require (lz_src_eid params = ETHEREUM_EID) InvalidParameters (
       let recipient = nat (be_value (take 32 (lz_message params)));
           prog = ai_owner mint in
       Ok [\<lparr>la_pubkey = store_mint store, la_signer = False, la_writable = True\<rparr>,
           \<lparr>la_pubkey = ata_address e recipient (store_mint store) prog, la_signer = False, la_writable = True\<rparr>,
           \<lparr>la_pubkey = prog, la_signer = False, la_writable = False\<rparr>])))"

text \<open>The upgrade authority recorded in the program's data account.\<close>

definition check_upgrade_authority :: "int list \<Rightarrow> pubkey \<Rightarrow> unit result" where
  "check_upgrade_authority data payer =
     (if length data < 45 then Err InvalidParameters
      else if le_value (slice 0 4 data) \<noteq> 3 then Err InvalidParameters
      else if data ! 12 \<noteq> 1 then Err Unauthorized
      else require (nat (be_value (slice 13 32 data)) = payer) Unauthorized (Ok ()))"

definition init_oapp_store_handler :: "env \<Rightarrow> program_config \<Rightarrow> pubkey \<Rightarrow> pubkey \<Rightarrow> account_info \<Rightarrow> pubkey \<Rightarrow> int \<Rightarrow>
    int list \<Rightarrow> pubkey \<Rightarrow> int list \<Rightarrow> account_info list \<Rightarrow> (oapp_store \<times> call list) result" where
  "init_oapp_store_handler e cfg payer prog program_data key bump peer mint options remaining =
     require (programdata_address e prog = ai_key program_data) InvalidParameters (
     attempt (check_upgrade_authority (ai_data program_data) payer) (\<lambda>_.
     require (mint = cfg_token_mint cfg) InvalidMint (do {
       let store = \<lparr>store_key = key, store_admin = payer, store_bump = bump, peer_address = peer,
                    store_mint = mint, store_options = \<lparr>eo_send = options, eo_send_and_call = []\<rparr>\<rparr>;
       if remaining \<noteq> [] then do {
         _ \<leftarrow> invoke e (Endpoint_register payer);
         Ok (store, [Endpoint_register payer])
       }
       else Ok (store, [])
     })))"

subsection \<open>Messages\<close>

lemma be_bytes_length [simp]: "length (be_bytes n x) = n"
  by (simp add: be_bytes_def)

lemma wrap_decode:
  assumes "length to = 32" "is_u64 amount_sd"
  shows "length (wrap_in_oft_format to amount_sd) = OFT_BRIDGE_MSG_LEN" "take 32 (wrap_in_oft_format to amount_sd) = to"
    "be_value (slice 32 8 (wrap_in_oft_format to amount_sd)) = amount_sd"
  using assms be_round_trip[of amount_sd] by (simp_all add: wrap_in_oft_format_def slice_def)

lemma bridge_home_burns:
  assumes "bridge_home e store mint from signer amount to20 fee = Ok cs" "0 \<le> amount" "amount \<le> U64_MAX" "length to20 = 20"
  shows "\<exists>msg. cs = [Burn_tokens (token_key from) (mint_key mint) (be_value (slice 32 8 msg) * SD_TO_LOCAL),
            Endpoint_send ETHEREUM_EID (peer_address store) msg (eo_send (store_options store)) fee] \<and>
      take 32 msg = replicate 12 0 @ to20 \<and> be_value (slice 32 8 msg) * SD_TO_LOCAL \<le> amount \<and>
      amount < be_value (slice 32 8 msg) * SD_TO_LOCAL + SD_TO_LOCAL \<and> token_owner from = signer"
proof -
  define sd where "sd = amount div SD_TO_LOCAL"
  have sd: "0 \<le> sd" "sd * 1000 \<le> amount" "amount < sd * 1000 + 1000" "is_u64 sd"
    using assms(2,3) by (auto simp: sd_def is_u64_def)
  have len: "length (replicate 12 0 @ to20) = 32" using assms(4) by simp
  have s: "sat_u64 (sd * 1000) = sd * 1000" using sd assms(3) by (simp add: sat_u64_id is_u64_def)
  define msg where "msg = wrap_in_oft_format (replicate 12 0 @ to20) sd"
  have "cs = [Burn_tokens (token_key from) (mint_key mint) (sd * 1000),
      Endpoint_send ETHEREUM_EID (peer_address store) msg (eo_send (store_options store)) fee] \<and> token_owner from = signer"
    using assms(1) s unfolding bridge_home_def sd_def[symmetric] Let_def
    by (auto simp: require_def bind_eq_Some_conv get_enforced_options_def msg_def split: if_splits)
  moreover have "be_value (slice 32 8 msg) = sd" "take 32 msg = replicate 12 0 @ to20"
    using wrap_decode[OF len sd(4)] by (simp_all add: msg_def)
  ultimately show ?thesis using sd by (intro exI[of _ msg]) simp
qed

lemma handle_oft_receive_mints:
  assumes "handle_oft_receive e expected msg mint recipient = Ok cs"
  shows "cs = [Mint_to expected (ai_key recipient) (be_value (slice 32 8 msg) * SD_TO_LOCAL)]"
    "slice 32 32 (ai_data recipient) = take 32 msg" "0 < be_value (slice 32 8 msg)" "expected \<noteq> default_key"
  using assms by (auto simp: handle_oft_receive_def require_def Let_def bind_eq_Some_conv elim!: attempt_OkE split: if_splits)

lemma lz_receive_checked:
  assumes "lz_receive e store params accts = Ok cs"
  shows "lz_src_eid params = ETHEREUM_EID \<and> lz_sender params = peer_address store \<and>
    slice 32 32 (ai_data (accts ! 1)) = take 32 (lz_message params) \<and>
    cs = [Endpoint_clear (store_key store) (lz_src_eid params) (lz_sender params) (lz_nonce params) (lz_guid params) (lz_message params),
          Mint_to (store_mint store) (ai_key (accts ! 1)) (be_value (slice 32 8 (lz_message params)) * SD_TO_LOCAL)]"
  using assms by (auto simp: lz_receive_def require_def Let_def bind_eq_Some_conv handle_oft_receive_mints
      elim!: attempt_OkE split: if_splits)

lemma oft_receive_wrapped:
  assumes "length to = 32" "0 < sd" "sd * SD_TO_LOCAL \<le> U64_MAX" "expected \<noteq> default_key" "ai_key mint = expected"
    "64 \<le> length (ai_data recipient)" "slice 32 32 (ai_data recipient) = to"
    "succeeds e (Mint_to expected (ai_key recipient) (sd * SD_TO_LOCAL))"
  shows "handle_oft_receive e expected (wrap_in_oft_format to sd) mint recipient =
    Ok [Mint_to expected (ai_key recipient) (sd * SD_TO_LOCAL)]"
proof -
  have u: "is_u64 sd" "is_u64 (sd * 1000)" using assms(2,3) by (auto simp: is_u64_def)
  show ?thesis using assms wrap_decode[OF assms(1) u(1)] u
    by (simp add: handle_oft_receive_def require_def invoke_def ok_or_def)
qed

lemma init_oapp_authority:
  assumes "init_oapp_store_handler e cfg payer prog pd key bump peer mint options remaining = Ok (store, cs)"
  shows "nat (be_value (slice 13 32 (ai_data pd))) = payer" "programdata_address e prog = ai_key pd"
    "store_mint store = cfg_token_mint cfg" "store_admin store = payer"
  using assms by (auto simp: init_oapp_store_handler_def check_upgrade_authority_def require_def Let_def bind_eq_Some_conv
      elim!: attempt_OkE split: if_splits)

text \<open>The message a burn sends, read by the receiving side, mints what was burned.\<close>

lemma bridge_home_received:
  assumes "bridge_home e store mint from signer amount to20 fee = Ok cs" "0 \<le> amount" "amount \<le> U64_MAX" "length to20 = 20"
    "expected \<noteq> default_key" "ai_key rmint = expected" "64 \<le> length (ai_data recipient)"
    "slice 32 32 (ai_data recipient) = replicate 12 0 @ to20" "\<And>n. succeeds e' (Mint_to expected (ai_key recipient) n)"
  shows "\<exists>burned msg. cs = [Burn_tokens (token_key from) (mint_key mint) burned,
      Endpoint_send ETHEREUM_EID (peer_address store) msg (eo_send (store_options store)) fee] \<and>
    burned \<le> amount \<and> amount < burned + SD_TO_LOCAL \<and>
    handle_oft_receive e' expected msg rmint recipient = Ok [Mint_to expected (ai_key recipient) burned]"
proof -
  define sd where "sd = amount div SD_TO_LOCAL"
  have b: "sd * SD_TO_LOCAL \<le> amount" "amount < sd * SD_TO_LOCAL + SD_TO_LOCAL"
    using pos_mod_bound[of 1000 amount] pos_mod_sign[of 1000 amount] div_mult_mod_eq[of amount 1000] unfolding sd_def by linarith+
  have s: "0 < sd" "cs = [Burn_tokens (token_key from) (mint_key mint) (sat_u64 (sd * SD_TO_LOCAL)),
      Endpoint_send ETHEREUM_EID (peer_address store) (wrap_in_oft_format (replicate 12 0 @ to20) sd) (eo_send (store_options store)) fee]"
    using assms(1) unfolding bridge_home_def sd_def[symmetric] Let_def
    by (auto simp: require_def bind_eq_Some_conv get_enforced_options_def split: if_splits)
  have u: "sat_u64 (sd * SD_TO_LOCAL) = sd * SD_TO_LOCAL" using b s(1) assms(3) by (intro sat_u64_id) (simp add: is_u64_def)
  have "handle_oft_receive e' expected (wrap_in_oft_format (replicate 12 0 @ to20) sd) rmint recipient = Ok [Mint_to expected (ai_key recipient) (sd * SD_TO_LOCAL)]"
    using assms b s(1) by (intro oft_receive_wrapped) simp_all
  then show ?thesis using s(2) u b by auto
qed

end
