(* ===== verification/Samples.thy ===== *)
theory Samples
  imports Handlers Backing Bridge
begin

section \<open>Sample states\<close>

text \<open>
  Concrete states at which the properties are exercised: the statistics of a ticker after
  two prints, a pool, a depositor with one position, a runtime environment with simple
  stand-ins for the parts of the chain that are parameters of the model, and a signed price
  account. None of them models code.
\<close>

definition accepted :: "('e, 'a) outcome \<Rightarrow> bool" where
  "accepted m = (case m of Some (Inr _) \<Rightarrow> True | _ \<Rightarrow> False)"

definition first_stats :: actuary where
  "first_stats = \<lparr>observed_vol_bps = 400, max_drawdown_bps = 800, last_price = 100000000,
     last_price_slot = 1000, last_trade_slot = 1000, jump_count = 0, velocity = 0, momentum_bps = 0,
     net_exposure = 0, premium_index = 0, index_updated = 0, total_exposure = 0,
     twap_price = 100000000, obs_count = 1, exceed_count = 0, exceed_sum = 0, exceed_sumsq = 0,
     shortfall_bps = 796, downside_vol_bps = 0, gap_vol_bps = 0, gap_max_bps = 0,
     gap_count = 0, window_ref_price = 0, window_since = 0, experience_bps = 0,
     funding_index = 0\<rparr>"

definition sample_stats :: actuary where
  "sample_stats = \<lparr>observed_vol_bps = 400, max_drawdown_bps = 800, last_price = 101000000,
     last_price_slot = 2000, last_trade_slot = 1000, jump_count = 0, velocity = 0, momentum_bps = 0,
     net_exposure = 0, premium_index = 0, index_updated = 0, total_exposure = 0,
     twap_price = 100060600, obs_count = 1, exceed_count = 0, exceed_sum = 0, exceed_sumsq = 0,
     shortfall_bps = 796, downside_vol_bps = 0, gap_vol_bps = 0, gap_max_bps = 0,
     gap_count = 0, window_ref_price = 100000000, window_since = 1000, experience_bps = 0,
     funding_index = 0\<rparr>"

text \<open>The same after a first trade of five hundred dollars, long.\<close>

definition traded_stats :: actuary where
  "traded_stats = sample_stats\<lparr>last_trade_slot := 2000, net_exposure := 500000000, total_exposure := 500000000\<rparr>"

text \<open>The same with a premium index that has run since.\<close>

definition indexed_stats :: actuary where
  "indexed_stats = sample_stats\<lparr>premium_index := 500000000\<rparr>"

definition sample_risk :: ticker_risk where
  "sample_risk = \<lparr>tr_ticker = pad_ticker ''TSLA'', risk_actuary = sample_stats, tr_bump = 255,
     funding_pot = 1000000, tr_reserved = 0\<rparr>"

definition busy_risk :: ticker_risk where
  "busy_risk = sample_risk\<lparr>risk_actuary := traded_stats, tr_reserved := 200000000\<rparr>"

definition sample_bank :: depository where
  "sample_bank = depository_default\<lparr>total_deposits := 1000000000000, yield_pool := 1000000000,
     total_deposit_seconds := 1000000000000000, bank_last_updated := 5000,
     sol_lamports := 500000000000\<rparr>"

definition sample_pod :: stock where
  "sample_pod = \<lparr>pod_ticker = pad_ticker ''TSLA'', pledged = 200000000, exposure = 2000000, updated = 5000,
     pod_collar_bps = 0, cost_basis = 200000000, interest_paid = 0, collar_dollar_seconds = 0,
     collar_dollars = 0, premium_checkpoint = 0, funding_checkpoint = 0, marked = 0, breached_at = 0\<rparr>"

text \<open>A long of five times its pledge, marked at its entry, and a short marked the same way.\<close>

definition levered_pod :: stock where
  "levered_pod = sample_pod\<lparr>pledged := 40000000, marked := 200000000\<rparr>"

definition short_pod :: stock where
  "short_pod = sample_pod\<lparr>exposure := -2000000, marked := 200000000\<rparr>"

definition sample_depositor :: depositor where
  "sample_depositor = \<lparr>owner = 42, deposited_quid = 1000000000, deposited_lamports = 0, sol_pledged_usd = 0,
     deposit_seconds = 1000000000000, last_updated = 5000, drawn = 0, balances = [sample_pod], realized_pnl = 0,
     total_interest_paid = 0, total_collar_dollar_seconds = 0, sol_yield_checkpoint = 0\<rparr>"

definition two_positions :: depositor where
  "two_positions = sample_depositor\<lparr>balances := [sample_pod\<lparr>exposure := 1000000, marked := 100000000\<rparr>,
     sample_pod\<lparr>pod_ticker := pad_ticker ''NVDA''\<rparr>]\<rparr>"

definition sample_env :: env where
  "sample_env = \<lparr>unix_timestamp = 6000, clock_slot = 3000, feed_hex = (\<lambda>_. Some (replicate 64 (CHR ''0''))),
     feed_account = (\<lambda>_. Some ''feed''), base58 = (\<lambda>_. ''feed''), from_base58 = (\<lambda>_. Some 1),
     f64_price = (\<lambda>p x. p), program_id = 7, token_id = 8, token_2022_id = 9, associated_token_id = 10,
     vault_address = (\<lambda>k. k + 100), vault_with_bump = (\<lambda>k b. Some (k + 100)), depositor_address = (\<lambda>k. k + 1000),
     ata_address = (\<lambda>a b c. a + b + c), programdata_address = (\<lambda>k. k + 2000), rent_floor = 0,
     kestrel_minted = (\<lambda>x. (x, 0)), kestrel_burned = (\<lambda>x. x), succeeds = (\<lambda>_. True)\<rparr>"

definition sol_feed_id :: "int list" where
  "sol_feed_id = [239, 13, 139, 111, 218, 44, 235, 164, 29, 161, 93, 64, 149, 209, 218, 57,
     42, 13, 47, 142, 208, 198, 199, 188, 15, 76, 250, 200, 194, 128, 181, 109]"

definition feed_bytes :: "int list \<Rightarrow> int \<Rightarrow> int \<Rightarrow> int \<Rightarrow> int list" where
  "feed_bytes feed price conf time =
     replicate 41 0 @ feed @ le_bytes 8 price @ le_bytes 8 conf @ le_bytes 4 0 @ le_bytes 8 time"

definition sol_feed :: account_info where
  "sol_feed = \<lparr>ai_key = 1, ai_data = feed_bytes sol_feed_id 150000000 100000 5990, ai_owner = 5, ai_writable = False\<rparr>"

definition sample_payer :: payer where
  "sample_payer = \<lparr>pay_vault = \<lparr>token_key = 103, token_mint_of = 3, token_owner = 1, amount_held = 900000000\<rparr>,
     pay_mint = \<lparr>mint_key = 3, decimals = 6\<rparr>, pay_user = 42, pay_registered = [3]\<rparr>"

definition funded_risk :: ticker_risk where
  "funded_risk = sample_risk\<lparr>risk_actuary := traded_stats\<lparr>funding_index := 10000000000\<rparr>\<rparr>"

definition swept_account :: sweep_account where
  "swept_account = \<lparr>sw_key = 1042, sw_owner = 7, sw_writable = True, sw_depositor = Some sample_depositor\<rparr>"

definition parking_config :: program_config where
  "parking_config = (init_config 1 3 0)\<lparr>kestrel_program := 50, sol_star_mint := 51, sol_buffer_bps := 6000, sol_star_haircut_bps := 100, sol_park_band_bps := 4000\<rparr>"

definition sample_legs :: sol_star_legs where
  "sample_legs = \<lparr>leg_pool = 20, leg_pool_wsol = \<lparr>ai_key = 21, ai_data = [], ai_owner = 8, ai_writable = True\<rparr>,
     leg_pool_sol_star = \<lparr>ai_key = 22, ai_data = [], ai_owner = 8, ai_writable = True\<rparr>, leg_token_program = 8\<rparr>"

definition idle_flash :: flash_loan where
  "idle_flash = \<lparr>flash_lamports = 0, flash_token_mint = default_key, flash_token_amount = 0\<rparr>"

definition flash_config :: program_config where
  "flash_config = (init_config 1 3 0)\<lparr>flash_authority := 60\<rparr>"

text \<open>The instructions that follow a borrow: one of another program, then the repayment.\<close>

definition repay_later :: "instruction list" where
  "repay_later = [(99, [1, 2, 3]), (7, FLASH_REPAY_DISC @ [0, 0, 0, 0])]"

definition sample_backing :: backing where
  "sample_backing = \<lparr>bk_bump = 0, bk_mint = 70, issuance = 71, redemption = 72, funded = 300000000, spent = 300000000,
     min_order = 100000000, max_order = 900000000, last_flow = 0\<rparr>"

definition sample_flow :: flow_accounts where
  "sample_flow = \<lparr>fl_config = init_config 1 3 0, fl_stable_mint = \<lparr>mint_key = 3, decimals = 6\<rparr>, fl_stable_vault = 103,
     fl_paper_mint = \<lparr>mint_key = 70, decimals = 6\<rparr>,
     fl_paper_vault = \<lparr>token_key = 73, token_mint_of = 70, token_owner = 1, amount_held = 3000000\<rparr>, fl_destination = 72\<rparr>"

definition sample_store :: oapp_store where
  "sample_store = \<lparr>store_key = 80, store_admin = 1, store_bump = 0, peer_address = replicate 32 9, store_mint = 3,
     store_options = \<lparr>eo_send = [1], eo_send_and_call = []\<rparr>\<rparr>"

text \<open>A token account owned by the Ethereum-style address of twenty sevens.\<close>

definition token_home :: account_info where
  "token_home = \<lparr>ai_key = 81, ai_data = replicate 32 0 @ replicate 12 0 @ replicate 20 7, ai_owner = 8, ai_writable = True\<rparr>"

definition sample_params :: lz_receive_params where
  "sample_params = \<lparr>lz_src_eid = ETHEREUM_EID, lz_sender = replicate 32 9, lz_nonce = 1, lz_guid = [],
     lz_message = wrap_in_oft_format (replicate 12 0 @ replicate 20 7) 1500\<rparr>"

lemma acceptedE:
  assumes "accepted m"
  obtains x where "m = Ok x"
  using assms by (auto simp: accepted_def split: option.splits sum.splits)

lemma first_print: "update_price actuary_default 100000000 1000 = Some first_stats"
  by code_simp

lemma second_print: "update_price first_stats 101000000 2000 = Some sample_stats"
  by code_simp

lemma sample_reach: "ticker_reach 2000 sample_stats"
proof -
  have "ticker_reach 1000 actuary_default" by (rule wait[OF start]) simp_all
  then have "ticker_reach 1000 first_stats" by (rule print[OF _ _ _ first_print]) simp_all
  then have "ticker_reach 2000 first_stats" by (rule wait) simp_all
  then show ?thesis by (rule print[OF _ _ _ second_print]) simp_all
qed

lemma first_trade: "record_activity sample_stats 0 500000000 2000 500000000 1000000000000 = Some traded_stats"
  by code_simp

lemma traded_reach: "ticker_reach 2000 traded_stats"
  by (rule trade[OF sample_reach first_trade])

lemma sample_wf: "engine_wf 2000 sample_stats" "rated sample_stats" "rated traded_stats"
  using ticker_reach_wf[OF sample_reach] ticker_reach_wf[OF traded_reach] engine_rated by auto

lemma sample_bank_wf: "bank_wf sample_bank"
  by (simp add: bank_wf_def sample_bank_def depository_default_def ranges)

lemma sample_pod_wf: "pod_wf sample_pod"
  by (simp add: pod_wf_def sample_pod_def ranges)

lemma levered_pod_wf: "pod_wf levered_pod"
  by (simp add: pod_wf_def levered_pod_def sample_pod_def ranges)

lemma sample_depositor_wf: "dep_wf sample_depositor"
  by (simp add: dep_wf_def sample_depositor_def sample_pod_wf ranges)

end
