(* ===== verification/Further.thy ===== *)
theory Further
  imports Samples
begin

text \<open>
  Further facts about the Solana program, each with an application at a concrete state: what
  trades, drains, releases, payments and parking do on particular branches. The root theory holds
  the main properties.
\<close>

lemma sample_update:
  "update_config (init_config 1 3 0) None 1 None None (Some \<lparr>k_program = 50, k_sol_star_mint = 51, buffer_bps = 6000, haircut_bps = 100, park_band_bps = 4000\<rparr>) =
   Ok ((init_config 1 3 0)\<lparr>kestrel_program := 50, sol_star_mint := 51, sol_buffer_bps := 6000, sol_star_haircut_bps := 100, sol_park_band_bps := 4000\<rparr>)"
  by (simp add: update_config_def check_kestrel_def init_config_def require_def)

lemma parking_reach: "config_reach parking_config"
  using config_reach.updated_by[OF config_reach.created _ sample_update] by (simp add: kestrel_u16_def is_u16_def parking_config_def)

lemma sample_borrow:
  "handle_flash_borrow sample_env flash_config sample_bank idle_flash 60 61 20 repay_later [] 100000000000 0 0 =
   Ok (sample_bank\<lparr>sol_usd_contrib := 0, sol_lamports := 400000000000\<rparr>, idle_flash\<lparr>flash_lamports := 100000000000\<rparr>, [System_transfer 20 61 100000000000])"
  by (simp add: handle_flash_borrow_def require_def flash_config_def init_config_def idle_flash_def repay_later_def FLASH_REPAY_DISC_def
      sample_env_def invoke_def sample_bank_def sat_u64_def clamp_def)

section \<open>The price engine\<close>

text \<open>
  The integer square root's Newton loop ends and returns the floor of the root, on the
  whole range it is called with.
\<close>

theorem newton_sqrt_floor:
  assumes "0 \<le> x" "x \<le> 4611686018427387903"
  shows "\<exists>s. newton_sqrt x = Some s \<and> 0 \<le> s \<and> s * s \<le> x \<and> x < (s + 1) * (s + 1)"
  using okD[OF newton_sqrt_ok[OF assms]] by blast

theorem newton_sqrt_floor_witness:
  "\<exists>s. newton_sqrt 1000000007 = Some s \<and> 0 \<le> s \<and> s * s \<le> 1000000007 \<and> (1000000007 :: int) < (s + 1) * (s + 1)"
  by (rule newton_sqrt_floor) simp_all

text \<open>
  No sequence of prints, trades and accruals makes the momentum of a ticker negative, so
  the surcharge and the rebate that the fee derives from a cascade (negative momentum) are
  never applied: the multiplier is always one hundred percent.
\<close>

theorem cascade_branch_dead:
  assumes "ticker_reach slot a"
  shows "0 \<le> momentum_bps a \<and> mom_mult a adding = 100"
  using ticker_reach_wf[OF assms] mom_mult_nonneg by blast

theorem cascade_branch_dead_witness: "0 \<le> momentum_bps traded_stats \<and> mom_mult traded_stats True = 100"
  by (rule cascade_branch_dead[OF traded_reach])

text \<open>
  Once the net book of a ticker is beyond 922,337,203.685477 dollars in either direction,
  the crowding factor overflows, and the premium rate of any trade on it aborts, the trades
  that would reduce the net included.
\<close>

theorem crowding_aborts_large_net:
  assumes "922337203685477 < \<bar>get_net s\<bar>" "0 < get_total s" "amount \<noteq> 0"
  shows "crowding_bps s amount = None \<and> hazard_rate_bps distance collar amount s dep liab = None"
  using crowding_overflow[OF assms] by (auto simp: hazard_rate_bps_def bind_eq_None_conv)

theorem crowding_aborts_large_net_witness:
  "hazard_rate_bps 100 100 (-1) (sample_stats\<lparr>net_exposure := 922337203685478, total_exposure := 922337203685478\<rparr>) 0 0 = None"
  using crowding_aborts_large_net[of "sample_stats\<lparr>net_exposure := 922337203685478, total_exposure := 922337203685478\<rparr>" "-1" 100 100 0 0]
  by simp

section \<open>Positions\<close>

text \<open>
  The books of a tranche do not balance. When the slice is worth at least its share of
  the pledge, the credit the pool takes and the fall of the pledge differ by the slice's
  value less its share of the pledge: money the pool books and nobody paid.
\<close>

theorem tranche_books_gap:
  assumes "pod_wf pod" "exposure pod \<noteq> 0" "0 \<le> ex" "ex \<le> 900000000000000"
    "amortise_tranche pod price ex util a oev now = Some (pod', dollars, r)"
    "tranche_of pod price ex util = Some tranche" "units_value tranche price \<le> I64_MAX"
    "pledged pod * tranche div \<bar>exposure pod\<bar> \<le> units_value tranche price"
  shows "- dollars + (pledged pod' - pledged pod) = units_value tranche price - pledged pod * tranche div \<bar>exposure pod\<bar>"
  by (rule amortise_tranche_books[OF assms])

lemma levered_tranche:
  "amortise_tranche levered_pod 90000000 7200 500 sample_stats 180000000 6000 \<noteq> None"
  "tranche_of levered_pod 90000000 7200 500 = Some 5000" "units_value 5000 90000000 = 450000"
  by code_simp+

theorem tranche_books_gap_witness:
  "\<exists>pod' dollars r. amortise_tranche levered_pod 90000000 7200 500 sample_stats 180000000 6000 = Some (pod', dollars, r) \<and>
     - dollars + (pledged pod' - 40000000) = 350000"
proof -
  obtain pod' dollars r where t: "amortise_tranche levered_pod 90000000 7200 500 sample_stats 180000000 6000 = Some (pod', dollars, r)"
    using levered_tranche(1) by fastforce
  have "- dollars + (pledged pod' - 40000000) = 350000"
    using tranche_books_gap[OF levered_pod_wf _ _ _ t levered_tranche(2)] by (simp add: levered_tranche(3)) (simp add: levered_pod_def sample_pod_def)
  with t show ?thesis by blast
qed

text \<open>
  Closing part of a position moves its pledge without loss: what is released and what
  stays add up to the pledge, nothing negative is released, and the exposure, already cut
  by the caller, and the ticker are left alone.
\<close>

theorem partial_close_conserves:
  assumes "settle_partial_close pod a oev cv pv price now acc = Some (pod', rel, cbr, ioc, raroc, full)" "pod_wf pod" "0 \<le> cv"
  shows "pledged pod' + rel = pledged pod \<and> 0 \<le> rel \<and> full = (exposure pod = 0) \<and> exposure pod' = exposure pod \<and>
    pod_ticker pod' = pod_ticker pod"
  using settle_partial_close_conserves[OF assms] by simp

lemma sample_partial_close: "settle_partial_close sample_pod sample_stats 200000000 50000000 200000000 100000000 6000 100000 \<noteq> None"
  by code_simp

theorem partial_close_conserves_witness:
  "\<exists>pod' rel cbr ioc raroc full. settle_partial_close sample_pod sample_stats 200000000 50000000 200000000 100000000 6000 100000 =
     Some (pod', rel, cbr, ioc, raroc, full) \<and> pledged pod' + rel = 200000000 \<and> \<not> full"
proof -
  obtain pod' rel cbr ioc raroc full where r: "settle_partial_close sample_pod sample_stats 200000000 50000000 200000000 100000000 6000 100000 =
     Some (pod', rel, cbr, ioc, raroc, full)" using sample_partial_close by (auto simp: not_None_eq)
  have "pledged pod' + rel = 200000000" "\<not> full" using partial_close_conserves[OF r sample_pod_wf] by (simp_all add: sample_pod_def)
  with r show ?thesis by blast
qed

text \<open>
  The premium billed is the accrued rate on the position's value over the time, and the
  whole time is billed, as long as the pledge can pay it; when it cannot, the pledge is taken
  and no more, and no more time is billed than has passed.
\<close>

theorem premium_billed_from_pledge:
  assumes "0 \<le> v" "v \<le> U64_MAX" "0 \<le> r" "r \<le> 50000" "0 \<le> dt" "dt \<le> 4294967296" "0 \<le> base" "base \<le> 4294967296000000"
    "0 \<le> p" "p \<le> U64_MAX"
  shows "(v * (base + r * dt) div (31536000 * 10000) \<le> p \<longrightarrow>
      premium_due v r dt base p = (v * (base + r * dt) div (31536000 * 10000), dt)) \<and>
    0 \<le> fst (premium_due v r dt base p) \<and> fst (premium_due v r dt base p) \<le> p \<and>
    0 \<le> snd (premium_due v r dt base p) \<and> snd (premium_due v r dt base p) \<le> dt"
  using premium_due_accrued[OF assms(1-8) _ assms(10)] premium_due_bound[OF assms(1,9), of r dt base] assms(5) by simp

theorem premium_billed_from_pledge_witness:
  "premium_due 200000000 500 86400 1000000 40000000 = (200000000 * (1000000 + 500 * 86400) div (31536000 * 10000), 86400)"
  using premium_billed_from_pledge[of 200000000 500 86400 1000000 40000000] by simp

section \<open>Trading and unwinding\<close>

text \<open>
  A trade or an unwinding in one ticker, on whichever of its branches, leaves every
  position in another ticker and the account's owner exactly as they were.
\<close>

theorem repo_touches_one_position:
  assumes "repo d t amount price now slot a bank = Ok (d', bank', delta, interest)" "t' \<noteq> pad_ticker t"
  shows "pod_at t' d' = pod_at t' d \<and> owner d' = owner d"
  using commitsD[OF repo_other_tickers[OF assms(2)] assms(1)] by simp

lemma sample_add: "accepted (repo two_positions ''TSLA'' 500000 101000000 6000 3000 indexed_stats sample_bank)"
  by code_simp

theorem repo_touches_one_position_witness:
  "\<exists>d' bank' delta interest. repo two_positions ''TSLA'' 500000 101000000 6000 3000 indexed_stats sample_bank =
     Ok (d', bank', delta, interest) \<and> pod_at (pad_ticker ''NVDA'') d' = Some (sample_pod\<lparr>pod_ticker := pad_ticker ''NVDA''\<rparr>)"
proof -
  obtain d' bank' delta interest where r: "repo two_positions ''TSLA'' 500000 101000000 6000 3000 indexed_stats sample_bank =
     Ok (d', bank', delta, interest)" using acceptedE[OF sample_add] by (metis prod_cases4)
  have "pad_ticker ''NVDA'' \<noteq> pad_ticker ''TSLA''" by code_simp
  from repo_touches_one_position[OF r this] have "pod_at (pad_ticker ''NVDA'') d' = pod_at (pad_ticker ''NVDA'') two_positions" ..
  also have "\<dots> = Some (sample_pod\<lparr>pod_ticker := pad_ticker ''NVDA''\<rparr>)" by code_simp
  finally show ?thesis using r by blast
qed

text \<open>
  When the owner adds to a long inside its band, no money is made or lost: balance,
  pledge and the premium billed add up to the balance and the pledge before. The balance is
  not overdrawn, the new position is margined or the balance is spent, and the pool had the
  capacity for it.
\<close>

theorem add_long_conserves:
  assumes "find_pod (pad_ticker t) (balances d) = Some i" "pod = balances d ! i" "0 < price"
    "position_quote pod amount price now slot a bank = Some q" "0 < amount" "0 \<le> exposure pod" "exposure pod + amount \<le> I64_MAX"
    "q_old_value q \<le> sat_u64 (q_mark q + q_collar_amt q)"
    "sat_u64 (q_mark q - q_trigger_amt q) \<le> q_old_value q \<or> q_old_value q = 0" "0 \<le> q_old_value q"
    "is_u64 (deposited_quid d)" "is_u64 (pledged pod)" "deposited_quid d + pledged pod \<le> U64_MAX" "0 \<le> q_accrued q"
    "repo d t amount price now slot a bank = Ok (d', bank', delta, interest)"
  shows "deposited_quid d' + pledged (balances d' ! i) + interest = deposited_quid d + pledged pod \<and> 0 \<le> deposited_quid d' \<and>
    interest = q_accrued q \<and>
    (share_of (value_at (balances d' ! i) price) (q_band_bps q) \<le> pledged (balances d' ! i) \<or> deposited_quid d' = 0) \<and>
    (\<exists>c \<ge> 0. has_capacity bank c)"
  using repo_add_long[OF assms] by simp

lemma sample_quote:
  "map_option (\<lambda>q. (q_old_value q, sat_u64 (q_mark q + q_collar_amt q), sat_u64 (q_mark q - q_trigger_amt q), q_accrued q))
     (position_quote (sample_pod\<lparr>exposure := 1000000, marked := 100000000\<rparr>) 500000 101000000 6000 3000 indexed_stats sample_bank) =
   Some (101000000, 120550000, 89730000, 160134)"
  by code_simp

theorem add_long_conserves_witness:
  "\<exists>d' bank' delta. repo two_positions ''TSLA'' 500000 101000000 6000 3000 indexed_stats sample_bank = Ok (d', bank', delta, 160134) \<and>
     deposited_quid d' + pledged (balances d' ! 0) + 160134 = 1200000000"
proof -
  obtain d' bank' delta interest where r: "repo two_positions ''TSLA'' 500000 101000000 6000 3000 indexed_stats sample_bank =
     Ok (d', bank', delta, interest)" using acceptedE[OF sample_add] by (metis prod_cases4)
  obtain q where q: "position_quote (sample_pod\<lparr>exposure := 1000000, marked := 100000000\<rparr>) 500000 101000000 6000 3000 indexed_stats sample_bank = Some q"
    "q_old_value q = 101000000" "sat_u64 (q_mark q + q_collar_amt q) = 120550000" "sat_u64 (q_mark q - q_trigger_amt q) = 89730000"
    "q_accrued q = 160134" using sample_quote by auto
  have p: "balances two_positions ! 0 = sample_pod\<lparr>exposure := 1000000, marked := 100000000\<rparr>"
    "find_pod (pad_ticker ''TSLA'') (balances two_positions) = Some 0" "deposited_quid two_positions = 1000000000"
    by (simp_all add: two_positions_def sample_pod_def sample_depositor_def)
  have "deposited_quid d' + pledged (balances d' ! 0) + interest = 1200000000 \<and> interest = 160134"
    using add_long_conserves[OF p(2) p(1)[symmetric] _ q(1) _ _ _ _ _ _ _ _ _ _ r] q(2-5) p(3)
    by (simp add: sample_pod_def is_u64_def)
  then show ?thesis using r by auto
qed

section \<open>Collateral\<close>

text \<open>
  When no position reports more removable collateral than it pledges, draining the
  positions in their order conserves money: the pledges fall by exactly what is reported
  as taken, and what is left to take is between zero and what was asked.
\<close>

theorem drain_conserves:
  assumes "drain_pods pods order ded (Some ps) now = Ok (pods', rem)" "distinct order" "0 \<le> ded"
    "\<forall>i \<in> set order. i < length pods \<and> is_u64 (pledged (pods ! i)) \<and> removable (pods ! i) (ps ! i) \<le> pledged (pods ! i)"
  shows "sum_list (map pledged pods') + (ded - rem) = sum_list (map pledged pods) \<and> 0 \<le> rem \<and> rem \<le> ded"
  by (rule drain_pods_sum[OF assms])

lemma sample_removable:
  "removable sample_pod 100000000 = 20000000" "removable (sample_pod\<lparr>exposure := 0\<rparr>) 100000000 = 200000000"
  by code_simp+

lemma sample_drain:
  "accepted (drain_pods [sample_pod, sample_pod\<lparr>exposure := 0\<rparr>] [0, 1] 250000000 (Some [100000000, 100000000]) 6000)"
  by (simp add: price_of_def sample_removable deduct_def ok_or_def accumulate_collar_seconds_def accepted_def i64_ok is_i64_def)
    (simp add: sample_pod_def i64_ok is_i64_def)

theorem drain_conserves_witness:
  "\<exists>pods' rem. drain_pods [sample_pod, sample_pod\<lparr>exposure := 0\<rparr>] [0, 1] 250000000 (Some [100000000, 100000000]) 6000 = Ok (pods', rem) \<and>
     sum_list (map pledged pods') + (250000000 - rem) = 400000000"
proof -
  obtain pods' rem where r: "drain_pods [sample_pod, sample_pod\<lparr>exposure := 0\<rparr>] [0, 1] 250000000 (Some [100000000, 100000000]) 6000 = Ok (pods', rem)"
    using acceptedE[OF sample_drain] by (metis surj_pair)
  show ?thesis using drain_conserves[OF r] r sample_removable by (simp add: sample_pod_def is_u64_def)
qed

text \<open>
  Moving the collateral of one ticker is decided by the first price of the list the
  handler fetched, which is the price of the account's first position, whatever ticker is
  moved: lists that agree on it give the same result.
\<close>

theorem release_reads_first_price:
  assumes "prices \<noteq> []" "prices' \<noteq> []" "hd prices = hd prices'"
  shows "renege d (Some t) amount (Some prices) now = renege d (Some t) amount (Some prices') now"
  using assms renege_first_price by (metis list.collapse)

theorem release_reads_first_price_witness:
  "renege two_positions (Some ''NVDA'') (-1000000) (Some [101000000, 900000000]) 6000 =
   renege two_positions (Some ''NVDA'') (-1000000) (Some [101000000, 1]) 6000"
  by (rule release_reads_first_price) simp_all

text \<open>
  A deposit into a ticker in which the account holds an open position is never accepted:
  the handler passes no prices, and the routine needs one.
\<close>

theorem topup_of_open_position_refused:
  assumes "dep_wf d" "bank_wf bank" "get_hex e ticker \<noteq> None" "ticker \<noteq> []" "in_sol_pool x = None"
    "find_pod (pad_ticker ticker) (balances d) = Some i" "exposure (balances d ! i) \<noteq> 0"
  shows "handle_in e x bank d risk amount ticker \<noteq> Ok r"
  by (rule handle_in_topup_refused[OF assms])

text \<open>A deposit of five hundred dollars that is otherwise in order.\<close>

theorem topup_of_open_position_refused_witness:
  "\<forall>r. handle_in sample_env \<lparr>in_signer = 42, in_mint = \<lparr>mint_key = 3, decimals = 6\<rparr>, in_vault = 103, in_quid = Some 4,
      in_config = init_config 1 3 0, in_sol_pool = None, in_token_program = 8, in_risk_bump = 0, in_remaining = []\<rparr>
     sample_bank sample_depositor None 500000000 ''TSLA'' \<noteq> Ok r"
proof (rule allI, rule topup_of_open_position_refused[OF sample_depositor_wf sample_bank_wf, where i = 0])
  show "get_hex sample_env ''TSLA'' \<noteq> None" by (simp add: get_hex_def sample_env_def)
qed (simp_all add: sample_depositor_def sample_pod_def)

text \<open>
  Pledging to a new ticker and releasing the same amount later gives back the account as
  it was, its clock apart; in between the pledges are up by the amount.
\<close>

theorem pledge_release_identity:
  assumes "find_pod (pad_ticker t) (balances d) = None" "length (balances d) < MAX_LEN" "0 < amount" "amount \<le> I64_MAX"
    "prune d = d" "0 \<le> now" "now \<le> later" "later \<le> I64_MAX"
  shows "\<exists>d1. renege d (Some t) amount prices now = Ok (d1, 0) \<and>
    sum_list (map pledged (balances d1)) = sum_list (map pledged (balances d)) + amount \<and>
    renege d1 (Some t) (- amount) prices' later = Ok (d\<lparr>last_updated := later\<rparr>, 0)"
  using okD[OF pledge_release_round_trip[OF assms, of prices prices']] by blast

theorem pledge_release_identity_witness:
  "\<exists>d1. renege sample_depositor (Some ''NVDA'') 300000000 None 6000 = Ok (d1, 0) \<and>
     sum_list (map pledged (balances d1)) = 500000000 \<and>
     renege d1 (Some ''NVDA'') (-300000000) None 9000 = Ok (sample_depositor\<lparr>last_updated := 9000\<rparr>, 0)"
proof -
  have "pad_ticker ''TSLA'' \<noteq> pad_ticker ''NVDA''" by code_simp
  then have "find_pod (pad_ticker ''NVDA'') (balances sample_depositor) = None" "prune sample_depositor = sample_depositor"
    "length (balances sample_depositor) < MAX_LEN" "sum_list (map pledged (balances sample_depositor)) = 200000000"
    by (simp_all add: sample_depositor_def sample_pod_def prune_def)
  then show ?thesis using pledge_release_identity[of "''NVDA''" sample_depositor 300000000 6000 9000 None None] by simp
qed

text \<open>
  The owner of a position of which units times price times one hundred is above the range
  of a \<open>u64\<close> (with prices in millionths, a position above 184,467 dollars) cannot trade it:
  the leverage shown to the fee overflows and the instruction aborts, closing orders
  included.
\<close>

theorem large_position_untradable:
  assumes "find_named t (balances d) = Some pos" "0 < pledged pos" "is_i64 (exposure pos)" "U64_MAX < \<bar>exposure pos\<bar> * price * 100"
  shows "trade_position e bank d risk p accts t amount price = None"
  by (rule trade_position_aborts[OF assms])

theorem large_position_untradable_witness:
  "trade_position sample_env sample_bank (sample_depositor\<lparr>balances := [sample_pod\<lparr>exposure := 1844674408, pledged := 100000000000\<rparr>]\<rparr>) sample_risk
     \<lparr>pay_vault = \<lparr>token_key = 103, token_mint_of = 3, token_owner = 1, amount_held = 0\<rparr>, pay_mint = \<lparr>mint_key = 3, decimals = 6\<rparr>,
      pay_user = 42, pay_registered = [3]\<rparr> [] ''TSLA'' (-1844674408) 100000000 = None"
proof (rule large_position_untradable)
  have "trim_nul (pad_ticker ''TSLA'') = ''TSLA''" by code_simp
  then show "find_named ''TSLA'' (balances (sample_depositor\<lparr>balances := [sample_pod\<lparr>exposure := 1844674408, pledged := 100000000000\<rparr>]\<rparr>)) =
      Some (sample_pod\<lparr>exposure := 1844674408, pledged := 100000000000\<rparr>)"
    by (simp add: find_named_def sample_pod_def)
qed (simp_all add: is_i64_def)

text \<open>
  A take-profit credits the pool with the payout instead of charging it: the change booked
  to the pool's own money is the payout less what the depositor's balance and pledge gained,
  where the payout has left the vault.
\<close>

theorem take_profit_credits_pool:
  assumes "route_profit e p accts moved interest fee = Ok (booked, cs)" "is_u64 interest" "0 \<le> fee" "fee \<le> 10000"
    "\<bar>moved\<bar> \<le> 4 * U64_MAX"
  shows "booked = (interest - interest * fee div 10000) - moved"
  by (rule route_profit_signed[OF assms])

lemma sample_profit: "accepted (route_profit sample_env sample_payer [] (-40000000) 60000000 100)"
  by code_simp

theorem take_profit_credits_pool_witness:
  "\<exists>cs. route_profit sample_env sample_payer [] (-40000000) 60000000 100 = Ok (99400000, cs)"
proof -
  obtain booked cs where r: "route_profit sample_env sample_payer [] (-40000000) 60000000 100 = Ok (booked, cs)"
    using acceptedE[OF sample_profit] by (metis surj_pair)
  show ?thesis using take_profit_credits_pool[OF r] r by (simp add: is_u64_def)
qed

text \<open>
  The sweep leaks funding. On an account whose position needs no unwinding it stores the
  ticker's pot as settled and leaves the account as it found it: the pot rises by what the
  settlement took from the pledge, and the pledge that is stored, and its checkpoint, do not
  change, so the same funding is collected again by the next sweep.
\<close>

theorem sweep_collects_unpaid_funding:
  assumes "sw_depositor acct = Some d" "sw_owner acct = program_id e" "sw_writable acct"
    "depositor_address e (owner d) = sw_key acct" "find_pod (pad_ticker t) (balances d) = Some i"
    "settle_funding d t risk price = Some (d1, risk1, s)"
    "is_u64 (pledged (balances d ! i))" "is_u64 (funding_pot risk)" "pledged (balances d ! i) + funding_pot risk \<le> U64_MAX"
    "repo d1 t 0 price (unix_timestamp e) (as_i64 (clock_slot e)) (risk_actuary risk1) bank = Err err"
  shows "sweep_one e t price risk bank acct = Some (risk1, bank, acct, 0, 0) \<and>
    funding_pot risk1 - funding_pot risk = pledged (balances d ! i) - pledged (balances d1 ! i)"
  using sweep_one_untouched[OF assms] by simp

lemma swept_funding:
  "map_option (\<lambda>(d, r, s). pledged (balances d ! 0)) (settle_funding sample_depositor ''TSLA'' funded_risk 100000000) = Some 193658042"
  by code_simp

lemma swept_in_band:
  "(case settle_funding sample_depositor ''TSLA'' funded_risk 100000000 of None \<Rightarrow> False
    | Some (d1, r1, s) \<Rightarrow> (case repo d1 ''TSLA'' 0 100000000 6000 3000 (risk_actuary r1) sample_bank of Some (Inl err) \<Rightarrow> True | _ \<Rightarrow> False))"
  by code_simp

theorem sweep_collects_unpaid_funding_witness:
  "\<exists>risk1. sweep_one sample_env ''TSLA'' 100000000 funded_risk sample_bank swept_account = Some (risk1, sample_bank, swept_account, 0, 0) \<and>
     funding_pot risk1 = funding_pot funded_risk + 6341958"
proof -
  obtain d1 risk1 s where f: "settle_funding sample_depositor ''TSLA'' funded_risk 100000000 = Some (d1, risk1, s)" "pledged (balances d1 ! 0) = 193658042"
    using swept_funding by auto
  obtain err where r: "repo d1 ''TSLA'' 0 100000000 6000 3000 (risk_actuary risk1) sample_bank = Err err"
    using swept_in_band f(1) by (auto split: option.splits sum.splits)
  have "as_i64 3000 = 3000" by (simp add: as_i64_def)
  then show ?thesis
    using sweep_collects_unpaid_funding[of swept_account sample_depositor sample_env "''TSLA''" 0 funded_risk 100000000 d1 risk1 s sample_bank err] f r
    by (simp add: swept_account_def sample_env_def funded_risk_def sample_risk_def sample_depositor_def sample_pod_def is_u64_def)
qed

section \<open>The chain: prices, decimals and vaults\<close>

text \<open>
  Converting a token amount to the accounting unit and back loses less than one
  accounting unit and never gains: the amount that comes back is at most the amount that
  went in.
\<close>

theorem decimals_round_trip:
  assumes "to_accounting x dec = Ok u" "0 \<le> x" "x \<le> U64_MAX"
  shows "\<exists>y. from_accounting u dec = Ok y \<and> y \<le> x \<and> x < y + 10 ^ nat (dec - 6)"
  by (rule accounting_round_trip[OF assms])

theorem decimals_round_trip_witness: "\<exists>y. from_accounting 1234567 9 = Ok y \<and> y \<le> 1234567891 \<and> (1234567891 :: int) < y + 10 ^ 3"
proof -
  have "to_accounting 1234567891 9 = Ok 1234567" by code_simp
  from decimals_round_trip[OF this] show ?thesis by simp
qed

text \<open>
  With at most one alternative vault the payment is exact: what is sent is what was
  asked, or everything the vaults hold when that is less.
\<close>

theorem vaults_pay_in_full:
  assumes "to_accounting (amount_held vault) (decimals mint) = Ok bal" "0 \<le> bal"
    "scan_vaults e reg accts = Ok alts" "length alts \<le> 1" "bal + sum_list (map av_balance alts) \<le> U64_MAX" "0 \<le> requested"
    "transfer_from_vaults e vault mint user accts reg requested None = Ok (sent, cs)"
  shows "sent = min requested (bal + sum_list (map av_balance alts))"
  using commitsD[OF transfer_pays_in_full[OF assms(1-6)] assms(7)] by simp

lemma sample_transfer:
  "accepted (transfer_from_vaults sample_env (pay_vault sample_payer) (pay_mint sample_payer) 42 [] [3] 2000000000 None)"
  by code_simp

theorem vaults_pay_in_full_witness:
  "\<exists>cs. transfer_from_vaults sample_env (pay_vault sample_payer) (pay_mint sample_payer) 42 [] [3] 2000000000 None = Ok (900000000, cs)"
proof -
  obtain sent cs where r: "transfer_from_vaults sample_env (pay_vault sample_payer) (pay_mint sample_payer) 42 [] [3] 2000000000 None = Ok (sent, cs)"
    using acceptedE[OF sample_transfer] by (metis surj_pair)
  show ?thesis
    using vaults_pay_in_full[of "pay_vault sample_payer" "pay_mint sample_payer" 900000000 sample_env "[3]" "[]" "[]" 2000000000 42 sent cs] r
    by (simp add: sample_payer_def to_accounting_def)
qed

section \<open>SOL\<close>

text \<open>
  Parking idle SOL moves lamports from the pool to the parked position one for one, and
  never takes the pool below the buffer the configuration requires.
\<close>

theorem parking_keeps_buffer:
  assumes "bank_wf bank" "config_reach cfg" "sol_lamports bank + sol_star_cost_lamports bank \<le> U64_MAX"
    "park_idle_sol e bank cfg legs price a now = Ok (bank', parked, cs)"
  shows "sol_lamports bank' + sol_star_cost_lamports bank' = sol_lamports bank + sol_star_cost_lamports bank \<and>
    sol_lamports bank' = sol_lamports bank - parked \<and> 0 \<le> parked \<and>
    (0 < parked \<longrightarrow> required_buffer bank (sol_buffer_bps cfg) \<le> sol_lamports bank')"
  using commitsD[OF park_idle_sol_keeps_buffer[OF assms(1) config_reach_wf[OF assms(2)] assms(3)] assms(4)] by auto

lemma park_values:
  "required_buffer sample_bank 6000 = 300000000000" "park_band sample_bank 4000 = 200000000000"
  "collar_adjusted_usd 2000000000 150000000 sample_stats = Some 276120000"
  "as_u64 (sat_u128 20000000000000 div 10000) = 2000000000" "sol_lamports sample_bank = 500000000000"
  by code_simp+

lemma sample_mint: "accepted (park sample_env sample_legs 200000000000)"
  by (simp add: park_def sample_legs_def invoke_def sample_env_def spl_program_def ensured_amount_def require_def sat_u64_def
      clamp_def accepted_def)

lemma sample_park:
  "\<exists>bank' cs. park_idle_sol sample_env sample_bank parking_config sample_legs 150000000 sample_stats 6000 = Ok (bank', 200000000000, cs)"
proof -
  obtain shares cs where p: "park sample_env sample_legs 200000000000 = Ok (shares, cs)"
    using acceptedE[OF sample_mint] by (metis surj_pair)
  have c: "kestrel_program parking_config = 50" "sol_buffer_bps parking_config = 6000" "sol_park_band_bps parking_config = 4000"
    "sol_star_haircut_bps parking_config = 100" by (simp_all add: parking_config_def)
  have s: "sat_u64 500000000000 = 500000000000" "sat_u64 200000000000 = 200000000000" by code_simp+
  show ?thesis
    by (simp add: park_idle_sol_def require_def Let_def c park_values s p) (simp add: adjust_sol_credit_def Let_def u64_def is_u64_def sample_bank_def)
qed

theorem parking_keeps_buffer_witness:
  "\<exists>bank' cs. park_idle_sol sample_env sample_bank parking_config sample_legs 150000000 sample_stats 6000 = Ok (bank', 200000000000, cs) \<and>
     required_buffer sample_bank 6000 \<le> sol_lamports bank' \<and> sol_star_cost_lamports bank' = 200000000000"
proof -
  obtain bank' cs where r: "park_idle_sol sample_env sample_bank parking_config sample_legs 150000000 sample_stats 6000 = Ok (bank', 200000000000, cs)"
    using sample_park by blast
  show ?thesis
    using parking_keeps_buffer[OF sample_bank_wf parking_reach _ r] r
    by (simp add: sample_bank_def depository_default_def parking_config_def)
qed

text \<open>
  A borrow is accepted only from the flash authority, only when no loan is out, and only
  when a later instruction of the same transaction repays it and no instruction before that
  one withdraws from the pool.
\<close>

theorem flash_borrow_guarded:
  assumes "handle_flash_borrow e cfg bank flash auth borrower pool later ra lamports tokens bump = Ok (bank', flash', cs)"
  shows "auth = flash_authority cfg \<and> flash_lamports flash = 0 \<and> flash_token_amount flash = 0 \<and>
    (\<exists>pre ix post. later = pre @ ix # post \<and> fst ix = program_id e \<and> take 8 (snd ix) = FLASH_REPAY_DISC \<and>
      (\<forall>j \<in> set pre. \<not> (fst j = program_id e \<and> take 8 (snd j) = WITHDRAW_DISC)))"
proof -
  note c = flash_borrow_cases[OF assms]
  from c(3) obtain pre ix post where "later = pre @ ix # post" "repays (program_id e) ix"
    "\<forall>j \<in> set pre. \<not> repays (program_id e) j \<and> \<not> withdraws (program_id e) j" unfolding find_repay_True by blast
  then show ?thesis using c(1,2) unfolding flash_idle_def repays_def withdraws_def by blast
qed

theorem flash_borrow_guarded_witness:
  "\<exists>pre ix post. repay_later = pre @ ix # post \<and> fst ix = program_id sample_env \<and> take 8 (snd ix) = FLASH_REPAY_DISC \<and>
      (\<forall>j \<in> set pre. \<not> (fst j = program_id sample_env \<and> take 8 (snd j) = WITHDRAW_DISC))"
  using flash_borrow_guarded[OF sample_borrow] by blast

section \<open>Paper backing and the bridge\<close>

text \<open>
  Sending paper out for redemption moves its cost from the held basis to the transit
  account without loss, and empties the basis when all the paper goes.
\<close>

theorem paper_basis_conserved:
  assumes "redeem_paper e x bank h risk raw_amount = Ok (bank', h', cs)" "is_u64 (spent h)" "is_u64 (paper_in_transit bank)"
    "spent h + paper_in_transit bank \<le> U64_MAX"
  shows "spent h' + paper_in_transit bank' = spent h + paper_in_transit bank \<and> 0 \<le> spent h' \<and>
    (raw_amount = amount_held (fl_paper_vault x) \<longrightarrow> spent h' = 0)"
  by (rule redeem_keeps_basis[OF assms])

lemma redemption_values:
  "live_cover 3000000 6 sample_risk = Ok 303000000" "live_cover 2000000 6 sample_risk = Ok 202000000"
  "unfunded_bps (sample_bank\<lparr>max_liability := 400000000\<rparr>) 303000000 = Some 0"
  "backing_preflight sample_env sample_backing sample_risk = Ok 6000"
  "released_basis 300000000 1000000 3000000 = Some 100000000" "sat_u64 2000000 = 2000000"
  by code_simp+

lemma sample_redemption: "accepted (redeem_paper sample_env sample_flow (sample_bank\<lparr>max_liability := 400000000\<rparr>) sample_backing sample_risk 1000000)"
proof -
  have "bk_mint sample_backing = 70" "redemption sample_backing = 72" "spent sample_backing = 300000000" "invoke sample_env c = Some ()" for c
    by (simp_all add: sample_backing_def invoke_def sample_env_def)
  then show ?thesis
    by (simp add: redeem_paper_def flow_guard_def require_def sample_flow_def is_approved_mint_def init_config_def redemption_values accepted_def)
qed

theorem paper_basis_conserved_witness:
  "\<exists>bank' h' cs. redeem_paper sample_env sample_flow (sample_bank\<lparr>max_liability := 400000000\<rparr>) sample_backing sample_risk 1000000 = Ok (bank', h', cs) \<and>
     spent h' + paper_in_transit bank' = 300000000"
proof -
  obtain bank' h' cs where r: "redeem_paper sample_env sample_flow (sample_bank\<lparr>max_liability := 400000000\<rparr>) sample_backing sample_risk 1000000 = Ok (bank', h', cs)"
    using acceptedE[OF sample_redemption] by (metis prod_cases3)
  show ?thesis
    using paper_basis_conserved[OF r] r by (simp add: sample_backing_def sample_bank_def depository_default_def is_u64_def)
qed

text \<open>
  Tokens are minted only against a message of the registered peer on Ethereum, which the
  endpoint has been told to clear, to the token account of the owner the message names, and
  in the amount it carries.
\<close>

theorem bridge_mints_what_peer_sent:
  assumes "lz_receive e store params accts = Ok cs"
  shows "lz_src_eid params = ETHEREUM_EID \<and> lz_sender params = peer_address store \<and>
    slice 32 32 (ai_data (accts ! 1)) = take 32 (lz_message params) \<and>
    cs = [Endpoint_clear (store_key store) (lz_src_eid params) (lz_sender params) (lz_nonce params) (lz_guid params) (lz_message params),
          Mint_to (store_mint store) (ai_key (accts ! 1)) (be_value (slice 32 8 (lz_message params)) * SD_TO_LOCAL)]"
  by (rule lz_receive_checked[OF assms])

lemma sample_receive:
  "accepted (lz_receive sample_env sample_store sample_params [\<lparr>ai_key = 3, ai_data = [], ai_owner = 8, ai_writable = True\<rparr>, token_home, token_home])"
  by code_simp

theorem bridge_mints_what_peer_sent_witness:
  "\<exists>c. lz_receive sample_env sample_store sample_params [\<lparr>ai_key = 3, ai_data = [], ai_owner = 8, ai_writable = True\<rparr>, token_home, token_home] =
     Ok [c, Mint_to 3 81 1500000]"
proof -
  have m: "be_value (slice 32 8 (lz_message sample_params)) = 1500" by code_simp
  obtain cs where r: "lz_receive sample_env sample_store sample_params
      [\<lparr>ai_key = 3, ai_data = [], ai_owner = 8, ai_writable = True\<rparr>, token_home, token_home] = Ok cs"
    using acceptedE[OF sample_receive] by blast
  from bridge_mints_what_peer_sent[OF r] r m show ?thesis by (simp add: token_home_def sample_store_def)
qed

end
