(* ===== verification/Spec2Isabelle.thy ===== *)
theory Spec2Isabelle
  imports Daemons Further
begin

text \<open>
  This development verifies two programs of the repository. The first is the \<open>quid\<close> Solana program,
  the Rust sources under \<open>src/svm/programs/quid/src\<close>: a pool of stablecoin deposits that lends
  exposure to listed tickers, prices that exposure from its own statistics, unwinds positions that
  leave their band, takes SOL as collateral and lends it by flash loans, buys tokenised paper
  against the reserve, and bridges its token to Ethereum. The second is the decision-making core of
  the daemons under \<open>src/quid-ln\<close>, which run Lightning channels whose state is mirrored by an
  Ethereum contract: proofs of inclusion, calldata, swap floors, protection against rollback,
  splicing, the leverage keeper, shares of the seed and the signer of a channel.

  \<^bold>\<open>The parts and how they interact.\<close> A ticker has a record of statistics, the \<^emph>\<open>actuary\<close>
  (\<open>etc.rs\<close>), updated by every price print and trade; from it come the loss profile, the
  margin, the funding rate, the collar, the fee and the reserve of the ticker. The
  \<^emph>\<open>depository\<close> (\<open>stay.rs\<close>) is the pool: deposits, yield, the reserve held for all tickers,
  the SOL book and the paper. A \<^emph>\<open>depositor\<close> (\<open>stay.rs\<close>) has a balance in the pool and a
  list of positions, each with a pledge and a signed exposure. The instructions
  (\<open>entra.rs\<close>, \<open>clutch.rs\<close>, \<open>LZ.rs\<close>) fetch a price from an oracle account, update the
  actuary, call \<open>repo\<close> or \<open>renege\<close> on the depositor, book the difference to the depository,
  restate the ticker's reserve and move tokens.

  In the daemons the hop builds calls to the contract \<open>BTCChannels\<close> (\<open>evm_codec.rs\<close>, \<open>abi.rs\<close>) with
  proofs that Bitcoin transactions are buried (\<open>spv.rs\<close>), reads its logs (\<open>swap.rs\<close>), and commits the
  number of each saved channel monitor to it (\<open>freshness.rs\<close>, \<open>freshness_ledger.rs\<close>), so that a
  restart from an old backup is noticed. The rebalancer decides when a channel is spliced. Every
  signature of a channel goes through the validating signer, which compares what it is told about
  the channel with the contract's record (\<open>channel_truth.rs\<close>).

  \<^bold>\<open>Theories.\<close>

  \<^item> \<open>Prelude\<close>: checked, saturating and truncating machine arithmetic on \<^typ>\<open>int\<close> (the program
    is built with overflow checks, so an overflow is an abort, the value \<^term>\<open>None\<close>), Rust's
    \<open>Result\<close> as an outcome with \<open>Ok\<close>, \<open>Err\<close>, \<open>attempt\<close> for the question mark and \<open>require\<close>, and the
    calculi \<open>ok\<close> (the computation returns and its value satisfies), \<open>part\<close> and \<open>commits\<close> (if it
    returns, or is accepted, its value satisfies) that carry the component proofs.
  \<^item> \<open>Etc_Base\<close>: the constants and the numeric helpers of \<open>etc.rs\<close> (powers, square roots).
  \<^item> \<open>Actuary\<close>: the record of statistics, the estimators, the generalised Pareto tail, the
    quantile search. The locale \<open>survival\<close> states what the bisection needs of a tail function; it
    is interpreted on the program's tail.
  \<^item> \<open>Price_Engine\<close>: \<open>update_price\<close>, \<open>record_activity\<close>, \<open>record_outcome\<close> and the invariant
    \<open>engine_wf\<close>.
  \<^item> \<open>Pricing\<close>: loss profile, margin, funding, hazard and premium rates, leverage cap, collar, fee,
    the premium and funding indices, and \<open>ticker_reach\<close>, the states any interleaving of prints,
    trades, outcomes and accruals can reach.
  \<^item> \<open>Depository\<close>, \<open>Position\<close>, \<open>Depositor\<close>: the pool, one position and its unwinding ladder, and the
    account, with the locale \<open>keyed_book\<close> of a list looked up by ticker and the ledger the pool
    refines.
  \<^item> \<open>Repo\<close>, \<open>Renege\<close>: the two large methods of \<open>Depositor\<close>, branch by branch.
  \<^item> \<open>Chain\<close>: accounts, calls to other programs, the price feed, decimals and payments from the
    vaults. \<open>Sol\<close>: configuration, the SOL book, parking, flash loans. \<open>Handlers\<close>: deposit,
    withdrawal, trading, liquidation and the sweep, with the locale \<open>shared_total\<close> of a whole kept as
    a sum of parts. \<open>Backing\<close>: the paper flows. \<open>Bridge\<close>: the LayerZero token bridge.
  \<^item> \<open>Samples\<close>: concrete states for the worked examples. \<open>Further\<close>: facts about the Solana program
    beside the main ones, each with an example.

  For the daemons:

  \<^item> \<open>Bytes\<close>: bytes, fixed-width encodings and ASCII. \<open>Hex\<close>: \<open>quid-hex\<close>. \<open>Spv\<close>: Merkle branches
    (\<open>quid-hop/src/spv.rs\<close>).
  \<^item> \<open>Abi\<close>, \<open>Evm_Calls\<close>: the token encoder and the calls built from it, with the inclusion gathered
    from a block explorer. \<open>Swap_Rails\<close>: floors, finality, logs.
  \<^item> \<open>Freshness\<close>: the anchors, the counters of the contract, the queued ledger and its committer,
    saving a monitor, and boot. The locale \<open>freshness_anchor\<close> states what saving relies on, and
    \<open>freshness_ledger\<close> what an anchor relies on; both are interpreted on the model.
  \<^item> \<open>Rebalancer\<close>, \<open>Lev_Keeper\<close>, \<open>Seed_Shares\<close>, \<open>Channel_Truth\<close>: the source files of these names
    (\<open>channel_truth.rs\<close> with the retry delays of \<open>backoff.rs\<close>).
  \<^item> \<open>Taproot_Signer\<close>: nonce derivation, key aggregation and a signer's half of a MuSig2 session.
    \<open>Validating_Signer\<close>: the policy, the context it signs under, every gated request, and \<open>serve_all\<close>,
    a sequence of requests in any order with the events it emits.
  \<^item> \<open>Daemons\<close>: the properties of the daemons. This theory holds those of the Solana program.

  \<^bold>\<open>State and effects.\<close> Rust structs are records with the source's fields, methods that mutate
  them are functions that return them updated, and an error carries no state because the
  transaction is rolled back. An instruction takes the accounts it locks by value and returns
  them with the list of calls it made. Everything outside the program is a field of the record
  \<open>env\<close>: the clock, the tables of oracle feeds and accounts, the conversion of a price and its
  exponent through floating point, base58, derived addresses, what the settlement program
  mints, and whether a call succeeds. Properties hold for every environment unless they say
  otherwise. In the daemons a \<open>u64\<close> is a \<^typ>\<open>nat\<close> with its saturation and wrap-around written out,
  a word of the EVM is a 256-bit word, a panic is \<^term>\<open>None\<close>, and crates, hashes, the
  in-memory signer and what a server answers are parameter records whose documented behaviour is
  a named hypothesis where a property needs it.

  \<^bold>\<open>Loops and fuel.\<close> The Newton iteration, the power loops and the fade loop are recursive functions
  with a measure; the bisection takes its number of halvings as the source does, and
  \<open>quantile_is_least\<close> shows that the number is enough for the interval.

  \<^bold>\<open>What the properties show.\<close> The engine absorbs every print and prices every position without an
  arithmetic failure (first section), the reserve stays a sum, claims leave it covered and the
  pool refines a ledger (second), funding is settled once and the unwinding ladder ends (third),
  closing a short in profit and a long does what the code says (fourth), a drained short is not
  backed and a routed trade conserves money (fifth), and accepted
  prices are checked, the configuration stays sane, flash loans are repaid and what the bridge burns
  it mints (the rest). \<open>Further\<close> adds the conservation of partial closes, drains and the basis of
  the paper, and the integer square root.
  In the daemons, proofs of inclusion verify and cannot be forged without a collision, calls
  decode to what was meant, quoted floors hold on chain, a rollback is noticed beyond the bounded
  window, splices stay within their bounds, urgent positions are served first, written shares give
  the seed back, and the signer never reuses a nonce, never signs a revoked state, and stops when it is told
  contradictory things.

  Some properties state what the code does where that is not what its comments intend:
  \<open>short_profit_not_closable\<close>, \<open>long_close_bills_twice\<close> and \<open>short_drain_unbacked\<close> here,
  \<open>settle_call_malformed\<close>, \<open>restart_refuses_established_channel\<close>, \<open>slot_never_released\<close> and
  \<open>rotation_rebinds_scope\<close> in \<open>Daemons\<close>, and in \<open>Further\<close> \<open>cascade_branch_dead\<close>,
  \<open>crowding_aborts_large_net\<close>, \<open>tranche_books_gap\<close>, \<open>release_reads_first_price\<close>,
  \<open>topup_of_open_position_refused\<close>, \<open>large_position_untradable\<close>, \<open>take_profit_credits_pool\<close> and
  \<open>sweep_collects_unpaid_funding\<close>.

  \<^bold>\<open>Not modelled.\<close> Of the Solana program: Anchor's account loading and write-back, so two account
  arguments that alias are not; the tables of tickers and feeds (data, parameters here); event
  logging; the test modules, the backtest and the facility simulation. Tickers are ASCII. Of the daemons:
  the asynchronous services around the fork of the Lightning library, its wallets, storage, TLS and enclave
  code; reads over RPC; the parsing of Bitcoin transactions by the \<open>bitcoin\<close> crate and the builders of open and
  splice parameters around it; the floating-point forecast of the keeper; the signer's requests that only
  forward to the in-memory signer; poisoned mutexes. Of the Ethereum contracts under
  \<open>src/evm\<close>, separate Solidity programs, only the freshness counters and the settlement floor
  that the daemons rely on. The indexer, the mobile application, the web page and the analysis
  tools are separate programs of I/O and presentation.
\<close>

section \<open>The price engine\<close>

text \<open>
  C1: From any state of a ticker's statistics that respects the invariant, a print of a
  positive price at a slot no earlier than those it already saw is absorbed without any
  arithmetic failure; the result respects the invariant and records the print.
\<close>

theorem update_price_absorbs:
  assumes "engine_wf slot a" "0 < price" "price \<le> I64_MAX"
  shows "\<exists>a'. update_price a price slot = Some a' \<and> engine_wf slot a' \<and>
    last_price a' = price \<and> last_price_slot a' = slot"
  using okD[OF update_price_ok[OF assms]] by blast

theorem update_price_absorbs_witness:
  "\<exists>a'. update_price actuary_default 1000000 0 = Some a' \<and> engine_wf 0 a' \<and>
    last_price a' = 1000000 \<and> last_price_slot a' = 0"
  using update_price_absorbs[of 0 actuary_default 1000000] engine_wf_default by simp

text \<open>
  C2: However prints, trades, realised outcomes and accruals were interleaved, the statistics
  never reach a state in which the next positive price would abort: every reachable state
  has a successor by a print, and the successor is reachable.
\<close>

theorem next_print_never_aborts:
  assumes "ticker_reach slot a" "0 < price" "price \<le> I64_MAX"
  shows "\<exists>a'. update_price a price slot = Some a' \<and> ticker_reach slot a' \<and> last_price a' = price"
proof -
  have "engine_wf slot a" using ticker_reach_wf[OF assms(1)] by simp
  from okD[OF update_price_ok[OF this assms(2,3)]] show ?thesis using ticker_reach.print[OF assms] by blast
qed

theorem next_print_never_aborts_witness:
  "ticker_reach 2000 sample_stats \<and>
   (\<exists>a'. update_price sample_stats 60000000 2000 = Some a' \<and> ticker_reach 2000 a' \<and> last_price a' = 60000000)"
  using next_print_never_aborts[OF sample_reach, of 60000000] sample_reach by simp

text \<open>
  C3: In every reachable state the loss profile of a position of any size and side against any
  net book is computed without failure: the margin and the trigger lie between one basis
  point and the whole position, the trigger is inside the margin, the capital is at most
  the margin, and the premium covers the expected loss.
\<close>

theorem reachable_profile_priced:
  assumes "ticker_reach slot a"
  shows "\<exists>lp. loss_profile_of a sz net = Some lp \<and> 1 \<le> lp_margin_bps lp \<and> lp_margin_bps lp \<le> BPS \<and>
    1 \<le> lp_trigger_bps lp \<and> lp_trigger_bps lp \<le> lp_margin_bps lp \<and> \<bar>lp_capital_bps lp\<bar> \<le> lp_margin_bps lp \<and>
    0 \<le> lp_expected_loss_bps lp \<and> lp_expected_loss_bps lp \<le> lp_premium_bps lp"
proof -
  have "rated a" using ticker_reach_wf[OF assms] engine_rated by blast
  then show ?thesis using okD[OF loss_profile_ok[of a sz net]] by (auto simp: rated_def)
qed

theorem reachable_profile_priced_witness:
  "\<exists>lp. loss_profile_of sample_stats (-250000000) 1000000000 = Some lp \<and> 1 \<le> lp_margin_bps lp \<and> lp_margin_bps lp \<le> BPS \<and>
    1 \<le> lp_trigger_bps lp \<and> lp_trigger_bps lp \<le> lp_margin_bps lp \<and> \<bar>lp_capital_bps lp\<bar> \<le> lp_margin_bps lp \<and>
    0 \<le> lp_expected_loss_bps lp \<and> lp_expected_loss_bps lp \<le> lp_premium_bps lp"
  by (rule reachable_profile_priced[OF sample_reach])

text \<open>
  C4: The quantile search returns, and what it returns is the least distance at which the
  fitted tail is at most the given probability, or the end of the search interval when the
  tail is still above it everywhere before that.
\<close>

theorem quantile_is_least:
  assumes "fit_wf a"
  shows "\<exists>q n beta u zeta s. quantile_bps a p = Some q \<and> gpd_params a = Some (n, beta) \<and> pot_threshold a = Some u \<and>
    exceedance_rate_bps a = Some zeta \<and> eff_sigma a = Some s \<and> 0 < q \<and> q \<le> max 100 (s * 50) \<and>
    (q = max 100 (s * 50) \<or> (\<exists>t. tail_at q n beta u zeta = Some t \<and> t \<le> p)) \<and>
    (\<forall>d t. 0 < d \<longrightarrow> d < q \<longrightarrow> tail_at d n beta u zeta = Some t \<longrightarrow> p < t)"
proof -
  obtain n beta u zeta s where f: "gpd_params a = Some (n, beta)" "pot_threshold a = Some u"
    "exceedance_rate_bps a = Some zeta" "eff_sigma a = Some s"
    using okD[OF gpd_params_ok[OF assms]] okD[OF pot_threshold_ok[OF assms]] okD[OF exceedance_rate_ok[OF assms]]
      okD[OF eff_sigma_ok[OF assms]] by fastforce
  from okD[OF quantile_inverts[OF assms this, of p]] obtain q where
    "quantile_bps a p = Some q" "inverts (tail_fn (n, beta, u, zeta)) p (search_top s) q" by blast
  then show ?thesis using f unfolding inverts_def search_top_def by auto
qed

theorem quantile_is_least_witness:
  "\<exists>q n beta u zeta s. quantile_bps sample_stats 100 = Some q \<and> gpd_params sample_stats = Some (n, beta) \<and>
    pot_threshold sample_stats = Some u \<and> exceedance_rate_bps sample_stats = Some zeta \<and> eff_sigma sample_stats = Some s \<and>
    0 < q \<and> q \<le> max 100 (s * 50) \<and> (q = max 100 (s * 50) \<or> (\<exists>t. tail_at q n beta u zeta = Some t \<and> t \<le> 100)) \<and>
    (\<forall>d t. 0 < d \<longrightarrow> d < q \<longrightarrow> tail_at d n beta u zeta = Some t \<longrightarrow> 100 < t)"
  by (rule quantile_is_least) (use sample_wf(2) in \<open>simp add: rated_def\<close>)

text \<open>
  C5: The tail routine, which multiplies step by step in checked arithmetic and leaves its
  loop as soon as the product is zero, computes the reference survival function: one minus
  a linear part up to the threshold, and the full product of \<open>n\<close> rounded factors beyond it.
\<close>

theorem tail_matches_reference:
  assumes "tail_params (n, beta, u, zeta)" "d \<le> 1048576"
  shows "tail_at_fine d n beta u zeta = Some (
     if d \<le> 0 then TAIL_FINE
     else if d \<le> u then TAIL_FINE - (TAIL_FINE - zeta * 10000) * d div u
     else ((\<lambda>x. x * (n * beta) div (n * beta + (d - u))) ^^ nat n) (zeta * 10000))"
  using tail_at_fine_spec[OF assms] by (simp only: tail_spec_def tail_iter_def)

theorem tail_matches_reference_witness:
  "tail_at_fine 5000 4 300 200 500 = Some (((\<lambda>x. x * (4 * 300) div (4 * 300 + (5000 - 200))) ^^ 4) (500 * 10000))"
  using tail_matches_reference[of 4 300 200 500 5000] by (simp add: tail_params_def)



section \<open>The reserve and the claims on the pool\<close>

text \<open>
  C7: When the pool's reserve is the sum of what the tickers contribute, restating one
  ticker's contribution keeps it so, and the new contribution is at most that ticker's net
  book.
\<close>

theorem reserve_stays_sum:
  assumes "max_liability bank = sum_list (map tr_reserved risks)" "\<forall>r \<in> set risks. 0 \<le> tr_reserved r" "i < length risks"
    "reserve_fits (risks ! i) bank" "reconcile_ticker_reserve (risks ! i) bank = Some (risk', bank')"
  shows "max_liability bank' = sum_list (map tr_reserved (risks[i := risk'])) \<and> 0 \<le> tr_reserved risk' \<and>
    tr_reserved risk' \<le> \<bar>get_net (risk_actuary (risks ! i))\<bar>"
proof -
  have b: "reserve.balanced risks bank" using assms(1,2) by (simp add: reserve.balanced_def)
  show ?thesis
    using reserve.adjust_balanced[OF b assms(3,5,4)] reconcile_moves[OF assms(5,4) reserve.balanced_share_le[OF b assms(3)]]
    by (simp add: reserve.balanced_def)
qed

lemma busy_reserve:
  "reconcile_ticker_reserve busy_risk (sample_bank\<lparr>max_liability := 350000000\<rparr>) \<noteq> None"
  by code_simp

theorem reserve_stays_sum_witness:
  "\<exists>risk' bank'. reconcile_ticker_reserve busy_risk (sample_bank\<lparr>max_liability := 350000000\<rparr>) = Some (risk', bank') \<and>
     max_liability bank' = tr_reserved risk' + 150000000"
proof -
  obtain risk' bank' where r: "reconcile_ticker_reserve busy_risk (sample_bank\<lparr>max_liability := 350000000\<rparr>) = Some (risk', bank')"
    using busy_reserve by fastforce
  have "reserve_fits busy_risk (sample_bank\<lparr>max_liability := 350000000\<rparr>)"
    using sample_wf(3) by (simp add: reserve_fits_def busy_risk_def ranges traded_stats_def)
  then show ?thesis
    using reserve_stays_sum[of "sample_bank\<lparr>max_liability := 350000000\<rparr>" "[busy_risk, sample_risk\<lparr>tr_reserved := 150000000\<rparr>]" 0 risk' bank'] r
    by (simp add: busy_risk_def sample_risk_def)
qed






section \<open>Positions\<close>



text \<open>
  C11: Settling funding moves money between a position's pledge and its ticker's pot and
  creates none, brings the position's checkpoint up to the index, and is idempotent: a
  second settlement at any price moves nothing.
\<close>

theorem funding_settled_once:
  assumes "settle_pod_funding pod risk price = Some (pod', risk', s)"
    "is_u64 (pledged pod)" "is_u64 (funding_pot risk)" "pledged pod + funding_pot risk \<le> U64_MAX"
  shows "pledged pod' + funding_pot risk' = pledged pod + funding_pot risk \<and> 0 \<le> pledged pod' \<and> 0 \<le> funding_pot risk' \<and>
    funding_checkpoint pod' = funding_index (risk_actuary risk) \<and> settle_pod_funding pod' risk' price' = Some (pod', risk', 0)"
  using settle_pod_funding_conserves[OF assms] settle_pod_funding_twice[OF assms(1)] by (simp add: is_u64_def)

lemma sample_funding:
  "map_option (\<lambda>(p, r, s). s) (settle_pod_funding sample_pod (sample_risk\<lparr>risk_actuary := traded_stats\<lparr>funding_index := 10000000000\<rparr>\<rparr>) 100000000) =
     Some (-6341958)"
  by code_simp

theorem funding_settled_once_witness:
  "\<exists>pod' risk'. settle_pod_funding sample_pod (sample_risk\<lparr>risk_actuary := traded_stats\<lparr>funding_index := 10000000000\<rparr>\<rparr>) 100000000 =
     Some (pod', risk', -6341958) \<and> pledged pod' + funding_pot risk' = 201000000 \<and>
     settle_pod_funding pod' risk' 90000000 = Some (pod', risk', 0)"
proof -
  obtain pod' risk' where r: "settle_pod_funding sample_pod (sample_risk\<lparr>risk_actuary := traded_stats\<lparr>funding_index := 10000000000\<rparr>\<rparr>) 100000000 =
     Some (pod', risk', -6341958)" using sample_funding by auto
  show ?thesis using funding_settled_once[OF r] r by (simp add: sample_pod_def sample_risk_def is_u64_def)
qed

section \<open>Trading and unwinding\<close>

text \<open>
  C12: A short that is in profit beyond its band cannot be bought back. The owner's order to
  reduce it returns success with nothing paid; the premium is charged, the exposure does not
  change, and the pool and the balance are untouched.
\<close>

theorem short_profit_not_closable:
  assumes "find_pod (pad_ticker t) (balances d) = Some i" "pod = balances d ! i" "0 < price"
    "position_quote pod amount price now slot a bank = Some q"
    "0 < amount" "exposure pod < 0" "- I64_MAX \<le> exposure pod" "is_u64 (pledged pod - q_accrued q)"
    "0 < value_at pod price" "value_at pod price \<le> sat_u64 (q_mark q - q_collar_amt q)"
  shows "repo d t amount price now slot a bank =
    Ok (put_pod d i (pod\<lparr>premium_checkpoint := premium_index a, pledged := pledged pod - q_accrued q,
          interest_paid := sat_u64 (interest_paid pod + q_accrued q)\<rparr>), bank, 0, 0)"
  by (rule repo_short_profit_stuck[OF assms])

lemma short_quote:
  "map_option (\<lambda>q. (sat_u64 (q_mark q - q_collar_amt q), q_accrued q))
     (position_quote short_pod 2000000 40000000 6000 3000 sample_stats sample_bank) = Some (158900000, 495)"
  "value_at short_pod 40000000 = 80000000"
  by code_simp+

theorem short_profit_not_closable_witness:
  "\<exists>d'. repo (sample_depositor\<lparr>balances := [short_pod]\<rparr>) ''TSLA'' 2000000 40000000 6000 3000 sample_stats sample_bank =
     Ok (d', sample_bank, 0, 0) \<and> exposure (balances d' ! 0) = -2000000 \<and> pledged (balances d' ! 0) = 199999505"
proof -
  obtain q where q: "position_quote short_pod 2000000 40000000 6000 3000 sample_stats sample_bank = Some q"
    "sat_u64 (q_mark q - q_collar_amt q) = 158900000" "q_accrued q = 495" using short_quote(1) by auto
  show ?thesis
    using short_profit_not_closable[of "''TSLA''" "sample_depositor\<lparr>balances := [short_pod]\<rparr>" 0 short_pod, OF _ _ _ q(1)] q(2,3) short_quote(2)
    by (simp add: short_pod_def sample_pod_def is_u64_def put_pod_def)
qed

text \<open>
  C13: An owner who closes a marked long in full is billed the premium twice: the payout is the
  pledge and the gain over the mark less two times the premium accrued.
\<close>

theorem long_close_bills_twice:
  assumes "find_pod (pad_ticker t) (balances d) = Some i" "pod = balances d ! i" "0 < price"
    "position_quote pod (- exposure pod) price now slot a bank = Some q"
    "0 < exposure pod" "exposure pod \<le> I64_MAX" "0 < marked pod" "0 \<le> q_accrued q" "is_u64 (pledged pod)"
    "pledged pod + value_at pod price \<le> U64_MAX"
    "repo d t (- exposure pod) price now slot a bank = Ok (d', bank', delta, paid)"
  shows "paid = max 0 (pledged pod + value_at pod price - marked pod - 2 * q_accrued q) \<and> pledged (balances d' ! i) = 0"
  by (rule repo_close_long_pays[OF assms])

lemma levered_quote:
  "map_option q_accrued (position_quote levered_pod (-2000000) 120000000 6000 3000 indexed_stats sample_bank) = Some 380815"
  "value_at levered_pod 120000000 = 240000000"
  by code_simp+

lemma levered_close:
  "accepted (repo (sample_depositor\<lparr>balances := [levered_pod]\<rparr>) ''TSLA'' (-2000000) 120000000 6000 3000 indexed_stats sample_bank)"
  by code_simp

theorem long_close_bills_twice_witness:
  "\<exists>d' bank' delta paid. repo (sample_depositor\<lparr>balances := [levered_pod]\<rparr>) ''TSLA'' (-2000000) 120000000 6000 3000 indexed_stats sample_bank =
     Ok (d', bank', delta, paid) \<and> paid = 40000000 + 240000000 - 200000000 - 2 * 380815"
proof -
  obtain d' bank' delta paid where r: "repo (sample_depositor\<lparr>balances := [levered_pod]\<rparr>) ''TSLA'' (-2000000) 120000000 6000 3000 indexed_stats sample_bank =
     Ok (d', bank', delta, paid)" using acceptedE[OF levered_close] by (metis prod_cases4)
  obtain q where q: "position_quote levered_pod (-2000000) 120000000 6000 3000 indexed_stats sample_bank = Some q" "q_accrued q = 380815"
    using levered_quote(1) by auto
  have x: "exposure levered_pod = 2000000" by (simp add: levered_pod_def sample_pod_def)
  have "paid = 40000000 + 240000000 - 200000000 - 2 * 380815"
    using long_close_bills_twice[of "''TSLA''" "sample_depositor\<lparr>balances := [levered_pod]\<rparr>" 0 levered_pod 120000000 6000 3000 indexed_stats sample_bank q]
      r q levered_quote(2) x by (simp add: levered_pod_def sample_pod_def is_u64_def)
  then show ?thesis using r by blast
qed

section \<open>Collateral\<close>

text \<open>
  C14: A short worth at least twice its pledge can be drained beyond it. Asked for the
  position's value less its pledge, the routine reports the whole amount as taken; the pledge
  it takes it from is set to zero, and the exposure stays open with nothing behind it.
\<close>

theorem short_drain_unbacked:
  assumes "pod_wf pod" "exposure pod < 0" "2 * pledged pod \<le> value_at pod price" "pledged pod < value_at pod price"
    "0 \<le> now" "now \<le> I64_MAX" "0 \<le> updated pod" "updated pod \<le> I64_MAX" "balances d = [pod]"
    "value_at pod price - pledged pod \<le> I64_MAX"
  shows "\<exists>pod'. renege d None (- (value_at pod price - pledged pod)) (Some [price]) now = Ok (d\<lparr>balances := [pod']\<rparr>, 0) \<and>
    pledged pod' = 0 \<and> exposure pod' = exposure pod"
  using okD[OF drain_short_overpays[OF assms]] by blast

theorem short_drain_unbacked_witness:
  "\<exists>pod'. renege (sample_depositor\<lparr>balances := [short_pod\<lparr>pledged := 40000000\<rparr>]\<rparr>) None (-160000000) (Some [100000000]) 6000 =
     Ok (sample_depositor\<lparr>balances := [pod']\<rparr>, 0) \<and> pledged pod' = 0 \<and> exposure pod' = -2000000"
proof -
  have "value_at (short_pod\<lparr>pledged := 40000000\<rparr>) 100000000 = 200000000" by code_simp
  then show ?thesis
    using short_drain_unbacked[of "short_pod\<lparr>pledged := 40000000\<rparr>" 100000000 6000 "sample_depositor\<lparr>balances := [short_pod\<lparr>pledged := 40000000\<rparr>]\<rparr>"]
    by (simp add: short_pod_def sample_pod_def pod_wf_def ranges)
qed

text \<open>
  C15: A trade that takes no profit out is routed without loss: the change booked to the pool,
  the change of the owner's balance and the change of the pledge cancel, and no vault pays.
\<close>

theorem routed_trade_conserves:
  assumes "route_trade e p accts d pre_dq pre_pledged prior post_pledged post delta interest fee = Ok (d', booked, cs)"
    "0 \<le> delta" "is_u64 (deposited_quid d)" "is_u64 pre_dq" "is_u64 pre_pledged" "is_u64 post_pledged" "0 \<le> interest"
    "deposited_quid d + interest \<le> U64_MAX"
  shows "booked + (deposited_quid d' - pre_dq) + (post_pledged - pre_pledged) = 0 \<and> cs = []"
  using route_trade_conserves[OF assms] by simp

lemma sample_route: "accepted (route_trade sample_env sample_payer [] sample_depositor 1050000000 200000000 2000000 150000000 1500000 0 50000000 100)"
  by code_simp

theorem routed_trade_conserves_witness:
  "\<exists>d' booked. route_trade sample_env sample_payer [] sample_depositor 1050000000 200000000 2000000 150000000 1500000 0 50000000 100 =
     Ok (d', booked, []) \<and> booked + (deposited_quid d' - 1050000000) + (150000000 - 200000000) = 0"
proof -
  obtain d' booked cs where r: "route_trade sample_env sample_payer [] sample_depositor 1050000000 200000000 2000000 150000000 1500000 0 50000000 100 =
     Ok (d', booked, cs)" using acceptedE[OF sample_route] by (metis prod_cases3)
  show ?thesis using routed_trade_conserves[OF r] r by (simp add: sample_depositor_def is_u64_def)
qed

section \<open>The chain: prices, decimals and vaults\<close>

text \<open>
  C16: A price is accepted only from an account that carries the ticker's feed, no older than
  the limit, and with a confidence interval within the bound; it is positive.
\<close>

theorem accepted_price_is_checked:
  assumes "fetch_price e t acct = Ok p"
  shows "0 < p \<and> (\<exists>a hex feed r. acct = Some a \<and> get_hex e t = Some hex \<and> expected_feed hex = Ok feed \<and> slice 41 32 (ai_data a) = feed \<and>
    \<bar>unix_timestamp e - as_i64 (le_value (slice 93 8 (ai_data a)))\<bar> \<le> MAX_PRICE_AGE \<and>
    conf_ratio_bps (le_value (slice 81 8 (ai_data a))) \<bar>as_i64 (le_value (slice 73 8 (ai_data a)))\<bar> = Some r \<and> r \<le> MAX_CONFIDENCE_BPS)"
proof -
  obtain mult where "fetch_price_inner e t acct MAX_PRICE_AGE = Ok (p, mult)"
    using assms by (auto simp: fetch_price_def elim!: attempt_OkE)
  from commitsD[OF fetch_price_inner_checked this] show ?thesis by blast
qed

lemma sol_price: "fetch_price sample_env ''SOL'' (Some sol_feed) = Ok 150000000"
  by code_simp

theorem accepted_price_is_checked_witness:
  "\<exists>r. conf_ratio_bps (le_value (slice 81 8 (ai_data sol_feed))) \<bar>as_i64 (le_value (slice 73 8 (ai_data sol_feed)))\<bar> = Some r \<and> r \<le> MAX_CONFIDENCE_BPS"
  using accepted_price_is_checked[OF sol_price] by auto

section \<open>SOL\<close>

text \<open>
  C17: Whatever updates administrators make, the configuration keeps its bounds: the buffer is
  at least the minimum and, with the parking band, at most the whole; the haircut is at most
  the whole; and a set settlement program comes with a mint.
\<close>

theorem config_stays_sane:
  assumes "config_reach cfg"
  shows "MIN_BUFFER_BPS \<le> sol_buffer_bps cfg \<and> sol_buffer_bps cfg + sol_park_band_bps cfg \<le> 10000 \<and> 0 \<le> sol_park_band_bps cfg \<and>
    0 \<le> sol_star_haircut_bps cfg \<and> sol_star_haircut_bps cfg \<le> 10000 \<and> (kestrel_program cfg \<noteq> default_key \<longrightarrow> sol_star_mint cfg \<noteq> default_key)"
  using config_reach_wf[OF assms] by (simp add: cfg_wf_def)

theorem config_stays_sane_witness:
  "config_reach parking_config \<and> MIN_BUFFER_BPS \<le> sol_buffer_bps parking_config \<and> sol_star_mint parking_config \<noteq> default_key"
  using config_stays_sane[OF parking_reach] parking_reach by (simp add: parking_config_def)

text \<open>
  C18: A flash loan of SOL is repaid in full with its tip: when a borrow and the repayment that
  follows it are both accepted, the loan record is idle again and as it was, and the pool
  holds what it held before plus a tip of at least the minimum rate on the loan.
\<close>

theorem flash_loan_repaid:
  assumes "handle_flash_borrow e cfg bank flash auth borrower pool later ra lamports tokens bump = Ok (bank1, flash1, cs)"
    "0 < lamports" "handle_flash_repay e' bank1 flash1 risk repayer pool ra' tip tip_tokens bump' = Ok (bank2, flash2, risk2, cs2)"
    "0 \<le> tip" "sol_lamports bank + tip \<le> U64_MAX"
  shows "flash2 = flash \<and> flash_lamports flash2 = 0 \<and> flash_token_amount flash2 = 0 \<and>
    sol_lamports bank2 = sol_lamports bank + tip \<and> lamports * FLASH_TIP_BPS div 10000 \<le> tip"
  using flash_round_trip[OF assms] by (auto simp: flash_idle_def)

lemma sample_repay:
  "accepted (handle_flash_repay sample_env (sample_bank\<lparr>sol_usd_contrib := 0, sol_lamports := 400000000000\<rparr>) (idle_flash\<lparr>flash_lamports := 100000000000\<rparr>)
     sample_risk 61 20 [sol_feed] 100000000 0 0)"
  by code_simp

theorem flash_loan_repaid_witness:
  "\<exists>bank2 risk2 cs2. handle_flash_repay sample_env (sample_bank\<lparr>sol_usd_contrib := 0, sol_lamports := 400000000000\<rparr>)
     (idle_flash\<lparr>flash_lamports := 100000000000\<rparr>) sample_risk 61 20 [sol_feed] 100000000 0 0 = Ok (bank2, idle_flash, risk2, cs2) \<and>
     sol_lamports bank2 = 500100000000"
proof -
  obtain bank2 flash2 risk2 cs2 where r: "handle_flash_repay sample_env (sample_bank\<lparr>sol_usd_contrib := 0, sol_lamports := 400000000000\<rparr>)
     (idle_flash\<lparr>flash_lamports := 100000000000\<rparr>) sample_risk 61 20 [sol_feed] 100000000 0 0 = Ok (bank2, flash2, risk2, cs2)"
    using acceptedE[OF sample_repay] by (metis prod_cases4)
  show ?thesis using flash_loan_repaid[OF sample_borrow _ r] r by (simp add: sample_bank_def)
qed

section \<open>Paper backing and the bridge\<close>




end
